(* ===== verification/Prelude.thy ===== *)
theory Prelude
  imports Complex_Main "HOL-Library.State_Monad"
begin

text \<open>
  Shared vocabulary of the development: the rule collections the component theories
  fill, and a small program logic for the state monad in which the stateful Go code is
  written.  A Go function that reads or changes state is a value of type
  \<open>('s, 'a) state\<close> (\<open>HOL-Library.State_Monad\<close>); an early \<open>return\<close> is a branch of
  its \<open>do\<close> block.

  \<^item> \<open>triple P m Q\<close>: every run of \<open>m\<close> from a state with \<open>P\<close> returns a value and a state
    related by \<open>Q\<close>.
  \<^item> \<open>keeps f m\<close>: \<open>m\<close> does not change the observation \<open>f\<close> of the state.
  \<^item> \<open>grows f m\<close>: \<open>m\<close> only appends to the list \<open>f\<close> of the state (logs and traces).
\<close>

named_theorems keeps_intros \<open>frame rules: operations that leave an observation unchanged\<close>
named_theorems grows_intros \<open>operations that only append to a log\<close>
named_theorems triple_intros \<open>rules for pre- and postconditions\<close>
named_theorems run_simps \<open>one-step execution equations of the primitive operations\<close>
named_theorems record_defs \<open>definitions of constant records and tables\<close>

subsection \<open>Triples\<close>

definition triple :: "('s \<Rightarrow> bool) \<Rightarrow> ('s, 'a) state \<Rightarrow> ('a \<Rightarrow> 's \<Rightarrow> bool) \<Rightarrow> bool" where
  "triple P m Q \<longleftrightarrow> (\<forall>s. P s \<longrightarrow> (case run_state m s of (r, s') \<Rightarrow> Q r s'))"

lemma tripleI: "(\<And>s r s'. P s \<Longrightarrow> run_state m s = (r, s') \<Longrightarrow> Q r s') \<Longrightarrow> triple P m Q"
  by (auto simp: triple_def split: prod.splits)

lemma tripleD: "triple P m Q \<Longrightarrow> P s \<Longrightarrow> run_state m s = (r, s') \<Longrightarrow> Q r s'"
  by (auto simp: triple_def split: prod.splits)

lemma triple_return [triple_intros]: "(\<And>s. P s \<Longrightarrow> Q x s) \<Longrightarrow> triple P (State_Monad.return x) Q"
  by (auto intro: tripleI)

lemma triple_bind: "triple P m R \<Longrightarrow> (\<And>x. triple (R x) (f x) Q) \<Longrightarrow> triple P (m \<bind> f) Q"
  by (force simp: triple_def split: prod.splits)

lemma triple_conseq:
  "triple P' m Q' \<Longrightarrow> (\<And>s. P s \<Longrightarrow> P' s) \<Longrightarrow> (\<And>r s. Q' r s \<Longrightarrow> Q r s) \<Longrightarrow> triple P m Q"
  by (force simp: triple_def split: prod.splits)

lemma triple_if:
  "(b \<Longrightarrow> triple P m Q) \<Longrightarrow> (\<not> b \<Longrightarrow> triple P n Q) \<Longrightarrow> triple P (if b then m else n) Q"
  by simp

subsection \<open>Frames\<close>

definition keeps :: "('s \<Rightarrow> 'b) \<Rightarrow> ('s, 'a) state \<Rightarrow> bool" where
  "keeps f m \<longleftrightarrow> (\<forall>s. f (snd (run_state m s)) = f s)"

lemma keepsI: "(\<And>s r s'. run_state m s = (r, s') \<Longrightarrow> f s' = f s) \<Longrightarrow> keeps f m"
  by (metis keeps_def prod.collapse)

lemma keepsD: "keeps f m \<Longrightarrow> run_state m s = (r, s') \<Longrightarrow> f s' = f s"
  by (metis keeps_def snd_conv)

lemma keeps_snd [simp]: "keeps f m \<Longrightarrow> f (snd (run_state m s)) = f s"
  by (simp add: keeps_def)

lemma keeps_return [keeps_intros]: "keeps f (State_Monad.return x)"
  by (simp add: keeps_def)

lemma keeps_get [keeps_intros]: "keeps f State_Monad.get"
  by (simp add: keeps_def)

lemma keeps_bind [keeps_intros]: "keeps f m \<Longrightarrow> (\<And>x. keeps f (g x)) \<Longrightarrow> keeps f (m \<bind> g)"
  by (auto simp: keeps_def split: prod.splits) (metis snd_conv)

lemma keeps_if [keeps_intros]:
  "(b \<Longrightarrow> keeps f m) \<Longrightarrow> (\<not> b \<Longrightarrow> keeps f n) \<Longrightarrow> keeps f (if b then m else n)"
  by simp

lemma keeps_case_sum [keeps_intros]:
  "(\<And>a. x = Inl a \<Longrightarrow> keeps f (g a)) \<Longrightarrow> (\<And>b. x = Inr b \<Longrightarrow> keeps f (h b)) \<Longrightarrow>
   keeps f (case x of Inl a \<Rightarrow> g a | Inr b \<Rightarrow> h b)"
  by (cases x) auto

lemma keeps_case_option [keeps_intros]:
  "(x = None \<Longrightarrow> keeps f g) \<Longrightarrow> (\<And>b. x = Some b \<Longrightarrow> keeps f (h b)) \<Longrightarrow>
   keeps f (case x of None \<Rightarrow> g | Some b \<Rightarrow> h b)"
  by (cases x) auto

lemma keeps_case_prod [keeps_intros]:
  "(\<And>a b. x = (a, b) \<Longrightarrow> keeps f (g a b)) \<Longrightarrow> keeps f (case x of (a, b) \<Rightarrow> g a b)"
  by (cases x) auto

lemma keeps_Let [keeps_intros]: "keeps f (g x) \<Longrightarrow> keeps f (let y = x in g y)"
  by simp

lemma keeps_triple: "keeps f m \<longleftrightarrow> (\<forall>c. triple (\<lambda>s. f s = c) m (\<lambda>_ s. f s = c))"
  by (auto simp: keeps_def triple_def case_prod_beta)

subsection \<open>Preserved predicates\<close>

definition preserves :: "('s \<Rightarrow> bool) \<Rightarrow> ('s, 'a) state \<Rightarrow> bool" where
  "preserves P m \<longleftrightarrow> triple P m (\<lambda>_. P)"

named_theorems preserves_intros \<open>operations that keep an invariant\<close>

lemma preservesI: "(\<And>s. P s \<Longrightarrow> P (snd (run_state m s))) \<Longrightarrow> preserves P m"
  by (auto simp: preserves_def triple_def case_prod_beta)

lemma preservesD: "preserves P m \<Longrightarrow> P s \<Longrightarrow> P (snd (run_state m s))"
  by (auto simp: preserves_def triple_def case_prod_beta)

lemma preserves_return [preserves_intros]: "preserves P (State_Monad.return x)"
  by (simp add: preservesI)

lemma preserves_bind [preserves_intros]:
  "preserves P m \<Longrightarrow> (\<And>x. preserves P (f x)) \<Longrightarrow> preserves P (m \<bind> f)"
  unfolding preserves_def by (rule triple_bind)

lemma preserves_if [preserves_intros]:
  "(b \<Longrightarrow> preserves P m) \<Longrightarrow> (\<not> b \<Longrightarrow> preserves P n) \<Longrightarrow> preserves P (if b then m else n)"
  by simp

lemma preserves_case_sum [preserves_intros]:
  "(\<And>a. x = Inl a \<Longrightarrow> preserves P (f a)) \<Longrightarrow> (\<And>b. x = Inr b \<Longrightarrow> preserves P (g b)) \<Longrightarrow>
   preserves P (case x of Inl a \<Rightarrow> f a | Inr b \<Rightarrow> g b)"
  by (cases x) auto

lemma preserves_case_option [preserves_intros]:
  "(x = None \<Longrightarrow> preserves P f) \<Longrightarrow> (\<And>b. x = Some b \<Longrightarrow> preserves P (g b)) \<Longrightarrow>
   preserves P (case x of None \<Rightarrow> f | Some b \<Rightarrow> g b)"
  by (cases x) auto

lemma preserves_case_prod [preserves_intros]:
  "(\<And>a b. x = (a, b) \<Longrightarrow> preserves P (f a b)) \<Longrightarrow> preserves P (case x of (a, b) \<Rightarrow> f a b)"
  by (cases x) auto

lemma keeps_preserves: "keeps f m \<Longrightarrow> (\<And>s s'. f s' = f s \<Longrightarrow> P s \<Longrightarrow> P s') \<Longrightarrow> preserves P m"
  by (rule preservesI) (metis keeps_snd)

subsection \<open>Logs\<close>

definition grows :: "('s \<Rightarrow> 'b list) \<Rightarrow> ('s, 'a) state \<Rightarrow> bool" where
  "grows f m \<longleftrightarrow> (\<forall>s. \<exists>es. f (snd (run_state m s)) = f s @ es)"

lemma growsD: "grows f m \<Longrightarrow> run_state m s = (r, s') \<Longrightarrow> \<exists>es. f s' = f s @ es"
  by (metis grows_def snd_conv)

lemma keeps_imp_grows: "keeps f m \<Longrightarrow> grows f m"
  by (auto simp: keeps_def grows_def)

lemma grows_return [grows_intros]: "grows f (State_Monad.return x)"
  by (simp add: grows_def)

lemma grows_get [grows_intros]: "grows f State_Monad.get"
  by (simp add: grows_def)

lemma grows_bind [grows_intros]:
  assumes m: "grows f m" and g: "\<And>x. grows f (g x)"
  shows "grows f (m \<bind> g)"
  unfolding grows_def
proof
  fix s
  obtain r s' where r: "run_state m s = (r, s')" by fastforce
  with m obtain es where "f s' = f s @ es" by (auto dest: growsD)
  moreover obtain es' where "f (snd (run_state (g r) s')) = f s' @ es'"
    using g[of r] by (auto simp: grows_def)
  ultimately show "\<exists>es. f (snd (run_state (m \<bind> g) s)) = f s @ es"
    using r by auto
qed

lemma grows_if [grows_intros]:
  "(b \<Longrightarrow> grows f m) \<Longrightarrow> (\<not> b \<Longrightarrow> grows f n) \<Longrightarrow> grows f (if b then m else n)"
  by simp

lemma grows_case_sum [grows_intros]:
  "(\<And>a. x = Inl a \<Longrightarrow> grows f (g a)) \<Longrightarrow> (\<And>b. x = Inr b \<Longrightarrow> grows f (h b)) \<Longrightarrow>
   grows f (case x of Inl a \<Rightarrow> g a | Inr b \<Rightarrow> h b)"
  by (cases x) auto

lemma grows_case_option [grows_intros]:
  "(x = None \<Longrightarrow> grows f g) \<Longrightarrow> (\<And>b. x = Some b \<Longrightarrow> grows f (h b)) \<Longrightarrow>
   grows f (case x of None \<Rightarrow> g | Some b \<Rightarrow> h b)"
  by (cases x) auto

lemma grows_case_prod [grows_intros]:
  "(\<And>a b. x = (a, b) \<Longrightarrow> grows f (g a b)) \<Longrightarrow> grows f (case x of (a, b) \<Rightarrow> g a b)"
  by (cases x) auto

subsection \<open>State primitives\<close>

definition gets :: "('s \<Rightarrow> 'a) \<Rightarrow> ('s, 'a) state" where
  "gets f = State (\<lambda>s. (f s, s))"

definition modify :: "('s \<Rightarrow> 's) \<Rightarrow> ('s, unit) state" where
  "modify f = State (\<lambda>s. ((), f s))"

lemma run_gets [simp]: "run_state (gets f) s = (f s, s)"
  by (simp add: gets_def)

lemma run_modify [simp]: "run_state (modify f) s = ((), f s)"
  by (simp add: modify_def)

lemma keeps_gets [keeps_intros]: "keeps f (gets g)"
  by (simp add: keeps_def)

lemma keeps_modify [keeps_intros]: "(\<And>s. f (h s) = f s) \<Longrightarrow> keeps f (modify h)"
  by (simp add: keeps_def)

lemma grows_gets [grows_intros]: "grows f (gets g)"
  by (simp add: grows_def)

lemma grows_modify [grows_intros]: "(\<And>s. \<exists>es. f (h s) = f s @ es) \<Longrightarrow> grows f (modify h)"
  by (simp add: grows_def)

end
