(* ===== verification/Go_Strings.thy ===== *)
theory Go_Strings
  imports Prelude "HOL-Library.Char_ord" "HOL-Library.List_Lexorder"
begin

text \<open>
  The part of Go's \<open>strings\<close>, \<open>strconv\<close>, \<open>unicode\<close> and \<open>unicode/utf8\<close> packages the program
  calls.  A Go string is a sequence of bytes, here \<open>string\<close> (a list of \<open>char\<close>, each one
  byte); \<open>len\<close> is \<open>length\<close>, and runes appear only where the code decodes UTF-8.

  Lemma groups: \<open>Split\<close>/\<open>Join\<close> (never empty, inverse), \<open>TrimSuffix\<close>/\<open>TrimPrefix\<close>,
  \<open>Index\<close> and \<open>Replace\<close>, decimal conversion (\<open>Atoi_Itoa\<close>).
\<close>

abbreviation byte :: "char \<Rightarrow> nat" where
  "byte c \<equiv> of_char c"

subsection \<open>Errors\<close>

text \<open>
  A Go \<open>error\<close> value, as far as the program looks at it.  \<open>NumError\<close> is
  \<open>*strconv.NumError\<close>, whose text quotes the input with \<open>strconv.Quote\<close>; \<open>Errorf\<close> is
  \<open>fmt.Errorf\<close> of a format with one \<open>%s\<close>, \<open>%v\<close> or \<open>%w\<close> filled with another error.
  \<open>err_text\<close> is the method \<open>Error()\<close>; the quoting function is its argument, because its
  table of printable code points is not modelled.
\<close>

datatype goerr =
    ErrorString string
  | NumError string string string
  | Errorf string goerr string

primrec err_text :: "(string \<Rightarrow> string) \<Rightarrow> goerr \<Rightarrow> string" where
  "err_text quote (ErrorString s) = s"
| "err_text quote (NumError func num err) =
     ''strconv.'' @ func @ '': parsing '' @ quote num @ '': '' @ err"
| "err_text quote (Errorf pre e post) = pre @ err_text quote e @ post"

subsection \<open>Package strings\<close>

definition HasPrefix :: "string \<Rightarrow> string \<Rightarrow> bool" where
  "HasPrefix s p \<longleftrightarrow> length p \<le> length s \<and> take (length p) s = p"

definition HasSuffix :: "string \<Rightarrow> string \<Rightarrow> bool" where
  "HasSuffix s p \<longleftrightarrow> length p \<le> length s \<and> drop (length s - length p) s = p"

definition TrimPrefix :: "string \<Rightarrow> string \<Rightarrow> string" where
  "TrimPrefix s p = (if HasPrefix s p then drop (length p) s else s)"

definition TrimSuffix :: "string \<Rightarrow> string \<Rightarrow> string" where
  "TrimSuffix s p = (if HasSuffix s p then take (length s - length p) s else s)"

text \<open>\<open>strings.Split\<close> with a separator of one byte, as in every call of the program.\<close>

fun Split :: "string \<Rightarrow> char \<Rightarrow> string list" where
  "Split [] sep = [[]]"
| "Split (c # cs) sep =
     (if c = sep then [] # Split cs sep
      else (case Split cs sep of [] \<Rightarrow> [[c]] | w # ws \<Rightarrow> (c # w) # ws))"

fun Join :: "string list \<Rightarrow> string \<Rightarrow> string" where
  "Join [] sep = []"
| "Join [s] sep = s"
| "Join (s # t # ss) sep = s @ sep @ Join (t # ss) sep"

fun Index :: "string \<Rightarrow> string \<Rightarrow> nat option" where
  "Index s sub =
     (if HasPrefix s sub then Some 0
      else (case s of [] \<Rightarrow> None | _ # cs \<Rightarrow> map_option Suc (Index cs sub)))"

declare Index.simps [simp del]

definition Contains :: "string \<Rightarrow> string \<Rightarrow> bool" where
  "Contains s sub \<longleftrightarrow> Index s sub \<noteq> None"

text \<open>
  \<open>strings.Replace(s, old, new, n)\<close> for a non-empty \<open>old\<close> (every call of the program); a
  negative \<open>n\<close> means no limit.
\<close>

function Replace :: "string \<Rightarrow> string \<Rightarrow> string \<Rightarrow> int \<Rightarrow> string" where
  "Replace s old new n =
     (if n = 0 \<or> old = [] then s
      else (case Index s old of
              None \<Rightarrow> s
            | Some i \<Rightarrow> take i s @ new @ Replace (drop (i + length old) s) old new (n - 1)))"
  by pat_completeness auto

lemma HasPrefix_append: "HasPrefix s p \<longleftrightarrow> (\<exists>t. s = p @ t)"
  unfolding HasPrefix_def
  by (metis append_take_drop_id append_eq_conv_conj le_add1 length_append)

lemma HasPrefix_simps [simp]:
  "HasPrefix s [] = True"
  "HasPrefix [] (c # cs) = False"
  "HasPrefix (d # ds) (c # cs) = (c = d \<and> HasPrefix ds cs)"
  by (auto simp: HasPrefix_append)

lemma HasSuffix_append: "HasSuffix s p \<longleftrightarrow> (\<exists>t. s = t @ p)"
proof
  assume "HasSuffix s p"
  then have "s = take (length s - length p) s @ p"
    unfolding HasSuffix_def by (metis append_take_drop_id)
  then show "\<exists>t. s = t @ p" ..
qed (auto simp: HasSuffix_def)

lemma HasSuffix_appended [simp]: "HasSuffix (t @ p) p"
  by (auto simp: HasSuffix_append)

lemma HasPrefix_appended [simp]: "HasPrefix (p @ t) p"
  by (auto simp: HasPrefix_append)

lemma TrimSuffix_appended [simp]: "TrimSuffix (t @ p) p = t"
  by (simp add: TrimSuffix_def)

lemma TrimPrefix_appended [simp]: "TrimPrefix (p @ t) p = t"
  by (simp add: TrimPrefix_def)

lemma Index_Some_bound:
  "Index s sub = Some i \<Longrightarrow> i + length sub \<le> length s \<and> take (length sub) (drop i s) = sub"
proof (induction s arbitrary: i)
  case Nil
  then show ?case by (auto simp: Index.simps [of "[]"] HasPrefix_append split: if_splits)
next
  case (Cons c s)
  show ?case
  proof (cases "HasPrefix (c # s) sub")
    case True
    with Cons.prems show ?thesis by (simp add: Index.simps [of "c # s"] HasPrefix_def)
  next
    case False
    with Cons show ?thesis by (auto simp: Index.simps [of "c # s"])
  qed
qed

lemma Index_Some_split: "Index s sub = Some i \<Longrightarrow> s = take i s @ sub @ drop (i + length sub) s"
  using Index_Some_bound [of s sub i]
  by (metis append_take_drop_id drop_drop add.commute)

lemma Index_None_iff: "Index s sub = None \<longleftrightarrow> (\<nexists>a b. s = a @ sub @ b)"
proof (induction s)
  case Nil
  then show ?case by (auto simp: Index.simps [of "[]"] HasPrefix_append)
next
  case (Cons c s)
  show ?case
  proof (cases "HasPrefix (c # s) sub")
    case True
    then have "Index (c # s) sub = Some 0" by (simp add: Index.simps [of "c # s"])
    moreover from True obtain t where "c # s = [] @ sub @ t" by (auto simp: HasPrefix_append)
    ultimately show ?thesis by (metis option.discI)
  next
    case False
    then have "(\<exists>a b. c # s = a @ sub @ b) \<longleftrightarrow> (\<exists>a b. s = a @ sub @ b)"
      unfolding HasPrefix_append by (metis append_Cons append_Nil neq_Nil_conv list.inject)
    with False Cons show ?thesis by (simp add: Index.simps [of "c # s"])
  qed
qed

lemma Contains_iff: "Contains s sub \<longleftrightarrow> (\<exists>a b. s = a @ sub @ b)"
  by (auto simp: Contains_def Index_None_iff)

termination Replace
proof (relation "measure (\<lambda>(s, old, new, n). length s)", goal_cases)
  case 1
  show ?case by simp
next
  case (2 s old new n i)
  then have "i + length old \<le> length s" and "old \<noteq> []" by (auto dest: Index_Some_bound)
  then show ?case by (cases old) auto
qed

declare Replace.simps [simp del]

lemma Replace_absent: "Index s old = None \<Longrightarrow> Replace s old new n = s"
  by (simp add: Replace.simps [of s])

lemma Replace_step:
  "Index s old = Some i \<Longrightarrow> n \<noteq> 0 \<Longrightarrow> old \<noteq> [] \<Longrightarrow>
   Replace s old new n = take i s @ new @ Replace (drop (i + length old) s) old new (n - 1)"
  by (simp add: Replace.simps [of s])

subsection \<open>Split and Join\<close>

lemma Split_nonempty [simp]: "Split s sep \<noteq> []"
  by (induction s) (auto split: list.splits)

lemma length_Split_pos: "0 < length (Split s sep)"
  by simp

lemma Join_Split: "Join (Split s sep) [sep] = s"
proof (induction s)
  case (Cons c s)
  then show ?case by (cases "Split s sep" rule: remdups_adj.cases) auto
qed simp

lemma Split_no_sep: "sep \<notin> set s \<Longrightarrow> Split s sep = [s]"
  by (induction s) auto

lemma Split_append: "sep \<notin> set s \<Longrightarrow> Split (s @ sep # t) sep = s # Split t sep"
  by (induction s) auto

lemma Split_parts: "w \<in> set (Split s sep) \<Longrightarrow> sep \<notin> set w"
  by (induction s arbitrary: w) (auto split: if_splits list.splits)

lemma Split_Join:
  "ss \<noteq> [] \<Longrightarrow> (\<And>w. w \<in> set ss \<Longrightarrow> sep \<notin> set w) \<Longrightarrow> Split (Join ss [sep]) sep = ss"
  by (induction ss "[sep]" rule: Join.induct) (auto simp: Split_no_sep Split_append)

subsection \<open>UTF-8\<close>

text \<open>\<open>utf8.DecodeRune\<close>: the code point and its width; an invalid byte is U+FFFD of width 1.\<close>

definition RuneError :: nat where
  "RuneError = 65533"

definition cont :: "nat \<Rightarrow> nat \<Rightarrow> char list \<Rightarrow> nat \<Rightarrow> bool" where
  "cont lo hi s i \<longleftrightarrow> i < length s \<and> lo \<le> byte (s ! i) \<and> byte (s ! i) \<le> hi"

definition low6 :: "char list \<Rightarrow> nat \<Rightarrow> nat" where
  "low6 s i = byte (s ! i) mod 64"

definition decode2 :: "string \<Rightarrow> nat \<times> nat" where
  "decode2 s = (if cont 128 191 s 1 then (byte (s ! 0) mod 32 * 64 + low6 s 1, 2)
     else (RuneError, 1))"

definition decode3 :: "nat \<Rightarrow> nat \<Rightarrow> string \<Rightarrow> nat \<times> nat" where
  "decode3 lo hi s = (if cont lo hi s 1 \<and> cont 128 191 s 2
     then (byte (s ! 0) mod 16 * 4096 + low6 s 1 * 64 + low6 s 2, 3) else (RuneError, 1))"

definition decode4 :: "nat \<Rightarrow> nat \<Rightarrow> string \<Rightarrow> nat \<times> nat" where
  "decode4 lo hi s = (if cont lo hi s 1 \<and> cont 128 191 s 2 \<and> cont 128 191 s 3
     then (byte (s ! 0) mod 8 * 262144 + low6 s 1 * 4096 + low6 s 2 * 64 + low6 s 3, 4)
     else (RuneError, 1))"

definition DecodeRune :: "string \<Rightarrow> nat \<times> nat" where
  "DecodeRune s = (if s = [] then (RuneError, 0) else
     let b = byte (s ! 0)
     in if b < 128 then (b, 1)
        else if b < 194 then (RuneError, 1)
        else if b < 224 then decode2 s
        else if b = 224 then decode3 160 191 s
        else if b = 237 then decode3 128 159 s
        else if b < 240 then decode3 128 191 s
        else if b = 240 then decode4 144 191 s
        else if b < 244 then decode4 128 191 s
        else if b = 244 then decode4 128 143 s
        else (RuneError, 1))"

lemma decode_width:
  "0 < snd (decode2 s)" "0 < length s \<Longrightarrow> snd (decode2 s) \<le> length s"
  "0 < snd (decode3 lo hi s)" "0 < length s \<Longrightarrow> snd (decode3 lo hi s) \<le> length s"
  "0 < snd (decode4 lo hi s)" "0 < length s \<Longrightarrow> snd (decode4 lo hi s) \<le> length s"
  by (simp_all only: decode2_def decode3_def decode4_def cont_def snd_conv if_distrib split: if_split)
    linarith+

lemma DecodeRune_width:
  assumes "s \<noteq> []"
  shows "0 < snd (DecodeRune s) \<and> snd (DecodeRune s) \<le> length s"
proof -
  from assms have "0 < length s" by simp
  then show ?thesis
    by (simp add: DecodeRune_def Let_def decode_width Suc_le_eq)
qed

lemma DecodeRune_ascii: "byte c < 128 \<Longrightarrow> DecodeRune (c # s) = (byte c, 1)"
  by (simp add: DecodeRune_def)

text \<open>\<open>[]rune(s)\<close>, each rune with the bytes it was decoded from.\<close>

function runes :: "string \<Rightarrow> (nat \<times> string) list" where
  "runes s = (if s = [] then []
     else (case DecodeRune s of (r, w) \<Rightarrow> (r, take w s) # runes (drop w s)))"
  by pat_completeness auto
termination
proof (relation "measure length", goal_cases)
  case 1
  show ?case by simp
next
  case prems: (2 s)
  then show ?case using DecodeRune_width [of s] by (metis diff_less in_measure length_drop
    length_greater_0_conv snd_conv)
qed

declare runes.simps [simp del]

lemma runes_Nil [simp]: "runes [] = []"
  by (simp add: runes.simps)

lemma runes_ascii [simp]: "byte c < 128 \<Longrightarrow> runes (c # s) = (byte c, [c]) # runes s"
  by (simp add: runes.simps [of "c # s"] DecodeRune_ascii)

lemma concat_runes: "concat (map snd (runes s)) = s"
proof (induction s rule: runes.induct)
  case (1 s)
  then show ?case by (simp add: runes.simps [of s] split: prod.splits)
qed

lemma runes_nonempty: "(r, bs) \<in> set (runes s) \<Longrightarrow> bs \<noteq> []"
proof (induction s rule: runes.induct)
  case (1 s)
  show ?case
  proof (cases "s = []")
    case False
    obtain r' w where rw: "DecodeRune s = (r', w)" by fastforce
    with DecodeRune_width [OF False] have "take w s \<noteq> []" using False by auto
    then show ?thesis using 1 False rw by (auto simp: runes.simps [of s])
  qed (use 1 in simp)
qed

lemma length_runes_le: "length (runes s) \<le> length s"
proof (induction s rule: runes.induct)
  case (1 s)
  show ?case
  proof (cases "s = []")
    case False
    obtain r w where rw: "DecodeRune s = (r, w)" by fastforce
    with DecodeRune_width [OF False] have "0 < w" "w \<le> length s" by auto
    moreover have "length (runes (drop w s)) \<le> length (drop w s)"
      using 1 [OF False rw [symmetric]] .
    ultimately show ?thesis using False rw by (simp add: runes.simps [of s])
  qed simp
qed

lemma runes_all_ascii: "(\<And>c. c \<in> set s \<Longrightarrow> byte c < 128) \<Longrightarrow> runes s = map (\<lambda>c. (byte c, [c])) s"
  by (induction s) auto

subsection \<open>White space\<close>

definition IsSpace :: "nat \<Rightarrow> bool" where
  "IsSpace r \<longleftrightarrow> r \<in> {9, 10, 11, 12, 13, 32, 133, 160, 5760, 8232, 8233, 8239, 8287, 12288}
     \<or> 8192 \<le> r \<and> r \<le> 8202"

definition TrimSpace :: "string \<Rightarrow> string" where
  "TrimSpace s = concat (map snd (rev (dropWhile (\<lambda>x. IsSpace (fst x))
     (rev (dropWhile (\<lambda>x. IsSpace (fst x)) (runes s))))))"

fun fields_of :: "(nat \<times> string) list \<Rightarrow> string \<Rightarrow> string list" where
  "fields_of [] w = (if w = [] then [] else [w])"
| "fields_of ((r, bs) # rs) w =
     (if IsSpace r then (if w = [] then fields_of rs [] else w # fields_of rs [])
      else fields_of rs (w @ bs))"

definition Fields :: "string \<Rightarrow> string list" where
  "Fields s = fields_of (runes s) []"

text \<open>\<open>strings.Trim(s, cutset)\<close> for a cutset of one ASCII character.\<close>

definition Trim :: "string \<Rightarrow> char \<Rightarrow> string" where
  "Trim s c = rev (dropWhile ((=) c) (rev (dropWhile ((=) c) s)))"

text \<open>
  Case-insensitive comparison with an ASCII word.  Under Unicode simple folding
  (\<open>strings.EqualFold\<close>) the only non-ASCII members of an ASCII letter's class are U+017F
  for s and U+212A for k; under \<open>strings.ToLower\<close> the only non-ASCII code points that map
  to an ASCII letter are U+0130 (to i) and U+212A (to k).  So folding the left argument
  with these two functions decides the comparisons the program makes, all of which have an
  ASCII constant on the right.
\<close>

definition fold_rune :: "nat \<Rightarrow> nat" where
  "fold_rune r = (if 65 \<le> r \<and> r \<le> 90 then r + 32 else if r = 383 then 115
     else if r = 8490 then 107 else r)"

definition lower_rune :: "nat \<Rightarrow> nat" where
  "lower_rune r = (if 65 \<le> r \<and> r \<le> 90 then r + 32 else if r = 304 then 105
     else if r = 8490 then 107 else r)"

definition EqualFold :: "string \<Rightarrow> string \<Rightarrow> bool" where
  "EqualFold s t \<longleftrightarrow> map (fold_rune \<circ> fst) (runes s) = map (fold_rune \<circ> fst) (runes t)"

definition ToLower_is :: "string \<Rightarrow> string \<Rightarrow> bool" where
  "ToLower_is s t \<longleftrightarrow> map (lower_rune \<circ> fst) (runes s) = map fst (runes t)"

subsection \<open>Package strconv\<close>

definition is_digit :: "char \<Rightarrow> bool" where
  "is_digit c \<longleftrightarrow> 48 \<le> byte c \<and> byte c \<le> 57"

definition digit_char :: "nat \<Rightarrow> char" where
  "digit_char d = ''0123456789'' ! d"

fun itoa_nat :: "nat \<Rightarrow> string" where
  "itoa_nat n = (if n < 10 then [digit_char n] else itoa_nat (n div 10) @ [digit_char (n mod 10)])"

declare itoa_nat.simps [simp del]

definition Itoa :: "int \<Rightarrow> string" where
  "Itoa i = (if i < 0 then CHR ''-'' # itoa_nat (nat (- i)) else itoa_nat (nat i))"

definition digits_value :: "string \<Rightarrow> nat" where
  "digits_value s = foldl (\<lambda>n c. 10 * n + (byte c - 48)) 0 s"

definition ErrSyntax :: string where "ErrSyntax = ''invalid syntax''"
definition ErrRange :: string where "ErrRange = ''value out of range''"

definition int_min :: int where "int_min = - (2 ^ 63)"
definition int_max :: int where "int_max = 2 ^ 63 - 1"

text \<open>
  \<open>strconv.ParseInt(s, 10, 64)\<close>, under the name \<open>fn\<close> its error carries (\<open>Atoi\<close> has its own):
  an optional sign, then digits only; out of the 64-bit range is a range error.
\<close>

definition parse_int :: "string \<Rightarrow> string \<Rightarrow> goerr + int" where
  "parse_int fn s =
     (let neg = HasPrefix s ''-'';
          ds = (if neg \<or> HasPrefix s ''+'' then tl s else s)
      in if ds = [] \<or> \<not> list_all is_digit ds then Inl (NumError fn s ErrSyntax)
         else let v = int (digits_value ds); i = (if neg then - v else v)
              in if int_min \<le> i \<and> i \<le> int_max then Inr i else Inl (NumError fn s ErrRange))"

definition Atoi :: "string \<Rightarrow> goerr + int" where
  "Atoi s = parse_int ''Atoi'' s"

definition ParseInt :: "string \<Rightarrow> goerr + int" where
  "ParseInt s = parse_int ''ParseInt'' s"

lemma byte_digit_char [simp]: "d < 10 \<Longrightarrow> byte (digit_char d) = 48 + d"
proof -
  assume "d < 10"
  then have "d \<in> {0, 1, 2, 3, 4, 5, 6, 7, 8, 9}" by auto
  then show ?thesis by (auto simp: digit_char_def)
qed

lemma is_digit_digit_char [simp]: "d < 10 \<Longrightarrow> is_digit (digit_char d)"
  by (simp add: is_digit_def)

lemma itoa_nat_nonempty [simp]: "itoa_nat n \<noteq> []"
  by (simp add: itoa_nat.simps)

lemma itoa_nat_digits: "list_all is_digit (itoa_nat n)"
proof (induction n rule: itoa_nat.induct)
  case (1 n)
  then show ?case by (simp add: itoa_nat.simps [of n])
qed

lemma digits_value_itoa_nat [simp]: "digits_value (itoa_nat n) = n"
proof (induction n rule: itoa_nat.induct)
  case (1 n)
  then show ?case by (auto simp: itoa_nat.simps [of n] digits_value_def)
qed

lemma hd_itoa_nat_digit: "is_digit (hd (itoa_nat n))"
  using itoa_nat_digits [of n] by (metis hd_in_set itoa_nat_nonempty list_all_iff)

lemma itoa_nat_no_sign: "c \<noteq> d \<Longrightarrow> \<not> is_digit c \<Longrightarrow> \<not> HasPrefix (itoa_nat n) (c # cs)"
  using hd_itoa_nat_digit [of n] by (cases "itoa_nat n") auto

lemma parse_int_Itoa: "int_min \<le> i \<Longrightarrow> i \<le> int_max \<Longrightarrow> parse_int fn (Itoa i) = Inr i"
proof (cases "i < 0")
  case True
  assume "int_min \<le> i" "i \<le> int_max"
  with True show ?thesis by (simp add: parse_int_def Itoa_def itoa_nat_digits)
next
  case False
  assume "int_min \<le> i" "i \<le> int_max"
  moreover have "\<not> HasPrefix (itoa_nat (nat i)) ''-''" "\<not> HasPrefix (itoa_nat (nat i)) ''+''"
    using hd_itoa_nat_digit [of "nat i"] by (cases "itoa_nat (nat i)"; auto simp: is_digit_def)+
  ultimately show ?thesis using False
    by (simp add: parse_int_def Itoa_def itoa_nat_digits)
qed

lemma Atoi_Itoa: "int_min \<le> i \<Longrightarrow> i \<le> int_max \<Longrightarrow> Atoi (Itoa i) = Inr i"
  by (simp add: Atoi_def parse_int_Itoa)

lemma ParseInt_Itoa: "int_min \<le> i \<Longrightarrow> i \<le> int_max \<Longrightarrow> ParseInt (Itoa i) = Inr i"
  by (simp add: ParseInt_def parse_int_Itoa)

lemma parse_int_range: "parse_int fn s = Inr i \<Longrightarrow> int_min \<le> i \<and> i \<le> int_max"
  by (auto simp: parse_int_def Let_def split: if_splits)

lemma Itoa_nat_chars: "c \<in> set (Itoa (int n)) \<Longrightarrow> is_digit c"
  using itoa_nat_digits [of n] by (simp add: Itoa_def list_all_iff)

subsection \<open>Package bufio\<close>

text \<open>
  \<open>bufio.Scanner\<close> with the line splitter and its default buffer of 64 KiB: the lines of a file, and
  whether the scan ended without an error.  A line must end within the buffer; a carriage
  return before the end of the line is dropped.
\<close>

definition newline_char :: char where "newline_char = CHR 0x0A"

definition drop_cr :: "string \<Rightarrow> string" where
  "drop_cr l = (if l \<noteq> [] \<and> last l = CHR 0x0D then butlast l else l)"

definition max_scan_token :: nat where "max_scan_token = 64 * 1024"

function scan_lines :: "string \<Rightarrow> string list \<times> bool" where
  "scan_lines s = (let l = takeWhile (\<lambda>c. c \<noteq> newline_char) s in
     if s = [] then ([], True)
     else if max_scan_token \<le> length l then ([], False)
     else (case scan_lines (drop (length l + 1) s) of (ls, ok) \<Rightarrow> (drop_cr l # ls, ok)))"
  by pat_completeness auto
termination
  by (relation "measure length") simp_all

declare scan_lines.simps [simp del]

lemma takeWhile_line:
  "newline_char \<notin> set l \<Longrightarrow> takeWhile (\<lambda>c. c \<noteq> newline_char) (l @ newline_char # s) = l"
  by (induction l) auto

lemma takeWhile_no_line: "newline_char \<notin> set l \<Longrightarrow> takeWhile (\<lambda>c. c \<noteq> newline_char) l = l"
  by (induction l) auto

text \<open>A stream of lines, followed by an unfinished one.\<close>

definition stream :: "string list \<Rightarrow> string \<Rightarrow> string" where
  "stream ls rest = concat (map (\<lambda>l. l @ [newline_char]) ls) @ rest"

lemma scan_lines_line:
  assumes "newline_char \<notin> set l" "length l < max_scan_token"
  shows "scan_lines (l @ newline_char # s) = (drop_cr l # fst (scan_lines s), snd (scan_lines s))"
  using assms by (simp add: scan_lines.simps [of "l @ newline_char # s"] takeWhile_line Let_def case_prod_beta)

lemma scan_lines_stream:
  assumes "\<And>l. l \<in> set ls \<Longrightarrow> newline_char \<notin> set l \<and> length l < max_scan_token"
  shows "scan_lines (stream ls []) = (map drop_cr ls, True)"
  using assms
proof (induction ls)
  case Nil
  then show ?case by (simp add: stream_def scan_lines.simps)
next
  case (Cons l ls)
  have "stream (l # ls) [] = l @ newline_char # stream ls []" by (simp add: stream_def)
  with Cons show ?case by (simp add: scan_lines_line)
qed

end
