(* ===== verification/Go_JSON.thy ===== *)
theory Go_JSON
  imports Go_Strings
begin

text \<open>
  Go's \<open>encoding/json\<close> (Go 1.13), as far as the program uses it: the text of a value
  (\<open>json.Marshal\<close>, with HTML escaping) and the parser behind \<open>json.Unmarshal\<close>.  Numbers keep
  their literal.  The parser takes fuel; \<open>json_parse\<close> gives \<open>2 * length s + 2\<close>: every nested value
  or further element consumes at least one byte and spends at most two units
  (\<open>json_cost_le\<close> for the texts the program itself writes).

  Main result: \<open>json_parse_text\<close>, parsing the text of a number-free value gives the value
  back, with invalid UTF-8 replaced by U+FFFD (\<open>sanitize\<close>), as Go documents.
\<close>

datatype json =
    JNull
  | JBool bool
  | JNumber string
  | JString string
  | JArray "json list"
  | JObject "(string \<times> json) list"

subsection \<open>Strings\<close>

definition hex_digit :: "nat \<Rightarrow> char" where
  "hex_digit d = ''0123456789abcdef'' ! d"

definition quote_char :: char where "quote_char = CHR 0x22"
definition backslash :: char where "backslash = CHR 0x5C"

definition replacement :: string where
  "replacement = [CHR 0xEF, CHR 0xBF, CHR 0xBD]"

text \<open>One decoded rune in a JSON string literal (\<open>encodeState.string\<close> with \<open>escapeHTML\<close>).\<close>

definition enc_rune :: "nat \<times> string \<Rightarrow> string" where
  "enc_rune x = (case x of (r, bs) \<Rightarrow>
     if r = RuneError \<and> length bs = 1 then backslash # ''ufffd''
     else if r = 8232 \<or> r = 8233 then backslash # ''u202'' @ [hex_digit (r mod 16)]
     else if 128 \<le> r then bs
     else if r = 34 \<or> r = 92 then [backslash, hd bs]
     else if r = 10 then [backslash, CHR ''n'']
     else if r = 13 then [backslash, CHR ''r'']
     else if r = 9 then [backslash, CHR ''t'']
     else if r < 32 \<or> r = 60 \<or> r = 62 \<or> r = 38
       then backslash # ''u00'' @ [hex_digit (r div 16), hex_digit (r mod 16)]
     else bs)"

definition enc_string :: "string \<Rightarrow> string" where
  "enc_string s = quote_char # concat (map enc_rune (runes s)) @ [quote_char]"

definition sanitize :: "string \<Rightarrow> string" where
  "sanitize s = concat (map (\<lambda>(r, bs). if r = RuneError \<and> length bs = 1 then replacement else bs)
     (runes s))"

text \<open>\<open>utf8.EncodeRune\<close> for the code points a \<open>\u\<close> escape can name.\<close>

definition EncodeRune :: "nat \<Rightarrow> string" where
  "EncodeRune r =
     (if r < 128 then [char_of r]
      else if r < 2048 then [char_of (192 + r div 64), char_of (128 + r mod 64)]
      else if (55296 \<le> r \<and> r < 57344) \<or> 1114111 < r then replacement
      else if r < 65536 then
        [char_of (224 + r div 4096), char_of (128 + r div 64 mod 64), char_of (128 + r mod 64)]
      else [char_of (240 + r div 262144), char_of (128 + r div 4096 mod 64),
            char_of (128 + r div 64 mod 64), char_of (128 + r mod 64)])"

definition hex_value :: "char \<Rightarrow> nat option" where
  "hex_value c = (let b = byte c in
     if 48 \<le> b \<and> b \<le> 57 then Some (b - 48)
     else if 97 \<le> b \<and> b \<le> 102 then Some (b - 87)
     else if 65 \<le> b \<and> b \<le> 70 then Some (b - 55)
     else None)"

fun hex4 :: "string \<Rightarrow> (nat \<times> string) option" where
  "hex4 (a # b # c # d # rest) =
     (case (hex_value a, hex_value b, hex_value c, hex_value d) of
        (Some w, Some x, Some y, Some z) \<Rightarrow> Some (4096 * w + 256 * x + 16 * y + z, rest)
      | _ \<Rightarrow> None)"
| "hex4 _ = None"

definition surrogate :: "nat \<Rightarrow> bool" where
  "surrogate r \<longleftrightarrow> 55296 \<le> r \<and> r < 57344"

text \<open>
  The character after \<open>\u\<close> and its four digits: a high surrogate followed by an escaped low
  one is one code point, any other surrogate is U+FFFD (\<open>unquoteBytes\<close>).
\<close>

definition unescape_u :: "string \<Rightarrow> (string \<times> string) option" where
  "unescape_u s = (case hex4 s of
     None \<Rightarrow> None
   | Some (r, rest) \<Rightarrow>
       if surrogate r then
         (case rest of
            b # u # rest' \<Rightarrow>
              if b = backslash \<and> u = CHR ''u'' then
                (case hex4 rest' of
                   Some (r2, rest'') \<Rightarrow>
                     if r < 56320 \<and> 56320 \<le> r2 \<and> r2 < 57344
                     then Some (EncodeRune (65536 + (r - 55296) * 1024 + (r2 - 56320)), rest'')
                     else Some (replacement, rest)
                 | None \<Rightarrow> Some (replacement, rest))
              else Some (replacement, rest)
          | _ \<Rightarrow> Some (replacement, rest))
       else Some (EncodeRune r, rest))"

definition unescape :: "string \<Rightarrow> (string \<times> string) option" where
  "unescape s = (case s of
     [] \<Rightarrow> None
   | e # rest \<Rightarrow>
       if e = quote_char \<or> e = backslash \<or> e = CHR ''/'' then Some ([e], rest)
       else if e = CHR ''b'' then Some ([CHR 0x08], rest)
       else if e = CHR ''f'' then Some ([CHR 0x0C], rest)
       else if e = CHR ''n'' then Some ([CHR 0x0A], rest)
       else if e = CHR ''r'' then Some ([CHR 0x0D], rest)
       else if e = CHR ''t'' then Some ([CHR 0x09], rest)
       else if e = CHR ''u'' then unescape_u rest
       else None)"

text \<open>One character of a string literal; \<open>None\<close> where the scanner reports a syntax error.\<close>

definition str_char :: "string \<Rightarrow> (string \<times> string) option" where
  "str_char s = (case s of
     [] \<Rightarrow> None
   | c # cs \<Rightarrow>
       if byte c < 32 then None
       else if c = backslash then unescape cs
       else (case DecodeRune s of (r, w) \<Rightarrow>
         Some (if r = RuneError \<and> w = 1 then replacement else take w s, drop w s)))"

fun parse_str :: "nat \<Rightarrow> string \<Rightarrow> (string \<times> string) option" where
  "parse_str 0 s = None"
| "parse_str (Suc n) s =
     (if s \<noteq> [] \<and> hd s = quote_char then Some ([], tl s)
      else (case str_char s of
              None \<Rightarrow> None
            | Some (x, rest) \<Rightarrow>
                map_option (\<lambda>(y, rest'). (x @ y, rest')) (parse_str n rest)))"

subsection \<open>Values\<close>

primrec json_text :: "json \<Rightarrow> string" where
  "json_text JNull = ''null''"
| "json_text (JBool b) = (if b then ''true'' else ''false'')"
| "json_text (JNumber s) = s"
| "json_text (JString s) = enc_string s"
| "json_text (JArray vs) = ''['' @ Join (map json_text vs) '','' @ '']''"
| "json_text (JObject ms) =
     ''{'' @ Join (map (\<lambda>(k, t). enc_string k @ '':'' @ t) (map (map_prod id json_text) ms)) '','' @ ''}''"

definition json_ws :: "char \<Rightarrow> bool" where
  "json_ws c \<longleftrightarrow> c = CHR '' '' \<or> c = CHR 0x09 \<or> c = CHR 0x0A \<or> c = CHR 0x0D"

definition skip_ws :: "string \<Rightarrow> string" where
  "skip_ws s = dropWhile json_ws s"

definition digits1 :: "string \<Rightarrow> (string \<times> string) option" where
  "digits1 s = (let ds = takeWhile is_digit s in
     if ds = [] then None else Some (ds, dropWhile is_digit s))"

text \<open>The number grammar of RFC 8259: sign, integer part without leading zero, fraction, exponent.\<close>

definition num_int :: "string \<Rightarrow> (string \<times> string) option" where
  "num_int s = (case s of
     [] \<Rightarrow> None
   | c # cs \<Rightarrow> if c = CHR ''0'' then Some ([c], cs) else digits1 s)"

definition num_frac :: "string \<Rightarrow> (string \<times> string) option" where
  "num_frac s = (if HasPrefix s ''.''
     then map_option (map_prod ((@) ''.'') id) (digits1 (tl s)) else Some ([], s))"

definition num_exp :: "string \<Rightarrow> (string \<times> string) option" where
  "num_exp s = (if HasPrefix s ''e'' \<or> HasPrefix s ''E'' then
       (let sg = (if HasPrefix (tl s) ''+'' \<or> HasPrefix (tl s) ''-'' then take 1 (tl s) else [])
        in map_option (map_prod ((@) (hd s # sg)) id) (digits1 (drop (length sg) (tl s))))
     else Some ([], s))"

definition parse_num :: "string \<Rightarrow> (string \<times> string) option" where
  "parse_num s = (let sg = (if HasPrefix s ''-'' then ''-'' else []) in
     do { (i, s1) \<leftarrow> num_int (drop (length sg) s);
          (f, s2) \<leftarrow> num_frac s1;
          (e, s3) \<leftarrow> num_exp s2;
          Some (sg @ i @ f @ e, s3) })"

fun parse_value :: "nat \<Rightarrow> string \<Rightarrow> (json \<times> string) option"
  and parse_elems :: "nat \<Rightarrow> string \<Rightarrow> (json list \<times> string) option"
  and parse_members :: "nat \<Rightarrow> string \<Rightarrow> ((string \<times> json) list \<times> string) option"
where
  "parse_value 0 s = None"
| "parse_value (Suc n) s =
     (if HasPrefix s ''null'' then Some (JNull, drop 4 s)
      else if HasPrefix s ''true'' then Some (JBool True, drop 4 s)
      else if HasPrefix s ''false'' then Some (JBool False, drop 5 s)
      else if HasPrefix s [quote_char] then
        map_option (map_prod JString id) (parse_str (Suc (length s)) (tl s))
      else if HasPrefix s ''['' then
        (let s1 = skip_ws (tl s) in
         if HasPrefix s1 '']'' then Some (JArray [], tl s1)
         else map_option (map_prod JArray id) (parse_elems n s1))
      else if HasPrefix s ''{'' then
        (let s1 = skip_ws (tl s) in
         if HasPrefix s1 ''}'' then Some (JObject [], tl s1)
         else map_option (map_prod JObject id) (parse_members n s1))
      else map_option (map_prod JNumber id) (parse_num s))"
| "parse_elems 0 s = None"
| "parse_elems (Suc n) s =
     (case parse_value n s of
        None \<Rightarrow> None
      | Some (v, s1) \<Rightarrow>
          (let s2 = skip_ws s1 in
           if HasPrefix s2 '']'' then Some ([v], tl s2)
           else if HasPrefix s2 '','' then
             map_option (map_prod ((#) v) id) (parse_elems n (skip_ws (tl s2)))
           else None))"
| "parse_members 0 s = None"
| "parse_members (Suc n) s =
     (if \<not> HasPrefix s [quote_char] then None
      else (case parse_str (Suc (length s)) (tl s) of
        None \<Rightarrow> None
      | Some (k, s1) \<Rightarrow>
          (let s2 = skip_ws s1 in
           if \<not> HasPrefix s2 '':'' then None
           else (case parse_value n (skip_ws (tl s2)) of
             None \<Rightarrow> None
           | Some (v, s3) \<Rightarrow>
               (let s4 = skip_ws s3 in
                if HasPrefix s4 ''}'' then Some ([(k, v)], tl s4)
                else if HasPrefix s4 '','' then
                  map_option (map_prod ((#) (k, v)) id) (parse_members n (skip_ws (tl s4)))
                else None)))))"

definition json_parse :: "string \<Rightarrow> json option" where
  "json_parse s = (case parse_value (2 * length s + 2) (skip_ws s) of
     None \<Rightarrow> None
   | Some (v, rest) \<Rightarrow> if skip_ws rest = [] then Some v else None)"

subsection \<open>Round trip of strings\<close>

definition bad_rune :: "nat \<times> string \<Rightarrow> bool" where
  "bad_rune x \<longleftrightarrow> fst x = RuneError \<and> length (snd x) = 1"

definition san_rune :: "nat \<times> string \<Rightarrow> string" where
  "san_rune x = (if bad_rune x then replacement else snd x)"

text \<open>A rune as \<open>runes\<close> yields it: bad, or decoding to itself whatever follows.\<close>

definition rune_ok :: "nat \<times> string \<Rightarrow> bool" where
  "rune_ok x \<longleftrightarrow> snd x \<noteq> [] \<and>
     (bad_rune x \<or> (\<forall>t. DecodeRune (snd x @ t) = (fst x, length (snd x))))"

lemma cont_take: "i < w \<Longrightarrow> w \<le> length s \<Longrightarrow> cont lo hi (take w s @ t) i = cont lo hi s i"
  by (simp add: cont_def nth_append)

lemma low6_take: "i < w \<Longrightarrow> w \<le> length s \<Longrightarrow> low6 (take w s @ t) i = low6 s i"
  by (simp add: low6_def nth_append)

lemma nth_take_append: "i < w \<Longrightarrow> w \<le> length s \<Longrightarrow> (take w s @ t) ! i = s ! i"
  by (simp add: nth_append)

lemma decode2_take: "decode2 s = (r, w) \<Longrightarrow> w \<noteq> 1 \<Longrightarrow> decode2 (take w s @ t) = (r, w) \<and> (take w s @ t) ! 0 = s ! 0 \<and> w \<le> length s"
  using cont_take [of 1 2 s 128 191 t] low6_take [of 1 2 s t] nth_take_append [of 0 2 s t]
  by (auto simp: decode2_def cont_def [of _ _ s] split: if_splits)

lemma decode3_take: "decode3 lo hi s = (r, w) \<Longrightarrow> w \<noteq> 1 \<Longrightarrow> decode3 lo hi (take w s @ t) = (r, w) \<and> (take w s @ t) ! 0 = s ! 0 \<and> w \<le> length s"
  using cont_take [of 1 3 s _ _ t] cont_take [of 2 3 s _ _ t] low6_take [of 1 3 s t] low6_take [of 2 3 s t]
    nth_take_append [of 0 3 s t]
  by (auto simp: decode3_def cont_def [of _ _ s] split: if_splits)

lemma decode4_take: "decode4 lo hi s = (r, w) \<Longrightarrow> w \<noteq> 1 \<Longrightarrow> decode4 lo hi (take w s @ t) = (r, w) \<and> (take w s @ t) ! 0 = s ! 0 \<and> w \<le> length s"
  using cont_take [of 1 4 s _ _ t] cont_take [of 2 4 s _ _ t] cont_take [of 3 4 s _ _ t]
    low6_take [of 1 4 s t] low6_take [of 2 4 s t] low6_take [of 3 4 s t] nth_take_append [of 0 4 s t]
  by (auto simp: decode4_def cont_def [of _ _ s] split: if_splits)

lemmas decode_takes = decode2_take decode3_take decode4_take

lemma decode_one:
  "decode2 s = (r, Suc 0) \<Longrightarrow> r = RuneError" "decode3 lo hi s = (r, Suc 0) \<Longrightarrow> r = RuneError"
  "decode4 lo hi s = (r, Suc 0) \<Longrightarrow> r = RuneError"
  by (auto simp: decode2_def decode3_def decode4_def split: if_splits)

lemma DecodeRune_take:
  assumes "DecodeRune s = (r, w)" "s \<noteq> []" "\<not> (r = RuneError \<and> w = 1)"
  shows "DecodeRune (take w s @ t) = (r, w)"
proof (cases "byte (s ! 0) < 128")
  case True
  with assms show ?thesis
    by (cases s) (auto simp: DecodeRune_def Let_def)
next
  case False
  with assms have w: "w \<noteq> 1"
    by (auto simp: DecodeRune_def Let_def split: if_splits dest: decode_one)
  with assms have "w \<noteq> 0" using DecodeRune_width [of s] by auto
  have n0: "(take w s @ t) ! 0 = s ! 0" "take w s @ t \<noteq> []"
    using \<open>w \<noteq> 0\<close> assms(2) by (auto simp: nth_append)
  have d2: "decode2 s = (r, w) \<Longrightarrow> decode2 (take w s @ t) = (r, w)"
    and d3: "\<And>lo hi. decode3 lo hi s = (r, w) \<Longrightarrow> decode3 lo hi (take w s @ t) = (r, w)"
    and d4: "\<And>lo hi. decode4 lo hi s = (r, w) \<Longrightarrow> decode4 lo hi (take w s @ t) = (r, w)"
    using w by (simp_all add: decode2_take decode3_take decode4_take)
  have "\<not> byte (s ! 0) < 194" "byte (s ! 0) \<le> 244"
    using assms w by (auto simp: DecodeRune_def Let_def split: if_splits)
  with False n0 assms(1,2) show ?thesis
    by (simp add: DecodeRune_def Let_def d2 d3 d4 del: append_is_Nil_conv split: if_splits)
qed

lemma rune_ok_runes: "x \<in> set (runes s) \<Longrightarrow> rune_ok x"
proof (induction s rule: runes.induct)
  case (1 s)
  show ?case
  proof (cases "s = []")
    case False
    obtain r w where rw: "DecodeRune s = (r, w)" by fastforce
    with False DecodeRune_width [of s] have w: "0 < w" "w \<le> length s" by auto
    have "rune_ok (r, take w s)"
      using w False DecodeRune_take [OF rw False] by (auto simp: rune_ok_def bad_rune_def)
    with 1 False rw show ?thesis by (auto simp: runes.simps [of s])
  qed (use 1 in simp)
qed

lemma mod_offset: "k * m \<le> (x::nat) \<Longrightarrow> x < k * m + m \<Longrightarrow> x = k * m + x mod m"
  by (metis add.commute le_add_diff_inverse mod_less mod_mult_self4 mult.commute nat_add_left_cancel_less)

lemma decode2_ge: "decode2 s = (r, w) \<Longrightarrow> 194 \<le> byte (s ! 0) \<Longrightarrow> byte (s ! 0) < 224 \<Longrightarrow> 128 \<le> r"
proof -
  assume *: "decode2 s = (r, w)" "194 \<le> byte (s ! 0)" "byte (s ! 0) < 224"
  then have "2 \<le> byte (s ! 0) mod 32" using mod_offset [of 6 32 "byte (s ! 0)"] by simp
  with * show ?thesis by (auto simp: decode2_def RuneError_def split: if_splits)
qed

lemma decode3_ge:
  "decode3 lo hi s = (r, w) \<Longrightarrow> (160 \<le> lo \<and> hi = 191) \<or> 1 \<le> byte (s ! 0) mod 16 \<Longrightarrow> 2048 \<le> r"
proof -
  assume *: "decode3 lo hi s = (r, w)" "(160 \<le> lo \<and> hi = 191) \<or> 1 \<le> byte (s ! 0) mod 16"
  have "160 \<le> n \<Longrightarrow> n \<le> 191 \<Longrightarrow> 32 \<le> n mod (64::nat)" for n using mod_offset [of 2 64 n] by simp
  from this [of "byte (s ! 1)"] * show ?thesis
    by (auto simp: decode3_def RuneError_def cont_def low6_def split: if_splits)
qed

lemma decode4_ge:
  "decode4 lo hi s = (r, w) \<Longrightarrow> (144 \<le> lo \<and> hi = 191) \<or> 1 \<le> byte (s ! 0) mod 8 \<Longrightarrow>
   r = RuneError \<or> 65536 \<le> r"
proof -
  assume *: "decode4 lo hi s = (r, w)" "(144 \<le> lo \<and> hi = 191) \<or> 1 \<le> byte (s ! 0) mod 8"
  have "144 \<le> n \<Longrightarrow> n \<le> 191 \<Longrightarrow> 16 \<le> n mod (64::nat)" for n using mod_offset [of 2 64 n] by simp
  from this [of "byte (s ! 1)"] * show ?thesis
    by (auto simp: decode4_def cont_def low6_def split: if_splits)
qed

lemma DecodeRune_cases:
  assumes d: "DecodeRune s = (r, w)" and ne: "s \<noteq> []"
  obtains (ascii) "byte (s ! 0) < 128" "r = byte (s ! 0)" "w = 1"
  | (bad) "128 \<le> byte (s ! 0)" "r = RuneError"
  | (two) "194 \<le> byte (s ! 0)" "byte (s ! 0) < 224" "decode2 s = (r, w)"
  | (three) lo hi where "decode3 lo hi s = (r, w)" "128 \<le> lo" "hi \<le> 191" "224 \<le> byte (s ! 0)"
      "byte (s ! 0) < 240" "(160 \<le> lo \<and> hi = 191) \<or> 1 \<le> byte (s ! 0) mod 16"
  | (four) lo hi where "decode4 lo hi s = (r, w)" "240 \<le> byte (s ! 0)" "byte (s ! 0) \<le> 244"
      "(144 \<le> lo \<and> hi = 191) \<or> 1 \<le> byte (s ! 0) mod 8"
proof -
  let ?b = "byte (s ! 0)"
  have m16: "224 < ?b \<Longrightarrow> ?b < 240 \<Longrightarrow> 1 \<le> ?b mod 16" using mod_offset [of 14 16 ?b] by simp
  have m8: "240 < ?b \<Longrightarrow> ?b \<le> 244 \<Longrightarrow> 1 \<le> ?b mod 8" using mod_offset [of 30 8 ?b] by simp
  consider "?b < 128" | "128 \<le> ?b \<and> ?b < 194" | "194 \<le> ?b \<and> ?b < 224" | "?b = 224" | "?b = 237"
    | "224 < ?b \<and> ?b < 240 \<and> ?b \<noteq> 237" | "?b = 240" | "240 < ?b \<and> ?b < 244" | "?b = 244" | "244 < ?b"
    by linarith
  then show thesis
  proof cases
    case 1 with d ne show ?thesis by (intro ascii) (auto simp: DecodeRune_def)
  next
    case 2 with d ne show ?thesis by (intro bad) (auto simp: DecodeRune_def)
  next
    case 3 with d ne show ?thesis by (intro two) (auto simp: DecodeRune_def)
  next
    case 4 with d ne show ?thesis by (intro three [of 160 191]) (auto simp: DecodeRune_def)
  next
    case 5 with d ne m16 show ?thesis by (intro three [of 128 159]) (auto simp: DecodeRune_def)
  next
    case 6 with d ne m16 show ?thesis by (intro three [of 128 191]) (auto simp: DecodeRune_def)
  next
    case 7 with d ne show ?thesis by (intro four [of 144 191]) (auto simp: DecodeRune_def)
  next
    case 8 with d ne m8 show ?thesis by (intro four [of 128 191]) (auto simp: DecodeRune_def)
  next
    case 9 with d ne m8 show ?thesis by (intro four [of 128 143]) (auto simp: DecodeRune_def)
  next
    case 10 with d ne show ?thesis by (intro bad) (auto simp: DecodeRune_def)
  qed
qed

lemma DecodeRune_ge: "DecodeRune s = (r, w) \<Longrightarrow> s \<noteq> [] \<Longrightarrow> 128 \<le> byte (s ! 0) \<Longrightarrow> 128 \<le> r"
  by (erule (1) DecodeRune_cases)
    (auto simp: RuneError_def dest: decode2_ge decode3_ge decode4_ge)

lemma rune_ok_small:
  assumes "rune_ok (r, bs)" "r < 128"
  shows "\<exists>c. bs = [c] \<and> byte c = r"
proof -
  from assms have ne: "bs \<noteq> []" and "\<forall>t. DecodeRune (bs @ t) = (r, length bs)"
    unfolding rune_ok_def bad_rune_def RuneError_def by auto
  then have d: "DecodeRune (bs @ []) = (r, length bs)" by blast
  from ne obtain c cs where bs: "bs = c # cs" by (cases bs) auto
  have "byte c < 128"
  proof (rule ccontr)
    assume "\<not> byte c < 128"
    then have "128 \<le> r" using DecodeRune_ge [OF d] bs by simp
    with assms(2) show False by simp
  qed
  with d bs show ?thesis by (simp add: DecodeRune_ascii)
qed

lemma rune_ok_large:
  assumes "rune_ok (r, bs)" "128 \<le> r" "\<not> bad_rune (r, bs)"
  shows "128 \<le> byte (hd bs)" "DecodeRune (bs @ t) = (r, length bs)"
proof -
  from assms show d: "DecodeRune (bs @ t) = (r, length bs)" for t by (auto simp: rune_ok_def)
  from assms have "bs \<noteq> []" by (auto simp: rune_ok_def)
  with d [of "[]"] assms(2) show "128 \<le> byte (hd bs)"
    by (cases bs; cases "byte (hd bs) < 128") (auto simp: DecodeRune_ascii)
qed

lemma byte_eq_iff: "byte c = byte d \<longleftrightarrow> c = d"
  by (rule of_char_eq_iff)

lemma decode2_lt: "decode2 s = (r, w) \<Longrightarrow> r = RuneError \<or> r < 2048"
proof -
  have "byte (s ! 0) mod 32 < 32" "low6 s 1 < 64" by (simp_all add: low6_def)
  then have "byte (s ! 0) mod 32 * 64 + low6 s 1 < 2048" by linarith
  then show "decode2 s = (r, w) \<Longrightarrow> ?thesis" by (auto simp: decode2_def split: if_splits)
qed

lemma DecodeRune_three:
  assumes d: "DecodeRune s = (r, w)" "s \<noteq> []" and r: "2048 \<le> r" "r < 65536" "r \<noteq> RuneError"
  shows "w = 3 \<and> 224 \<le> byte (s ! 0) \<and> byte (s ! 0) < 240 \<and> cont 128 191 s 1 \<and> cont 128 191 s 2 \<and>
    r = byte (s ! 0) mod 16 * 4096 + low6 s 1 * 64 + low6 s 2"
proof -
  show ?thesis using d
  proof (cases rule: DecodeRune_cases)
    case (three lo hi)
    then show ?thesis using r by (auto simp: decode3_def cont_def split: if_splits)
  next
    case two
    with r decode2_lt show ?thesis by fastforce
  next
    case (four lo hi)
    with r decode4_ge [of lo hi s r w] show ?thesis by simp
  qed (use r in auto)
qed

lemma line_separators:
  assumes "rune_ok (r, bs)" "r = 8232 \<or> r = 8233"
  shows "bs = EncodeRune r"
proof -
  from assms(2) have r: "2048 \<le> r" "r < 65536" "r \<noteq> RuneError" by (auto simp: RuneError_def)
  then have "\<not> bad_rune (r, bs)" by (simp add: bad_rune_def)
  with assms(1) r(1) have d: "DecodeRune bs = (r, length bs)" using rune_ok_large(2) [of r bs "[]"] by simp
  from assms(1) have "bs \<noteq> []" by (simp add: rune_ok_def)
  from DecodeRune_three [OF d this r] obtain x y z where
    xyz: "x = byte (bs ! 0)" "y = byte (bs ! 1)" "z = byte (bs ! 2)" and len: "length bs = 3"
    and bounds: "224 \<le> x" "x < 240" "128 \<le> y" "y < 192" "128 \<le> z" "z < 192"
    and req: "r = x mod 16 * 4096 + y mod 64 * 64 + z mod 64"
    by (auto simp: cont_def low6_def less_Suc_eq_le [of _ 191, simplified])
  from bounds mod_offset [of 14 16 x] mod_offset [of 2 64 y] mod_offset [of 2 64 z]
  have m: "x = 224 + x mod 16" "y = 128 + y mod 64" "z = 128 + z mod 64" by simp_all
  have "a = 2 \<and> b = 0 \<and> c = r - 8192" if "r = a * 4096 + b * 64 + c" "b < 64" "c < 64" for a b c :: nat
  proof -
    from that assms(2) have a: "a = 2" by linarith
    with that assms(2) have "b < 1" by linarith
    with a that show ?thesis by simp
  qed
  from this [OF req] m assms(2) have "x = 226" "y = 128" "z = r - 8064" by auto
  with xyz have "bs ! 0 = char_of (226::nat) \<and> bs ! 1 = char_of (128::nat) \<and>
      bs ! 2 = char_of (r - 8064)"
    by (metis char_of_char)
  moreover from len have "bs = [bs ! 0, bs ! 1, bs ! 2]"
    by (simp add: numeral_3_eq_3 length_Suc_conv) (elim exE conjE, simp)
  moreover from assms(2) have "EncodeRune r = [char_of (226::nat), char_of (128::nat), char_of (r - 8064)]"
    by (auto simp: EncodeRune_def)
  ultimately show ?thesis by simp
qed

subsection \<open>Parsing back a string literal\<close>

lemma hex_value_digit: "d < 16 \<Longrightarrow> hex_value (hex_digit d) = Some d"
proof -
  assume "d < 16"
  then have "d \<in> set [0..<16]" by simp
  then have "d \<in> {0, 1, 2, 3, 4, 5, 6, 7, 8, 9, 10, 11, 12, 13, 14, 15}" by (simp add: upt_rec numeral_eq_Suc)
  then show ?thesis by (auto simp: hex_digit_def hex_value_def Let_def)
qed

lemma str_char_backslash: "str_char (backslash # s) = unescape s"
  by (simp add: str_char_def backslash_def)

lemma unescape_u00:
  "x < 8 \<Longrightarrow> y < 16 \<Longrightarrow> unescape (''u00'' @ [hex_digit x, hex_digit y] @ rest) = Some ([char_of (16 * x + y)], rest)"
  by (simp add: unescape_def quote_char_def backslash_def unescape_u_def hex_value_digit surrogate_def
      EncodeRune_def hex_value_def [of "CHR ''0''"])

lemma unescape_u202:
  "y < 16 \<Longrightarrow> unescape (''u202'' @ hex_digit y # rest) = Some (EncodeRune (8224 + y), rest)"
  by (simp add: unescape_def quote_char_def backslash_def unescape_u_def hex_value_digit surrogate_def
      hex_value_def [of "CHR ''0''"] hex_value_def [of "CHR ''2''"])

lemma unescape_ufffd: "unescape (''ufffd'' @ rest) = Some (replacement, rest)"
  by (simp add: unescape_def quote_char_def backslash_def unescape_u_def surrogate_def
      hex_value_def EncodeRune_def replacement_def char_of_eq_iff take_bit_eq_mod)

lemma byte_char_of: "byte c = n \<Longrightarrow> char_of n = c"
  by (metis char_of_char)

lemma str_char_enc_ascii:
  assumes "byte c < 128"
  shows "str_char (enc_rune (byte c, [c]) @ rest) = Some ([c], rest)"
proof -
  consider "byte c \<in> {34, 92, 10, 13, 9}" | "byte c \<notin> {34, 92, 10, 13, 9}" "byte c < 32 \<or> byte c \<in> {60, 62, 38}"
    | "byte c \<notin> {34, 92, 10, 13, 9, 60, 62, 38}" "\<not> byte c < 32"
    by auto
  then show ?thesis
  proof cases
    case 1
    then have "byte c = byte (CHR 0x22) \<or> byte c = byte (CHR 0x5C) \<or> byte c = byte (CHR 0x0A)
        \<or> byte c = byte (CHR 0x0D) \<or> byte c = byte (CHR 0x09)"
      by auto
    then have "c \<in> {CHR 0x22, CHR 0x5C, CHR 0x0A, CHR 0x0D, CHR 0x09}"
      by (simp only: of_char_eq_iff insert_iff) simp
    then show ?thesis
      by (elim insertE emptyE; simp add: enc_rune_def RuneError_def str_char_def unescape_def
          quote_char_def backslash_def)
  next
    case 2
    then have e: "enc_rune (byte c, [c]) = backslash # ''u00'' @ [hex_digit (byte c div 16), hex_digit (byte c mod 16)]"
      using assms by (auto simp: enc_rune_def RuneError_def)
    have "byte c div 16 < 8" "byte c mod 16 < 16" using assms by auto
    then show ?thesis using unescape_u00 [of "byte c div 16" "byte c mod 16" rest]
      by (simp add: e str_char_backslash)
  next
    case 3
    then have "enc_rune (byte c, [c]) = [c]" "c \<noteq> backslash"
      using assms by (auto simp: enc_rune_def RuneError_def backslash_def)
    with 3 assms show ?thesis by (simp add: str_char_def DecodeRune_ascii RuneError_def)
  qed
qed

lemma str_char_enc_rune:
  assumes ok: "rune_ok x"
  shows "str_char (enc_rune x @ rest) = Some (san_rune x, rest)"
proof -
  obtain r bs where x: "x = (r, bs)" by fastforce
  consider "bad_rune x" | "\<not> bad_rune x" "r < 128" | "\<not> bad_rune x" "r = 8232 \<or> r = 8233"
    | "\<not> bad_rune x" "128 \<le> r" "r \<noteq> 8232" "r \<noteq> 8233" by linarith
  then show ?thesis
  proof cases
    case 1
    then show ?thesis using unescape_ufffd [of rest]
      by (simp add: x enc_rune_def san_rune_def bad_rune_def str_char_backslash)
  next
    case 2
    with ok x obtain c where "bs = [c]" "byte c = r" using rune_ok_small by blast
    with 2 x show ?thesis using str_char_enc_ascii [of c rest]
      by (auto simp: san_rune_def)
  next
    case 3
    have "(8232::nat) mod 16 = 8" "(8233::nat) mod 16 = 9" by simp_all
    with 3 show ?thesis using ok line_separators [of r bs] unescape_u202 [of 8 rest] unescape_u202 [of 9 rest]
      by (auto simp: x enc_rune_def san_rune_def bad_rune_def RuneError_def str_char_backslash)
  next
    case 4
    with ok x have b: "128 \<le> byte (hd bs)" and d: "DecodeRune (bs @ rest) = (r, length bs)"
      using rune_ok_large(1) [of r bs] rune_ok_large(2) [of r bs rest] by auto
    from ok x have "bs \<noteq> []" by (simp add: rune_ok_def)
    then obtain c cs where bs: "bs = c # cs" by (cases bs) auto
    with b have "c \<noteq> backslash" by (auto simp: backslash_def)
    with b d bs 4 x show ?thesis
      by (auto simp: enc_rune_def str_char_def san_rune_def bad_rune_def)
  qed
qed

lemma enc_rune_hd: "rune_ok x \<Longrightarrow> enc_rune x \<noteq> [] \<and> hd (enc_rune x) \<noteq> quote_char"
proof -
  assume ok: "rune_ok x"
  obtain r bs where x: "x = (r, bs)" by fastforce
  have ne: "bs \<noteq> []" using ok x by (simp add: rune_ok_def)
  consider "bad_rune x" | "\<not> bad_rune x" "r < 128" | "\<not> bad_rune x" "128 \<le> r" by linarith
  then show ?thesis
  proof cases
    case 2
    with ok x obtain c where "bs = [c]" "byte c = r" using rune_ok_small by blast
    with 2 x show ?thesis by (auto simp: enc_rune_def quote_char_def backslash_def)
  next
    case 3
    with ok x have "128 \<le> byte (hd bs)" using rune_ok_large [of r bs] by auto
    then have "hd bs \<noteq> quote_char" by (auto simp: quote_char_def)
    with 3 x ne show ?thesis by (auto simp: enc_rune_def bad_rune_def quote_char_def backslash_def)
  qed (simp add: x enc_rune_def bad_rune_def quote_char_def backslash_def)
qed

lemma parse_str_runes:
  "(\<And>x. x \<in> set xs \<Longrightarrow> rune_ok x) \<Longrightarrow> length xs < n \<Longrightarrow>
   parse_str n (concat (map enc_rune xs) @ quote_char # rest) = Some (concat (map san_rune xs), rest)"
proof (induction xs arbitrary: n)
  case Nil
  then show ?case by (cases n) auto
next
  case (Cons x xs)
  then obtain m where n: "n = Suc m" "length xs < m" by (cases n) auto
  have "enc_rune x \<noteq> []" "hd (enc_rune x) \<noteq> quote_char" using enc_rune_hd Cons.prems(1) by auto
  with n Cons show ?case by (auto simp: str_char_enc_rune)
qed

lemma sanitize_runes: "sanitize s = concat (map san_rune (runes s))"
  by (auto simp: sanitize_def san_rune_def bad_rune_def intro!: arg_cong [where f = concat])

lemma length_concat_ge: "(\<And>x. x \<in> set xs \<Longrightarrow> f x \<noteq> []) \<Longrightarrow> length xs \<le> length (concat (map f xs))"
proof (induction xs)
  case (Cons x xs)
  then have "length xs \<le> length (concat (map f xs))" "f x \<noteq> []" by auto
  then show ?case by (cases "f x") auto
qed simp

lemma parse_str_enc:
  "parse_str (Suc (length (tl (enc_string s @ rest)) + k)) (tl (enc_string s @ rest)) = Some (sanitize s, rest)"
proof -
  have "length (runes s) \<le> length (concat (map enc_rune (runes s)))"
    using enc_rune_hd rune_ok_runes by (intro length_concat_ge) blast
  then show ?thesis
    using parse_str_runes [of "runes s" _ rest] rune_ok_runes
    by (simp add: enc_string_def sanitize_runes del: parse_str.simps)
qed

definition valid_utf8 :: "string \<Rightarrow> bool" where
  "valid_utf8 s \<longleftrightarrow> (\<forall>x \<in> set (runes s). \<not> bad_rune x)"

lemma sanitize_valid: "valid_utf8 s \<Longrightarrow> sanitize s = s"
proof -
  assume "valid_utf8 s"
  then have "map san_rune (runes s) = map snd (runes s)"
    by (auto simp: valid_utf8_def san_rune_def)
  then show ?thesis by (simp only: sanitize_runes concat_runes)
qed

lemma valid_utf8_ascii: "(\<And>c. c \<in> set s \<Longrightarrow> byte c < 128) \<Longrightarrow> valid_utf8 s"
  by (fastforce simp: valid_utf8_def runes_all_ascii bad_rune_def RuneError_def)

subsection \<open>Round trip of values\<close>

text \<open>The values the program marshals: no numbers.\<close>

primrec no_numbers :: "json \<Rightarrow> bool" where
  "no_numbers JNull = True"
| "no_numbers (JBool b) = True"
| "no_numbers (JNumber s) = False"
| "no_numbers (JString s) = True"
| "no_numbers (JArray vs) = list_all id (map no_numbers vs)"
| "no_numbers (JObject ms) = list_all snd (map (map_prod id no_numbers) ms)"

primrec sanitize_json :: "json \<Rightarrow> json" where
  "sanitize_json JNull = JNull"
| "sanitize_json (JBool b) = JBool b"
| "sanitize_json (JNumber s) = JNumber s"
| "sanitize_json (JString s) = JString (sanitize s)"
| "sanitize_json (JArray vs) = JArray (map sanitize_json vs)"
| "sanitize_json (JObject ms) = JObject (map (map_prod sanitize sanitize_json) ms)"

text \<open>The units of fuel the parser spends on a value.\<close>

primrec json_cost :: "json \<Rightarrow> nat" where
  "json_cost JNull = 1"
| "json_cost (JBool b) = 1"
| "json_cost (JNumber s) = 1"
| "json_cost (JString s) = 1"
| "json_cost (JArray vs) = 1 + sum_list (map (\<lambda>n. n + 1) (map json_cost vs))"
| "json_cost (JObject ms) = 1 + sum_list (map (\<lambda>(k, n). n + 1) (map (map_prod id json_cost) ms))"

text \<open>What a text starts with, so that the surrounding parser takes the right branch.\<close>

definition plain_start :: "string \<Rightarrow> bool" where
  "plain_start s \<longleftrightarrow> s \<noteq> [] \<and> \<not> json_ws (hd s) \<and> hd s \<noteq> CHR '']'' \<and> hd s \<noteq> CHR ''}''"

lemma skip_ws_plain: "plain_start s \<Longrightarrow> skip_ws (s @ t) = s @ t"
  by (cases s) (auto simp: plain_start_def skip_ws_def)

lemma plain_start_not_bracket: "plain_start s \<Longrightarrow> \<not> HasPrefix (s @ t) '']'' \<and> \<not> HasPrefix (s @ t) ''}''"
  by (cases s) (auto simp: plain_start_def)

lemma plain_start_enc [simp]: "plain_start (enc_string s @ t)"
  by (simp add: plain_start_def enc_string_def quote_char_def json_ws_def)

lemma plain_start_text: "no_numbers v \<Longrightarrow> plain_start (json_text v @ t)"
  by (cases v) (simp_all add: plain_start_def json_ws_def enc_string_def quote_char_def)

lemma plain_start_append: "plain_start s \<Longrightarrow> plain_start (s @ t)"
  by (cases s) (auto simp: plain_start_def)

lemma skip_ws_cons [simp]: "\<not> json_ws c \<Longrightarrow> skip_ws (c # s) = c # s"
  by (simp add: skip_ws_def)

lemma json_ws_simps [simp]:
  "\<not> json_ws (CHR '','')" "\<not> json_ws (CHR '']'')" "\<not> json_ws (CHR ''}'')" "\<not> json_ws (CHR '':'')"
  by (simp_all add: json_ws_def)

lemma parse_str_enc':
  "n \<ge> length (tl (enc_string s @ rest)) \<Longrightarrow> parse_str (Suc n) (tl (enc_string s @ rest)) = Some (sanitize s, rest)"
  using parse_str_enc [of s rest "n - length (tl (enc_string s @ rest))"] by simp

lemma parse_value_string:
  "parse_value (Suc n) (enc_string s @ rest) = Some (JString (sanitize s), rest)"
proof -
  have p: "enc_string s @ rest = quote_char # tl (enc_string s @ rest)"
    by (simp add: enc_string_def)
  show ?thesis
    using parse_str_enc' [of s rest "length (enc_string s @ rest)"]
    by (subst p) (simp add: quote_char_def enc_string_def)
qed

definition value_ok :: "nat \<Rightarrow> json \<Rightarrow> bool" where
  "value_ok n v \<longleftrightarrow> (\<forall>m rest. n \<le> m \<longrightarrow> parse_value m (json_text v @ rest) = Some (sanitize_json v, rest))"

lemma parse_elems_ok:
  assumes "vs \<noteq> []" "\<And>v. v \<in> set vs \<Longrightarrow> no_numbers v" "\<And>v. v \<in> set vs \<Longrightarrow> value_ok (json_cost v) v"
    and "sum_list (map (\<lambda>v. json_cost v + 1) vs) \<le> n"
  shows "parse_elems n (Join (map json_text vs) '','' @ '']'' @ rest) = Some (map sanitize_json vs, rest)"
  using assms
proof (induction vs arbitrary: n)
  case (Cons v vs)
  then obtain m where n: "n = Suc m" "json_cost v \<le> m" "sum_list (map (\<lambda>v. json_cost v + 1) vs) \<le> m"
    by (cases n) auto
  have v: "parse_value m (json_text v @ t) = Some (sanitize_json v, t)" for t
    using Cons.prems(3) [of v] n(2) by (simp add: value_ok_def)
  show ?case
  proof (cases vs)
    case Nil
    then show ?thesis using v n by simp
  next
    case (Cons w ws)
    let ?rest = "Join (map json_text vs) '','' @ '']'' @ rest"
    have "parse_elems m ?rest = Some (map sanitize_json vs, rest)"
      using Cons.IH Cons.prems n Cons by auto
    moreover have "skip_ws ?rest = ?rest"
    proof -
      have "plain_start (json_text w @ t)" for t
        using Cons.prems(2) [of w] Cons by (simp add: plain_start_text)
      from skip_ws_plain [OF this [of "[]"]] show ?thesis
        using Cons by (cases ws) auto
    qed
    ultimately show ?thesis using v n Cons by simp
  qed
qed simp

lemma parse_members_step:
  "parse_members (Suc m) (enc_string k @ CHR '':'' # t) =
    (case parse_value m (skip_ws t) of
       None \<Rightarrow> None
     | Some (v, s3) \<Rightarrow>
         (let s4 = skip_ws s3 in
          if HasPrefix s4 ''}'' then Some ([(sanitize k, v)], tl s4)
          else if HasPrefix s4 '','' then
            map_option (map_prod ((#) (sanitize k, v)) id) (parse_members m (skip_ws (tl s4)))
          else None))"
proof -
  let ?s = "enc_string k @ CHR '':'' # t"
  have "HasPrefix ?s [quote_char]" by (simp add: enc_string_def)
  moreover have "parse_str (Suc (length ?s)) (tl ?s) = Some (sanitize k, CHR '':'' # t)"
    by (rule parse_str_enc') simp
  ultimately show ?thesis
    by (simp only: parse_members.simps if_True not_True_eq_False if_False option.case prod.case)
       (simp add: Let_def)
qed

lemma parse_members_ok:
  assumes "ms \<noteq> []" "\<And>k v. (k, v) \<in> set ms \<Longrightarrow> no_numbers v"
    and "\<And>k v. (k, v) \<in> set ms \<Longrightarrow> value_ok (json_cost v) v"
    and "sum_list (map (\<lambda>(k, v). json_cost v + 1) ms) \<le> n"
  shows "parse_members n (Join (map (\<lambda>(k, v). enc_string k @ '':'' @ json_text v) ms) '','' @ ''}'' @ rest)
    = Some (map (map_prod sanitize sanitize_json) ms, rest)"
  using assms
proof (induction ms arbitrary: n)
  case (Cons kv ms)
  obtain k v where kv: "kv = (k, v)" by fastforce
  with Cons.prems(4) obtain m where n: "n = Suc m" "json_cost v \<le> m"
      "sum_list (map (\<lambda>(k, v). json_cost v + 1) ms) \<le> m"
    by (cases n) auto
  have v: "parse_value m (json_text v @ t) = Some (sanitize_json v, t)" for t
    using Cons.prems(3) [of k v] n(2) kv by (simp add: value_ok_def)
  have ws: "skip_ws (json_text v @ t) = json_text v @ t" for t
    using Cons.prems(2) [of k v] kv plain_start_text [of v "[]"] by (simp add: skip_ws_plain)
  show ?case
  proof (cases ms)
    case Nil
    then show ?thesis using v ws n kv by (simp add: parse_members_step del: parse_members.simps)
  next
    case (Cons w ws')
    let ?rest = "Join (map (\<lambda>(k, v). enc_string k @ '':'' @ json_text v) ms) '','' @ ''}'' @ rest"
    have "parse_members m ?rest = Some (map (map_prod sanitize sanitize_json) ms, rest)"
    proof (rule Cons.IH)
      show "ms \<noteq> []" using Cons by simp
      show "sum_list (map (\<lambda>(k, v). json_cost v + 1) ms) \<le> m" by (rule n(3))
    qed (use Cons.prems(2,3) in \<open>meson list.set_intros\<close>)+
    moreover have "skip_ws ?rest = ?rest"
    proof -
      have "plain_start ?rest" using Cons by (cases ws') (auto split: prod.splits)
      from skip_ws_plain [OF this, of "[]"] show ?thesis by simp
    qed
    ultimately show ?thesis using v ws n kv Cons
      by (simp add: parse_members_step del: parse_members.simps)
  qed
qed simp

lemma value_ok_cost: "no_numbers v \<Longrightarrow> value_ok (json_cost v) v"
proof (induction v)
  case (JString s)
  show ?case unfolding value_ok_def
  proof (intro allI impI)
    fix m rest
    assume "json_cost (JString s) \<le> m"
    then obtain n where "m = Suc n" by (cases m) auto
    then show "parse_value m (json_text (JString s) @ rest) = Some (sanitize_json (JString s), rest)"
      by (simp only: json_text.simps sanitize_json.simps parse_value_string)
  qed
next
  case (JArray vs)
  have IH: "value_ok (json_cost v) v" "no_numbers v" if "v \<in> set vs" for v
    using JArray that by (auto simp: list_all_iff)
  show ?case unfolding value_ok_def
  proof (intro allI impI)
    fix m rest
    assume "json_cost (JArray vs) \<le> m"
    then obtain n where n: "m = Suc n" "sum_list (map (\<lambda>v. json_cost v + 1) vs) \<le> n"
      by (cases m) (auto simp: comp_def)
    show "parse_value m (json_text (JArray vs) @ rest) = Some (sanitize_json (JArray vs), rest)"
    proof (cases vs)
      case Nil
      then show ?thesis using n by (simp add: skip_ws_def quote_char_def)
    next
      case (Cons w ws)
      let ?s = "Join (map json_text vs) '','' @ '']'' @ rest"
      have "plain_start ?s" using IH(2) [of w] Cons by (cases ws) (auto simp: plain_start_text)
      from plain_start_not_bracket [OF this, of "[]"] skip_ws_plain [OF this, of "[]"]
      show ?thesis using parse_elems_ok [of vs n rest] IH n Cons
        by (simp add: quote_char_def Let_def)
    qed
  qed
next
  case (JObject ms)
  have IH: "value_ok (json_cost v) v" "no_numbers v" if "(k, v) \<in> set ms" for k v
    using JObject that by (auto simp: list_all_iff)
  show ?case unfolding value_ok_def
  proof (intro allI impI)
    fix m rest
    assume "json_cost (JObject ms) \<le> m"
    then obtain n where n: "m = Suc n" "sum_list (map (\<lambda>(k, v). json_cost v + 1) ms) \<le> n"
      by (cases m) (simp_all add: comp_def case_prod_beta')
    show "parse_value m (json_text (JObject ms) @ rest) = Some (sanitize_json (JObject ms), rest)"
    proof (cases ms)
      case Nil
      then show ?thesis using n by (simp add: skip_ws_def quote_char_def)
    next
      case (Cons w ws)
      let ?s = "Join (map (\<lambda>(k, v). enc_string k @ '':'' @ json_text v) ms) '','' @ ''}'' @ rest"
      have "plain_start ?s" using Cons by (cases ws) (auto split: prod.splits)
      from plain_start_not_bracket [OF this, of "[]"] skip_ws_plain [OF this, of "[]"]
      show ?thesis using parse_members_ok [of ms n rest] IH n Cons
        by (simp add: quote_char_def Let_def comp_def case_prod_beta')
    qed
  qed
qed (auto simp: value_ok_def Suc_le_eq gr0_conv_Suc)

lemma length_Join_ge:
  "ss \<noteq> [] \<Longrightarrow> length (Join ss [sep]) + 1 = sum_list (map (\<lambda>s. length s + 1) ss)"
  by (induction ss "[sep]" rule: Join.induct) auto

lemma json_cost_le: "no_numbers v \<Longrightarrow> json_cost v + 1 \<le> 2 * length (json_text v)"
proof (induction v)
  case (JString s)
  then show ?case by (simp add: enc_string_def)
next
  case (JArray vs)
  have "sum_list (map (\<lambda>v. json_cost v + 1) vs) \<le> sum_list (map (\<lambda>v. 2 * length (json_text v)) vs)"
    using JArray by (intro sum_list_mono) (auto simp: list_all_iff)
  also have "\<dots> \<le> 2 * sum_list (map (\<lambda>v. length (json_text v) + 1) vs)"
    by (induction vs) auto
  finally show ?case using length_Join_ge [of "map json_text vs" "CHR '',''"]
    by (cases "vs = []") (auto simp: comp_def)
next
  case (JObject ms)
  have "sum_list (map (\<lambda>(k, v). json_cost v + 1) ms)
      \<le> sum_list (map (\<lambda>(k, v). 2 * length (json_text v)) ms)"
    using JObject by (intro sum_list_mono) (fastforce simp: list_all_iff)
  also have "\<dots> \<le> 2 * sum_list (map (\<lambda>(k, v). length (enc_string k @ '':'' @ json_text v) + 1) ms)"
    by (induction ms) auto
  finally have le: "sum_list (map (\<lambda>(k, v). json_cost v + 1) ms)
      \<le> 2 * sum_list (map (\<lambda>(k, v). length (enc_string k @ '':'' @ json_text v) + 1) ms)" .
  let ?T = "map (\<lambda>(k, v). enc_string k @ '':'' @ json_text v) ms"
  have tx: "json_text (JObject ms) = ''{'' @ Join ?T '','' @ ''}''"
    by (simp add: comp_def case_prod_beta')
  have cost: "json_cost (JObject ms) = 1 + sum_list (map (\<lambda>(k, v). json_cost v + 1) ms)"
    by (simp add: comp_def case_prod_beta')
  have sum: "sum_list (map (\<lambda>s. length s + 1) ?T)
      = sum_list (map (\<lambda>(k, v). length (enc_string k @ '':'' @ json_text v) + 1) ms)"
    by (simp add: comp_def case_prod_beta')
  have "ms = [] \<or> length (Join ?T '','') + 1 = sum_list (map (\<lambda>s. length s + 1) ?T)"
    using length_Join_ge [of ?T "CHR '',''"] by (cases "ms = []") simp_all
  moreover have "length (''{'' @ Join ?T '','' @ ''}'') = length (Join ?T '','') + 2" by simp
  ultimately show ?case unfolding tx cost using le sum
    by (elim disjE) (simp, linarith)
qed auto

lemma json_parse_text: "no_numbers v \<Longrightarrow> json_parse (json_text v) = Some (sanitize_json v)"
proof -
  assume v: "no_numbers v"
  have "parse_value (2 * length (json_text v) + 2) (json_text v) = Some (sanitize_json v, [])"
    using value_ok_cost [OF v] json_cost_le [OF v] 
    unfolding value_ok_def by (metis append_Nil2 le_add1 le_trans)
  moreover have "skip_ws (json_text v) = json_text v"
    using skip_ws_plain [of "json_text v" "[]"] plain_start_text [OF v, of "[]"] by simp
  ultimately show ?thesis by (simp add: json_parse_def skip_ws_def)
qed

end
