(* ===== verification/World.thy ===== *)
theory World
  imports Go_JSON
begin

text \<open>
  What lies outside the program, and how an operation reaches it.

  The processes, servers and devices the Go code talks to are one record of functions,
  \<open>'w env\<close>, over an abstract state \<open>'w\<close> of the outside world.  It is an argument of
  every definition that uses it; nothing is assumed of it here.  Library calls that are
  pure but whose code is not in the repository (bcrypt, JWT, semver, gjson) are fields of
  the same record.

  \<open>'w sys\<close> is the part of the state every component shares: the outside world and the
  trace of the effects performed so far.  The trace is history only, no operation reads it.
  Logging is not an effect: the log calls of the code are left out.

  \<^item> \<open>ext e f\<close>: perform the outside call \<open>f\<close> and record \<open>e\<close>.
  \<^item> \<open>emits Q m\<close>: every effect \<open>m\<close> adds to the trace satisfies \<open>Q\<close>.
\<close>

subsection \<open>Numbers\<close>

text \<open>
  \<open>float64\<close>: the finite values as rationals (negative zero is identified with zero, which no
  comparison of the program distinguishes), the infinities and NaN.
\<close>

datatype float64 = NaN | NInf | PInf | Fin rat

fun float_eq :: "float64 \<Rightarrow> float64 \<Rightarrow> bool" where
  "float_eq NaN _ = False"
| "float_eq _ NaN = False"
| "float_eq x y = (x = y)"

fun float_less :: "float64 \<Rightarrow> float64 \<Rightarrow> bool" where
  "float_less (Fin x) (Fin y) = (x < y)"
| "float_less NInf (Fin y) = True"
| "float_less NInf PInf = True"
| "float_less (Fin x) PInf = True"
| "float_less _ _ = False"

lemma float_less_irrefl [simp]: "\<not> float_less x x"
  by (cases x) auto

lemma float_less_trans: "float_less x y \<Longrightarrow> float_less y z \<Longrightarrow> float_less x z"
  by (cases x; cases y; cases z) auto

lemma float_eq_refl [simp]: "float_eq x x \<longleftrightarrow> x \<noteq> NaN"
  by (cases x) auto

subsection \<open>Effects\<close>

text \<open>\<open>handlers.Event\<close>: what the middleware sends on its \<open>events\<close> channel.\<close>

record event =
  Identifier :: string
  QueueIfNoClient :: bool

datatype effect =
    Exec string "string list"          \<comment> \<open>a command run to its end\<close>
  | LookPath string
  | Spawn nat string "string list"     \<comment> \<open>a goroutine that sleeps, then starts a command\<close>
  | RedisDo string "string list"
  | HttpGet string
  | RandRead nat
  | BcryptGenerate nat
  | Emit event
  | HsmSetConfig "nat list" string
  | HsmConfirmPairing string
  | HsmHeartbeat
  | Sleep nat                          \<comment> \<open>milliseconds\<close>

subsection \<open>The outside world\<close>

text \<open>
  The error of a command that could not be run or did not exit with status 0:
  \<open>os.IsNotExist\<close> of it, and its text.
\<close>

record exec_error =
  is_not_exist :: bool
  exec_text :: string

text \<open>A reply of \<open>redigo\<close>'s \<open>Do\<close>.\<close>

datatype reply =
    RInt int
  | RBulk string
  | RSimple string
  | RNil
  | RError string
  | RArray "reply list"

text \<open>
  One run of \<open>bbb-cmd.sh mender-update install\<close> as \<open>UpdateBase\<close> observes it: where setting up
  or starting the process failed, else the lines its standard output gave, whether reading
  them failed, the standard error lines collected by the time the process ended, and the
  error of \<open>Wait\<close>.
\<close>

record update_run =
  stdout_pipe_err :: bool
  stderr_pipe_err :: bool
  start_err :: bool
  stdout_lines :: "string list"
  stdout_read_err :: bool
  stderr_lines :: "string list"
  wait_err :: "exec_error option"

text \<open>The claims of a JSON web token (\<open>authentication.Claims\<close>).\<close>

record claims =
  claim_username :: string
  claim_expires_at :: int

text \<open>A panic of the Go runtime that no \<open>recover\<close> catches ends the process.\<close>

datatype 'a go = Ret 'a | Panic

text \<open>
  A semantic version of \<open>bitbox02-api-go/util/semver\<close>; the code holds pointers, which may be nil,
  so the methods get an option and may panic.
\<close>

type_synonym semver = "nat \<times> nat \<times> nat"

text \<open>
  \<open>http_get\<close> has two error cases: the request failed, or reading the body did.  \<open>clock\<close> is the
  current Unix time in seconds.
\<close>

record 'w env =
  exec_combined :: "string \<Rightarrow> string list \<Rightarrow> 'w \<Rightarrow> (string \<times> exec_error option) \<times> 'w"
  exec_update :: "string \<Rightarrow> string list \<Rightarrow> 'w \<Rightarrow> update_run \<times> 'w"
  look_path :: "string \<Rightarrow> 'w \<Rightarrow> goerr option \<times> 'w"
  spawn :: "nat \<Rightarrow> string \<Rightarrow> string list \<Rightarrow> 'w \<Rightarrow> 'w"
  redis_do :: "string \<Rightarrow> string list \<Rightarrow> 'w \<Rightarrow> (goerr + reply) \<times> 'w"
  http_get :: "string \<Rightarrow> 'w \<Rightarrow> (goerr + goerr + string) \<times> 'w"
  clock :: "'w \<Rightarrow> int"
  rand_read :: "nat \<Rightarrow> 'w \<Rightarrow> (goerr + string) \<times> 'w"
  bcrypt_generate :: "string \<Rightarrow> nat \<Rightarrow> 'w \<Rightarrow> (goerr + string) \<times> 'w"
  bcrypt_compare :: "string \<Rightarrow> string \<Rightarrow> goerr option"
  jwt_sign :: "claims \<Rightarrow> string \<Rightarrow> goerr + string"
  jwt_parse :: "string \<Rightarrow> string \<Rightarrow> int \<Rightarrow> goerr + bool"
  semver_parse :: "string \<Rightarrow> semver option \<times> goerr option"
  semver_at_least :: "semver option \<Rightarrow> semver option \<Rightarrow> bool go"
  semver_string :: "semver option \<Rightarrow> string go"
  gjson_valid :: "string \<Rightarrow> bool"
  gjson_get :: "string \<Rightarrow> string \<Rightarrow> json option"
  gjson_string :: "json \<Rightarrow> string"
  gjson_int :: "json \<Rightarrow> int"
  gjson_float :: "json \<Rightarrow> float64"
  parse_ip6_to4 :: "string \<Rightarrow> nat list option"
  hsm_set_config :: "nat list \<Rightarrow> string \<Rightarrow> 'w \<Rightarrow> goerr option \<times> 'w"
  hsm_confirm_pairing :: "string \<Rightarrow> 'w \<Rightarrow> goerr option \<times> 'w"
  hsm_heartbeat :: "'w \<Rightarrow> goerr option \<times> 'w"
  is_error_abort :: "goerr option \<Rightarrow> bool"
  Quote :: "string \<Rightarrow> string"

text \<open>What the program needs of bcrypt: a fresh hash matches its password and is text.\<close>

definition bcrypt_library :: "'w env \<Rightarrow> bool" where
  "bcrypt_library E \<longleftrightarrow> (\<forall>pw cost w h. fst (bcrypt_generate E pw cost w) = Inr h \<longrightarrow>
     bcrypt_compare E h pw = None \<and> valid_utf8 h)"

subsection \<open>The shared state\<close>

record 'w sys =
  world :: 'w
  trace :: "effect list"

definition ext :: "effect \<Rightarrow> ('w \<Rightarrow> 'a \<times> 'w) \<Rightarrow> (('w, 'r) sys_scheme, 'a) state" where
  "ext e f = State (\<lambda>s. case f (world s) of
     (a, w) \<Rightarrow> (a, s\<lparr>world := w, trace := trace s @ [e]\<rparr>))"

definition emit :: "event \<Rightarrow> (('w, 'r) sys_scheme, unit) state" where
  "emit ev = modify (\<lambda>s. s\<lparr>trace := trace s @ [Emit ev]\<rparr>)"

definition sleep :: "nat \<Rightarrow> (('w, 'r) sys_scheme, unit) state" where
  "sleep ms = modify (\<lambda>s. s\<lparr>trace := trace s @ [Sleep ms]\<rparr>)"

lemma run_ext [simp]: "run_state (ext e f) s =
    (fst (f (world s)), s\<lparr>world := snd (f (world s)), trace := trace s @ [e]\<rparr>)"
  by (simp add: ext_def split: prod.splits)

lemma run_emit [simp]: "run_state (emit ev) s = ((), s\<lparr>trace := trace s @ [Emit ev]\<rparr>)"
  by (simp add: emit_def)

lemma run_sleep [simp]: "run_state (sleep ms) s = ((), s\<lparr>trace := trace s @ [Sleep ms]\<rparr>)"
  by (simp add: sleep_def)

lemma keeps_ext [keeps_intros]:
  "(\<And>s w t. f (s\<lparr>world := w, trace := t\<rparr>) = f s) \<Longrightarrow> keeps f (ext e g)"
  by (simp add: keeps_def)

lemma keeps_emit [keeps_intros]: "(\<And>s t. f (s\<lparr>trace := t\<rparr>) = f s) \<Longrightarrow> keeps f (emit ev)"
  by (simp add: keeps_def)

lemma keeps_sleep [keeps_intros]: "(\<And>s t. f (s\<lparr>trace := t\<rparr>) = f s) \<Longrightarrow> keeps f (sleep ms)"
  by (simp add: keeps_def)

subsection \<open>Which effects an operation may have\<close>

named_theorems emits_intros \<open>bounds on the effects of operations\<close>

definition emits :: "(effect \<Rightarrow> bool) \<Rightarrow> (('w, 'r) sys_scheme, 'a) state \<Rightarrow> bool" where
  "emits Q m \<longleftrightarrow> (\<forall>s. \<exists>es. trace (snd (run_state m s)) = trace s @ es \<and> list_all Q es)"

lemma emitsI: "(\<And>s. \<exists>es. trace (snd (run_state m s)) = trace s @ es \<and> list_all Q es) \<Longrightarrow> emits Q m"
  by (simp add: emits_def)

lemma emitsD: "emits Q m \<Longrightarrow> run_state m s = (r, s') \<Longrightarrow> \<exists>es. trace s' = trace s @ es \<and> list_all Q es"
  by (metis emits_def snd_conv)

lemma emits_grows: "emits Q m \<Longrightarrow> grows trace m"
  unfolding emits_def grows_def by blast

lemma emits_mono: "emits Q m \<Longrightarrow> (\<And>e. Q e \<Longrightarrow> R e) \<Longrightarrow> emits R m"
  unfolding emits_def by (meson list.pred_mono_strong)

lemma emits_keeps: "keeps trace m \<Longrightarrow> emits Q m"
  by (auto simp: emits_def)

lemma emits_return [emits_intros]: "emits Q (State_Monad.return x)"
  by (simp add: emits_def)

lemma emits_get [emits_intros]: "emits Q State_Monad.get"
  by (simp add: emits_def)

lemma emits_gets [emits_intros]: "emits Q (gets f)"
  by (simp add: emits_def)

lemma emits_modify [emits_intros]: "(\<And>s. trace (f s) = trace s) \<Longrightarrow> emits Q (modify f)"
  by (simp add: emits_def)

lemma emits_ext [emits_intros]: "Q e \<Longrightarrow> emits Q (ext e f)"
  by (simp add: emits_def)

lemma emits_emit [emits_intros]: "Q (Emit ev) \<Longrightarrow> emits Q (emit ev)"
  by (simp add: emits_def)

lemma emits_sleep [emits_intros]: "Q (Sleep ms) \<Longrightarrow> emits Q (sleep ms)"
  by (simp add: emits_def)

lemma emits_bind [emits_intros]:
  assumes m: "emits Q m" and g: "\<And>x. emits Q (g x)"
  shows "emits Q (m \<bind> g)"
  unfolding emits_def
proof
  fix s
  obtain r s' where r: "run_state m s = (r, s')" by fastforce
  with m obtain es where "trace s' = trace s @ es" "list_all Q es" by (auto dest: emitsD)
  moreover obtain es' where "trace (snd (run_state (g r) s')) = trace s' @ es'" "list_all Q es'"
    using g [of r] by (auto simp: emits_def)
  ultimately show "\<exists>es. trace (snd (run_state (m \<bind> g) s)) = trace s @ es \<and> list_all Q es"
    using r by auto
qed

lemma emits_if [emits_intros]:
  "(b \<Longrightarrow> emits Q m) \<Longrightarrow> (\<not> b \<Longrightarrow> emits Q n) \<Longrightarrow> emits Q (if b then m else n)"
  by simp

lemma emits_case_sum [emits_intros]:
  "(\<And>a. x = Inl a \<Longrightarrow> emits Q (g a)) \<Longrightarrow> (\<And>b. x = Inr b \<Longrightarrow> emits Q (h b)) \<Longrightarrow>
   emits Q (case x of Inl a \<Rightarrow> g a | Inr b \<Rightarrow> h b)"
  by (cases x) auto

lemma emits_case_option [emits_intros]:
  "(x = None \<Longrightarrow> emits Q g) \<Longrightarrow> (\<And>b. x = Some b \<Longrightarrow> emits Q (h b)) \<Longrightarrow>
   emits Q (case x of None \<Rightarrow> g | Some b \<Rightarrow> h b)"
  by (cases x) auto

lemma emits_case_prod [emits_intros]:
  "(\<And>a b. x = (a, b) \<Longrightarrow> emits Q (g a b)) \<Longrightarrow> emits Q (case x of (a, b) \<Rightarrow> g a b)"
  by (cases x) auto


end
