(* ===== verification/Rpcmessages.thy ===== *)
theory Rpcmessages
  imports World
begin

text \<open>
  Package \<open>rpcmessages\<close> (middleware/src/rpcmessages): the notification constants, the argument
  and response structs of the RPCs, the error codes.  A Go struct is a record whose fields
  carry a short prefix where Go reuses a field name; a \<open>*ErrorResponse\<close> is an option.

  \<open>ErrorCode\<close> is the enumeration of the constants of errorcodes.go plus the zero value;
  \<open>code_string\<close> is the conversion \<open>string(code)\<close>, \<open>code_of_string\<close> its inverse
  (\<open>code_of_code_string\<close>, \<open>code_string_inj\<close>), which is what comparing a script's output with
  a list of codes relies on.
\<close>

subsection \<open>Notifications\<close>

definition OpRPCCall :: string where "OpRPCCall = ''r''"
definition OpServiceInfoChanged :: string where "OpServiceInfoChanged = ''s''"
definition OpBaseUpdateProgressChanged :: string where "OpBaseUpdateProgressChanged = ''u''"
definition OpBaseUpdateIsAvailable :: string where "OpBaseUpdateIsAvailable = ''x''"
definition OpBaseUpdateSuccess :: string where "OpBaseUpdateSuccess = ''a''"
definition OpBaseUpdateFailure :: string where "OpBaseUpdateFailure = ''b''"

lemmas op_defs = OpRPCCall_def OpServiceInfoChanged_def OpBaseUpdateProgressChanged_def
  OpBaseUpdateIsAvailable_def OpBaseUpdateSuccess_def OpBaseUpdateFailure_def

subsection \<open>Error codes\<close>

datatype ErrorCode =
    NoErrorCode
  | JSONWebTokenInvalid
  | ExecutableNotFound
  | ErrorScriptNotSuperuser
  | ErrorScriptIncludesNotFound
  | ErrorRedisError
  | ErrorPrometheusError
  | ErrorUnexpected
  | ErrorCmdScriptInvalidArg
  | ErrorFlashdriveCheckMultiple
  | ErrorFlashdriveCheckNone
  | ErrorFlashdriveMountNotFound
  | ErrorFlashdriveMountNotUnique
  | ErrorFlashdriveMountNotSupported
  | ErrorFlashdriveUnmountNotMounted
  | ErrorBackupSysconfigNotAMountpoint
  | ErrorRestoreSysconfigBackupNotFound
  | ErrorMenderUpdateImageNotMenderEnabled
  | ErrorMenderUpdateInstallFailed
  | ErrorMenderUpdateNoVersion
  | ErrorMenderUpdateInvalidVersion
  | ErrorMenderUpdateAlreadyInProgress
  | ErrorMenderUpdateCommitFailed
  | ErrorConfigScriptInvalidArg
  | ErrorSetNeedsTwoArguments
  | ErrorSetBitcoinNetworkInvalidValue
  | ErrorSetBitcoinDBCacheInvalidValue
  | ErrorSetHostnameInvalidValue
  | ErrorSystemdServiceStartFailed
  | ErrorInitialAuthenticationNotSuccessful
  | ErrorAuthenticationPasswordIncorrect
  | ErrorAuthenticationFailed
  | ErrorAuthenticationUsernameNotFound
  | ErrorPasswordTooShort
  | ErrorPasswordChangeFailed
  | ErrorPasswordChangeUsernameNotExist
  | ErrorPasswordChangePasswordIncorrect
  | ErrorSetLoginPasswordTooShort

primrec code_string :: "ErrorCode \<Rightarrow> string" where
  "code_string NoErrorCode = []"
| "code_string JSONWebTokenInvalid = ''JSONWEBTOKEN_INVALID''"
| "code_string ExecutableNotFound = ''EXECUTABLE_NOT_FOUND''"
| "code_string ErrorScriptNotSuperuser = ''SCRIPT_NOT_RUN_AS_SUPERUSER''"
| "code_string ErrorScriptIncludesNotFound = ''SCRIPT_INCLUDES_NOT_FOUND''"
| "code_string ErrorRedisError = ''REDIS_ERROR''"
| "code_string ErrorPrometheusError = ''PROMETHEUS_ERROR''"
| "code_string ErrorUnexpected = ''UNEXPECTED_ERROR''"
| "code_string ErrorCmdScriptInvalidArg = ''CMD_SCRIPT_INVALID_ARG''"
| "code_string ErrorFlashdriveCheckMultiple = ''FLASHDRIVE_CHECK_MULTI''"
| "code_string ErrorFlashdriveCheckNone = ''FLASHDRIVE_CHECK_NONE''"
| "code_string ErrorFlashdriveMountNotFound = ''FLASHDRIVE_MOUNT_NOT_FOUND''"
| "code_string ErrorFlashdriveMountNotUnique = ''FLASHDRIVE_MOUNT_NOT_UNIQUE''"
| "code_string ErrorFlashdriveMountNotSupported = ''FLASHDRIVE_MOUNT_NOT_SUPPORTED''"
| "code_string ErrorFlashdriveUnmountNotMounted = ''FLASHDRIVE_UNMOUNT_NOT_MOUNTED''"
| "code_string ErrorBackupSysconfigNotAMountpoint = ''BACKUP_SYSCONFIG_NOT_A_MOUNTPOINT''"
| "code_string ErrorRestoreSysconfigBackupNotFound = ''RESTORE_SYSCONFIG_BACKUP_NOT_FOUND''"
| "code_string ErrorMenderUpdateImageNotMenderEnabled = ''MENDER_UPDATE_IMAGE_NOT_MENDER_ENABLED''"
| "code_string ErrorMenderUpdateInstallFailed = ''MENDER_UPDATE_INSTALL_FAILED''"
| "code_string ErrorMenderUpdateNoVersion = ''MENDER_UPDATE_NO_VERSION''"
| "code_string ErrorMenderUpdateInvalidVersion = ''MENDER_UPDATE_INVALID_VERSION''"
| "code_string ErrorMenderUpdateAlreadyInProgress = ''MENDER_UPDATE_ALREADY_IN_PROGRESS''"
| "code_string ErrorMenderUpdateCommitFailed = ''MENDER_UPDATE_COMMIT_FAILED''"
| "code_string ErrorConfigScriptInvalidArg = ''CONFIG_SCRIPT_INVALID_ARG''"
| "code_string ErrorSetNeedsTwoArguments = ''SET_NEEDS_TWO_ARGUMENTS''"
| "code_string ErrorSetBitcoinNetworkInvalidValue = ''SET_BITCOINETWORK_INVALID_VALUE''"
| "code_string ErrorSetBitcoinDBCacheInvalidValue = ''SET_BITCOINDBCACHE_INVALID_VALUE''"
| "code_string ErrorSetHostnameInvalidValue = ''SET_HOSTNAME_INVALID_VALUE''"
| "code_string ErrorSystemdServiceStartFailed = ''SYSTEMD_SERVICESTART_FAILED''"
| "code_string ErrorInitialAuthenticationNotSuccessful = ''INITIAL_AUTHENTICATION_NOT_SUCCESSFUL''"
| "code_string ErrorAuthenticationPasswordIncorrect = ''AUTHENTICATION_PASSWORD_INCORRECT''"
| "code_string ErrorAuthenticationFailed = ''AUTHENTICATION_FAILED''"
| "code_string ErrorAuthenticationUsernameNotFound = ''AUTHENTICATION_USERNAME_NOEXIST''"
| "code_string ErrorPasswordTooShort = ''CHANGEPASSWORD_TOO_SHORT''"
| "code_string ErrorPasswordChangeFailed = ''CHANGEPASSWORD_FAILED''"
| "code_string ErrorPasswordChangeUsernameNotExist = ''CHANGEPASSWORD_USERNAME_NOEXIST''"
| "code_string ErrorPasswordChangePasswordIncorrect = ''CHANGEPASSWORD_PASSWORD_INCORRECT''"
| "code_string ErrorSetLoginPasswordTooShort = ''SET_LOGINPASSWORD_PASSWORD_TOO_SHORT''"

definition all_codes :: "ErrorCode list" where
  "all_codes = [NoErrorCode, JSONWebTokenInvalid, ExecutableNotFound, ErrorScriptNotSuperuser,
    ErrorScriptIncludesNotFound, ErrorRedisError, ErrorPrometheusError,
    ErrorUnexpected, ErrorCmdScriptInvalidArg, ErrorFlashdriveCheckMultiple,
    ErrorFlashdriveCheckNone, ErrorFlashdriveMountNotFound,
    ErrorFlashdriveMountNotUnique, ErrorFlashdriveMountNotSupported,
    ErrorFlashdriveUnmountNotMounted, ErrorBackupSysconfigNotAMountpoint,
    ErrorRestoreSysconfigBackupNotFound, ErrorMenderUpdateImageNotMenderEnabled,
    ErrorMenderUpdateInstallFailed, ErrorMenderUpdateNoVersion,
    ErrorMenderUpdateInvalidVersion, ErrorMenderUpdateAlreadyInProgress,
    ErrorMenderUpdateCommitFailed, ErrorConfigScriptInvalidArg,
    ErrorSetNeedsTwoArguments, ErrorSetBitcoinNetworkInvalidValue,
    ErrorSetBitcoinDBCacheInvalidValue, ErrorSetHostnameInvalidValue,
    ErrorSystemdServiceStartFailed, ErrorInitialAuthenticationNotSuccessful,
    ErrorAuthenticationPasswordIncorrect, ErrorAuthenticationFailed,
    ErrorAuthenticationUsernameNotFound, ErrorPasswordTooShort,
    ErrorPasswordChangeFailed, ErrorPasswordChangeUsernameNotExist,
    ErrorPasswordChangePasswordIncorrect, ErrorSetLoginPasswordTooShort]"

definition code_of_string :: "string \<Rightarrow> ErrorCode option" where
  "code_of_string s = map_of (map (\<lambda>c. (code_string c, c)) all_codes) s"

lemma code_of_code_string [simp]: "code_of_string (code_string c) = Some c"
  by (cases c) (simp_all add: code_of_string_def all_codes_def)

lemma code_string_inj [simp]: "code_string c = code_string d \<longleftrightarrow> c = d"
  by (metis code_of_code_string option.inject)

lemma code_string_not_empty: "c \<noteq> NoErrorCode \<longleftrightarrow> code_string c \<noteq> []"
  by (metis code_string.simps(1) code_string_inj)

lemma code_of_string_Some: "code_of_string s = Some c \<Longrightarrow> s = code_string c"
  by (auto simp: code_of_string_def dest!: map_of_SomeD)

record ErrorResponse =
  Success :: bool
  Code :: ErrorCode
  Message :: string

abbreviation success :: ErrorResponse where
  "success \<equiv> \<lparr>Success = True, Code = NoErrorCode, Message = []\<rparr>"

abbreviation failure :: "ErrorCode \<Rightarrow> string \<Rightarrow> ErrorResponse" where
  "failure c msg \<equiv> \<lparr>Success = False, Code = c, Message = msg\<rparr>"

text \<open>The method \<open>Error()\<close> of an \<open>ErrorResponse\<close>.\<close>

definition ErrorResponse_Error :: "ErrorResponse \<Rightarrow> string" where
  "ErrorResponse_Error err =
     (if Success err then ''ErrorResponse:{Success: true}''
      else ''ErrorResponse:{'' @ [CHR 0x0A, CHR 0x09] @ ''Success: false '' @ [CHR 0x0A, CHR 0x09]
        @ ''Code: '' @ code_string (Code err) @ '' '' @ [CHR 0x0A, CHR 0x09]
        @ ''Message: '' @ Message err @ [CHR 0x0A] @ ''}'')"

subsection \<open>Arguments\<close>

record UserAuthenticateArgs =
  ua_Username :: string
  ua_Password :: string

record AuthGenericRequest =
  ag_Token :: string

record UserChangePasswordArgs =
  cp_Username :: string
  cp_Password :: string
  cp_NewPassword :: string
  cp_Token :: string

record SetHostnameArgs =
  sh_Hostname :: string
  sh_Token :: string

record SetLoginPasswordArgs =
  lp_LoginPassword :: string
  lp_Token :: string

record ToggleSettingArgs =
  ToggleSetting :: bool
  ts_Token :: string

record UpdateBaseArgs =
  ub_Version :: string
  ub_Token :: string

subsection \<open>Responses\<close>

record SetupStatusResponse =
  ss_MiddlewarePasswordSet :: bool
  ss_BaseSetup :: bool

record UserAuthenticateResponse =
  ua_ErrorResponse :: "ErrorResponse option"
  ua_Token :: string

record GetEnvResponse =
  env_Network :: string
  env_ElectrsRPCPort :: string

record UpdateInfo =
  ui_Description :: string
  ui_Version :: string
  ui_Severity :: string

record IsBaseUpdateAvailableResponse =
  av_ErrorResponse :: "ErrorResponse option"
  UpdateAvailable :: bool
  av_UpdateInfo :: UpdateInfo

text \<open>
  The constants of \<open>BaseUpdateState\<close> are \<open>iota + 1\<close>: 1 to 5 in this order.  \<open>UpdateStateZero\<close> is
  the zero value of the type, which has no name in the code; a response that is left empty
  has it.
\<close>

datatype BaseUpdateState =
    UpdateStateZero
  | UpdateNotInProgress
  | UpdateDownloading
  | UpdateFailed
  | UpdateApplying
  | UpdateRebooting

record GetBaseUpdateProgressResponse =
  pr_ErrorResponse :: "ErrorResponse option"
  UpdateState :: BaseUpdateState
  ProgressPercentage :: int
  ProgressDownloadedKiB :: int

record GetBaseInfoResponse =
  bi_ErrorResponse :: "ErrorResponse option"
  MiddlewareLocalIP :: string
  bi_MiddlewarePort :: string
  MiddlewareTorOnion :: string
  IsSSHPasswordLoginEnabled :: bool
  FreeDiskspace :: int
  TotalDiskspace :: int
  bi_BaseVersion :: string
  bi_BitcoindVersion :: string
  bi_LightningdVersion :: string
  bi_ElectrsVersion :: string

record GetServiceInfoResponse =
  si_ErrorResponse :: "ErrorResponse option"
  BitcoindBlocks :: int
  BitcoindHeaders :: int
  BitcoindVerificationProgress :: float64
  BitcoindPeers :: int
  BitcoindIBD :: bool
  LightningdBlocks :: int
  si_LightningActiveChannels :: int
  si_ElectrsBlocks :: int

record GetServiceStatusResponse =
  st_ErrorResponse :: "ErrorResponse option"
  st_Hostname :: string
  st_Status :: string
  st_IsTorEnabled :: bool
  BitcoindStatus :: bool
  LightningdStatus :: bool
  ElectrsStatus :: bool

end
