(* ===== verification/Prometheus.thy ===== *)
theory Prometheus
  imports Rpcmessages
begin

text \<open>
  Package \<open>prometheus\<close> (middleware/src/prometheus): queries over HTTP and the reading of their JSON
  results through \<open>gjson\<close>.  Of \<open>gjson\<close>, the path lookup, the validity check and the conversions of
  a scalar are fields of the environment; a \<open>gjson.Result\<close> is an optional JSON value (\<open>None\<close> where
  \<open>Exists()\<close> is false), and \<open>Array()\<close>, \<open>Map()\<close> are as in the library.
\<close>

datatype BasePrometheusQuery =
    BitcoinVerificationProgress
  | BitcoinBlockCount
  | BitcoinHeaderCount
  | BitcoinPeers
  | BitcoinIBD
  | BaseSystemInfo
  | BaseFreeDiskspace
  | BaseTotalDiskspace
  | LightningBlocks
  | ElectrsBlocks
  | LightningActiveChannels

definition quoted :: "string \<Rightarrow> string" where
  "quoted s = [quote_char] @ s @ [quote_char]"

primrec query_string :: "BasePrometheusQuery \<Rightarrow> string" where
  "query_string BitcoinVerificationProgress = ''bitcoin_verification_progress''"
| "query_string BitcoinBlockCount = ''bitcoin_blocks''"
| "query_string BitcoinHeaderCount = ''bitcoin_headers''"
| "query_string BitcoinPeers = ''bitcoin_peers''"
| "query_string BitcoinIBD = ''bitcoin_ibd''"
| "query_string BaseSystemInfo = ''base_system_info''"
| "query_string BaseFreeDiskspace = ''node_filesystem_free_bytes{fstype='' @ quoted ''ext4''
     @ '', mountpoint='' @ quoted ''/mnt/ssd'' @ ''}''"
| "query_string BaseTotalDiskspace = ''node_filesystem_size_bytes{fstype='' @ quoted ''ext4''
     @ '', mountpoint='' @ quoted ''/mnt/ssd'' @ ''}''"
| "query_string LightningBlocks = ''lightning_node_blockheight''"
| "query_string ElectrsBlocks = ''electrs_index_height''"
| "query_string LightningActiveChannels = ''sum(lightning_peer_channels) or vector(0)''"

definition sq :: "string \<Rightarrow> string" where
  "sq s = [CHR 0x27] @ s @ [CHR 0x27]"

text \<open>\<open>url.QueryEscape\<close>.\<close>

definition upper_hex :: "nat \<Rightarrow> char" where
  "upper_hex d = ''0123456789ABCDEF'' ! d"

definition unreserved :: "char \<Rightarrow> bool" where
  "unreserved c \<longleftrightarrow> (let b = byte c in 97 \<le> b \<and> b \<le> 122 \<or> 65 \<le> b \<and> b \<le> 90 \<or> 48 \<le> b \<and> b \<le> 57
     \<or> c \<in> {CHR ''-'', CHR ''_'', CHR ''.'', CHR ''~''})"

definition QueryEscape :: "string \<Rightarrow> string" where
  "QueryEscape s = concat (map (\<lambda>c. if unreserved c then [c] else if c = CHR '' '' then ''+''
     else [CHR ''%'', upper_hex (byte c div 16), upper_hex (byte c mod 16)]) s)"

text \<open>\<open>Result.String()\<close>, \<open>Result.Array()\<close> and \<open>Result.Map()[key]\<close> of gjson.\<close>

definition gj_String :: "'w env \<Rightarrow> json option \<Rightarrow> string" where
  "gj_String E r = (case r of None \<Rightarrow> [] | Some j \<Rightarrow> gjson_string E j)"

definition gj_Array :: "json option \<Rightarrow> json list" where
  "gj_Array r = (case r of
     None \<Rightarrow> []
   | Some JNull \<Rightarrow> []
   | Some (JArray vs) \<Rightarrow> vs
   | Some (JObject ms) \<Rightarrow> []
   | Some j \<Rightarrow> [j])"

definition gj_Map :: "json option \<Rightarrow> string \<Rightarrow> json option" where
  "gj_Map r k = (case r of Some (JObject ms) \<Rightarrow> map_of ms k | _ \<Rightarrow> None)"

subsection \<open>The client\<close>

definition http_Get :: "'w env \<Rightarrow> string \<Rightarrow> (('w, 'r) sys_scheme, goerr + goerr + string) state" where
  "http_Get E url = ext (HttpGet url) (http_get E url)"

definition prom_query ::
  "'w env \<Rightarrow> string \<Rightarrow> BasePrometheusQuery \<Rightarrow> (('w, 'r) sys_scheme, goerr + string) state" where
  "prom_query E address query = do {
     resp \<leftarrow> http_Get E (address @ ''/api/v1/query?query='' @ QueryEscape (query_string query));
     State_Monad.return (case resp of
       Inl e \<Rightarrow> Inl (Errorf ''a HTTP error occurred: '' e [])
     | Inr (Inl e) \<Rightarrow> Inl (Errorf ''could not read response body: '' e [])
     | Inr (Inr body) \<Rightarrow>
         if \<not> gjson_valid E body
         then Inl (ErrorString (''received invalid JSON from as result of the Prometheus query: '' @ body))
         else if gj_String E (gjson_get E body ''status'') \<noteq> ''success''
         then Inl (ErrorString (''the Prometheus query failed: '' @ body))
         else Inr body)
   }"

definition checkResultType :: "'w env \<Rightarrow> string \<Rightarrow> string \<Rightarrow> goerr option" where
  "checkResultType E r expected = (let queryResultType = gjson_get E r ''data.resultType'' in
     if queryResultType = None
     then Some (ErrorString (''the JSON response does not have a field '' @ sq ''data.resultType''))
     else if gj_String E queryResultType \<noteq> expected
     then Some (ErrorString (''the JSON response field '' @ sq ''data.resultType'' @ '' does not match the expected value of ''
       @ sq expected @ ''. It'' @ [CHR 0x27] @ ''s '' @ sq (gj_String E queryResultType)))
     else None)"

text \<open>The first entry of \<open>data.result\<close>, on which both readers below agree.\<close>

definition first_result :: "'w env \<Rightarrow> string \<Rightarrow> goerr + json" where
  "first_result E r = (case checkResultType E r ''vector'' of
     Some e \<Rightarrow> Inl e
   | None \<Rightarrow> (let queryResult = gjson_get E r ''data.result'' in
       if queryResult = None
       then Inl (ErrorString (''the query result does not have '' @ sq ''data.result''))
       else if gj_Array queryResult = []
       then Inl (ErrorString ''the query result does not have any result entries'')
       else Inr (gj_Array queryResult ! 0)))"

definition getFirstResultValue :: "'w env \<Rightarrow> string \<Rightarrow> goerr + json" where
  "getFirstResultValue E r = (case first_result E r of
     Inl e \<Rightarrow> Inl e
   | Inr res \<Rightarrow> (let queryResultValue = gj_Map (Some res) ''value'' in
       if queryResultValue = None
       then Inl (ErrorString (''the query result does not have '' @ sq (''data.result[0]['' @ sq ''values'' @ '']'')))
       else if length (gj_Array queryResultValue) < 2
       then Inl (ErrorString ''the first query result value has less than two entries'')
       else Inr (gj_Array queryResultValue ! 1)))"

definition getMetricsMap :: "'w env \<Rightarrow> string \<Rightarrow> goerr + (string \<Rightarrow> json option)" where
  "getMetricsMap E r = (case first_result E r of
     Inl e \<Rightarrow> Inl e
   | Inr res \<Rightarrow> (let queryResultMetric = gj_Map (Some res) ''metric'' in
       if queryResultMetric = None
       then Inl (ErrorString (''the query result does not have '' @ sq (''data.result[0]['' @ sq ''metric'' @ '']'')))
       else Inr (gj_Map queryResultMetric)))"

definition query_value ::
  "'w env \<Rightarrow> string \<Rightarrow> BasePrometheusQuery \<Rightarrow> (('w, 'r) sys_scheme, goerr + json) state" where
  "query_value E address query = do {
     response \<leftarrow> prom_query E address query;
     State_Monad.return (case response of
       Inl e \<Rightarrow> Inl (Errorf (''could not query an integer for query '' @ sq (query_string query) @ '': '') e [])
     | Inr r \<Rightarrow> (case getFirstResultValue E r of
         Inl e \<Rightarrow> Inl (Errorf (''could not get the first result value from '' @ sq r @ '': '') e [])
       | Inr v \<Rightarrow> Inr v))
   }"

definition prom_GetFloat ::
  "'w env \<Rightarrow> string \<Rightarrow> BasePrometheusQuery \<Rightarrow> (('w, 'r) sys_scheme, goerr + float64) state" where
  "prom_GetFloat E address query = do {
     v \<leftarrow> query_value E address query;
     State_Monad.return (case v of Inl e \<Rightarrow> Inl e | Inr j \<Rightarrow> Inr (gjson_float E j))
   }"

definition prom_GetInt ::
  "'w env \<Rightarrow> string \<Rightarrow> BasePrometheusQuery \<Rightarrow> (('w, 'r) sys_scheme, goerr + int) state" where
  "prom_GetInt E address query = do {
     v \<leftarrow> query_value E address query;
     State_Monad.return (case v of Inl e \<Rightarrow> Inl e | Inr j \<Rightarrow> Inr (gjson_int E j))
   }"

definition prom_GetMetricString ::
  "'w env \<Rightarrow> string \<Rightarrow> BasePrometheusQuery \<Rightarrow> string \<Rightarrow> (('w, 'r) sys_scheme, goerr + string) state" where
  "prom_GetMetricString E address query metric = do {
     response \<leftarrow> prom_query E address query;
     State_Monad.return (case response of
       Inl e \<Rightarrow> Inl (Errorf (''could not query '' @ sq (query_string query) @ '' from Prometheus: '') e [])
     | Inr r \<Rightarrow> (case getMetricsMap E r of
         Inl e \<Rightarrow> Inl (Errorf (''could not read the metrics map from Prometheus (response: '' @ r @ ''): '') e [])
       | Inr m \<Rightarrow> Inr (gj_String E (m metric))))
   }"

definition prom_ConvertErrorToErrorResponse :: "'w env \<Rightarrow> goerr \<Rightarrow> ErrorResponse" where
  "prom_ConvertErrorToErrorResponse E e = failure ErrorPrometheusError (err_text (Quote E) e)"

lemmas prom_defs = prom_GetFloat_def prom_GetInt_def prom_GetMetricString_def query_value_def prom_query_def http_Get_def

lemma keeps_prom [keeps_intros]:
  assumes "\<And>s w t. f (s\<lparr>world := w, trace := t\<rparr>) = f s"
  shows "keeps f (prom_GetFloat E a q)" "keeps f (prom_GetInt E a q)" "keeps f (prom_GetMetricString E a q m)"
  unfolding prom_defs Let_def by (intro keeps_intros assms)+

lemma emits_prom [emits_intros]:
  assumes "\<And>url. Q (HttpGet url)"
  shows "emits Q (prom_GetFloat E a q)" "emits Q (prom_GetInt E a q)" "emits Q (prom_GetMetricString E a q m)"
  unfolding prom_defs Let_def by (intro emits_intros assms)+

text \<open>A query sends exactly one request, whatever comes back.\<close>

lemma prom_one_request:
  "trace (snd (run_state (prom_GetInt E a q) s)) =
     trace s @ [HttpGet (a @ ''/api/v1/query?query='' @ QueryEscape (query_string q))]"
  by (simp add: prom_defs)

text \<open>A value that is read is the second entry of the first result's value array.\<close>

lemma getFirstResultValue_shape:
  assumes "getFirstResultValue E r = Inr v"
  obtains res ts where "first_result E r = Inr res" "gj_Map (Some res) ''value'' = Some (JArray ts)"
    "2 \<le> length ts" "v = ts ! 1"
proof -
  from assms obtain res where res: "first_result E r = Inr res"
    by (auto simp: getFirstResultValue_def split: sum.splits)
  with assms obtain q where q: "gj_Map (Some res) ''value'' = Some q" "2 \<le> length (gj_Array (Some q))"
      "v = gj_Array (Some q) ! 1"
    by (cases "gj_Map (Some res) ''value''") (auto simp: getFirstResultValue_def Let_def split: if_splits)
  from q(2) obtain ts where "q = JArray ts" by (cases q) (auto simp: gj_Array_def)
  with res q show ?thesis by (intro that [of res ts]) (auto simp: gj_Array_def)
qed

end
