(* ===== verification/Configuration.thy ===== *)
theory Configuration
  imports Prelude
begin

text \<open>
  Package \<open>configuration\<close> (middleware/src/configuration/configuration.go): the read-only options of
  the middleware.  \<open>Args\<close> and \<open>Configuration\<close> are separate structs in the code, so they are
  separate records here; \<open>NewConfiguration\<close> copies field by field.
\<close>

record Args =
  arg_BBBCmdScript :: string
  arg_BBBConfigScript :: string
  arg_BBBSystemctlScript :: string
  arg_ElectrsRPCPort :: string
  arg_ImageUpdateInfoURL :: string
  arg_MiddlewarePort :: string
  arg_MiddlewareVersion :: string
  arg_Network :: string
  arg_NotificationNamedPipePath :: string
  arg_PrometheusURL :: string
  arg_RedisMock :: bool
  arg_RedisPort :: string

record configuration =
  bbbCmdScript :: string
  bbbConfigScript :: string
  bbbSystemctlScript :: string
  electrsRPCPort :: string
  imageUpdateInfoURL :: string
  middlewarePort :: string
  middlewareVersion :: string
  network :: string
  notificationNamedPipePath :: string
  prometheusURL :: string
  redisMock :: bool
  redisPort :: string

definition NewConfiguration :: "Args \<Rightarrow> configuration" where
  "NewConfiguration args = \<lparr>
     bbbCmdScript = arg_BBBCmdScript args,
     bbbConfigScript = arg_BBBConfigScript args,
     bbbSystemctlScript = arg_BBBSystemctlScript args,
     electrsRPCPort = arg_ElectrsRPCPort args,
     imageUpdateInfoURL = arg_ImageUpdateInfoURL args,
     middlewarePort = arg_MiddlewarePort args,
     middlewareVersion = arg_MiddlewareVersion args,
     network = arg_Network args,
     notificationNamedPipePath = arg_NotificationNamedPipePath args,
     prometheusURL = arg_PrometheusURL args,
     redisMock = arg_RedisMock args,
     redisPort = arg_RedisPort args\<rparr>"

definition GetBBBConfigScript :: "configuration \<Rightarrow> string" where
  "GetBBBConfigScript config = bbbConfigScript config"

definition GetBBBCmdScript :: "configuration \<Rightarrow> string" where
  "GetBBBCmdScript config = bbbCmdScript config"

definition GetBBBSystemctlScript :: "configuration \<Rightarrow> string" where
  "GetBBBSystemctlScript config = bbbSystemctlScript config"

definition GetPrometheusURL :: "configuration \<Rightarrow> string" where
  "GetPrometheusURL config = prometheusURL config"

definition GetRedisPort :: "configuration \<Rightarrow> string" where
  "GetRedisPort config = redisPort config"

definition IsRedisMock :: "configuration \<Rightarrow> bool" where
  "IsRedisMock config = redisMock config"

definition GetMiddlewareVersion :: "configuration \<Rightarrow> string" where
  "GetMiddlewareVersion config = middlewareVersion config"

definition GetMiddlewarePort :: "configuration \<Rightarrow> string" where
  "GetMiddlewarePort config = middlewarePort config"

definition GetImageUpdateInfoURL :: "configuration \<Rightarrow> string" where
  "GetImageUpdateInfoURL config = imageUpdateInfoURL config"

definition GetNotificationNamedPipePath :: "configuration \<Rightarrow> string" where
  "GetNotificationNamedPipePath config = notificationNamedPipePath config"

definition GetNetwork :: "configuration \<Rightarrow> string" where
  "GetNetwork config = network config"

definition GetElectrsRPCPort :: "configuration \<Rightarrow> string" where
  "GetElectrsRPCPort config = electrsRPCPort config"

lemmas getter_defs = GetBBBConfigScript_def GetBBBCmdScript_def GetBBBSystemctlScript_def
  GetPrometheusURL_def GetRedisPort_def IsRedisMock_def GetMiddlewareVersion_def
  GetMiddlewarePort_def GetImageUpdateInfoURL_def GetNotificationNamedPipePath_def
  GetNetwork_def GetElectrsRPCPort_def

end
