(* ===== verification/Redis.thy ===== *)
theory Redis
  imports Rpcmessages Configuration
begin

text \<open>
  Package \<open>redis\<close> (middleware/src/redis): the keys, the client of the Redis server (redis.go), the
  mock client with its in-memory map (redis_mock.go), and the interface \<open>Redis\<close> both implement.
  The reply conversions of \<open>redigo\<close> (vendored under tools/) are modelled too.  A Go pair
  \<open>(value, error)\<close> is a pair whose second component is \<open>None\<close> for a nil error.

  The mock logs and ignores the sorted-set operations, as in the code.

  The locale \<open>kv_store\<close> is what the callers of the interface rely on: reading gives what is
  stored, writing one key leaves the others alone.  It is interpreted on the operations the
  middleware calls, for either client: for the mock unconditionally, for the real client on
  states satisfying \<open>redis_server\<close>, the documented behaviour of GET and SET.
\<close>

datatype BaseRedisKey =
    BaseHostname
  | TorEnabled
  | MiddlewareOnion
  | BitcoindListen
  | BaseVersion
  | BitcoindVersion
  | LightningdVersion
  | ElectrsVersion
  | MiddlewarePasswordSet
  | MiddlewareAuth
  | BaseSetupDone
  | BaseSSHDPasswordLogin
  | BitcoindIBDClearnet

primrec key_string :: "BaseRedisKey \<Rightarrow> string" where
  "key_string BaseHostname = ''base:hostname''"
| "key_string TorEnabled = ''tor:base:enabled''"
| "key_string MiddlewareOnion = ''tor:bbbmiddleware:onion''"
| "key_string BitcoindListen = ''bitcoind:listen''"
| "key_string BaseVersion = ''base:version''"
| "key_string BitcoindVersion = ''bitcoind:version''"
| "key_string LightningdVersion = ''lightningd:version''"
| "key_string ElectrsVersion = ''electrs:version''"
| "key_string MiddlewarePasswordSet = ''middleware:passwordSetup''"
| "key_string MiddlewareAuth = ''middleware:auth''"
| "key_string BaseSetupDone = ''base:setup''"
| "key_string BaseSSHDPasswordLogin = ''base:sshd:passwordlogin''"
| "key_string BitcoindIBDClearnet = ''bitcoind:ibd-clearnet''"

lemma key_string_inj [simp]: "key_string k = key_string l \<longleftrightarrow> k = l"
  by (cases k; cases l) simp_all

subsection \<open>Reply conversions of redigo\<close>

definition ErrNil :: goerr where
  "ErrNil = ErrorString ''redigo: nil returned''"

fun reply_type :: "reply \<Rightarrow> string" where
  "reply_type (RInt i) = ''int64''"
| "reply_type (RBulk s) = ''[]uint8''"
| "reply_type (RSimple s) = ''string''"
| "reply_type RNil = ''<nil>''"
| "reply_type (RError e) = ''redis.Error''"
| "reply_type (RArray xs) = ''[]interface {}''"

definition unexpected_type :: "string \<Rightarrow> reply \<Rightarrow> goerr" where
  "unexpected_type name r =
     ErrorString (''redigo: unexpected type for '' @ name @ '', got type '' @ reply_type r)"

definition redigo_Int :: "goerr + reply \<Rightarrow> int \<times> goerr option" where
  "redigo_Int res = (case res of
     Inl e \<Rightarrow> (0, Some e)
   | Inr (RInt i) \<Rightarrow> (i, None)
   | Inr (RBulk s) \<Rightarrow> (case ParseInt s of Inl e \<Rightarrow> (0, Some e) | Inr i \<Rightarrow> (i, None))
   | Inr RNil \<Rightarrow> (0, Some ErrNil)
   | Inr (RError e) \<Rightarrow> (0, Some (ErrorString e))
   | Inr r \<Rightarrow> (0, Some (unexpected_type ''Int'' r)))"

definition redigo_String :: "goerr + reply \<Rightarrow> string \<times> goerr option" where
  "redigo_String res = (case res of
     Inl e \<Rightarrow> ([], Some e)
   | Inr (RBulk s) \<Rightarrow> (s, None)
   | Inr (RSimple s) \<Rightarrow> (s, None)
   | Inr RNil \<Rightarrow> ([], Some ErrNil)
   | Inr (RError e) \<Rightarrow> ([], Some (ErrorString e))
   | Inr r \<Rightarrow> ([], Some (unexpected_type ''String'' r)))"

fun assign_strings :: "reply list \<Rightarrow> goerr + string list" where
  "assign_strings [] = Inr []"
| "assign_strings (r # rs) =
     (case (case r of RNil \<Rightarrow> Inr [] | RSimple s \<Rightarrow> Inr s | RBulk s \<Rightarrow> Inr s
            | _ \<Rightarrow> Inl (ErrorString (''redigo: unexpected element type for Strings, got type ''
                @ reply_type r))) of
        Inl e \<Rightarrow> Inl e
      | Inr s \<Rightarrow> (case assign_strings rs of Inl e \<Rightarrow> Inl e | Inr ss \<Rightarrow> Inr (s # ss)))"

definition redigo_Strings :: "goerr + reply \<Rightarrow> goerr + string list" where
  "redigo_Strings res = (case res of
     Inl e \<Rightarrow> Inl e
   | Inr (RArray rs) \<Rightarrow> assign_strings rs
   | Inr RNil \<Rightarrow> Inl ErrNil
   | Inr (RError e) \<Rightarrow> Inl (ErrorString e)
   | Inr r \<Rightarrow> Inl (unexpected_type ''Strings'' r))"

subsection \<open>The real client\<close>

definition conn_Do :: "'w env \<Rightarrow> string \<Rightarrow> string list \<Rightarrow> (('w, 'r) sys_scheme, goerr + reply) state" where
  "conn_Do E cmd args = ext (RedisDo cmd args) (redis_do E cmd args)"

definition Client_GetInt :: "'w env \<Rightarrow> BaseRedisKey \<Rightarrow> (('w, 'r) sys_scheme, int \<times> goerr option) state" where
  "Client_GetInt E key = do {
     r \<leftarrow> conn_Do E ''GET'' [key_string key];
     State_Monad.return (case redigo_Int r of
       (val, None) \<Rightarrow> (val, None)
     | (_, Some e) \<Rightarrow> (-1, Some (Errorf (''could not get key '' @ key_string key @ '' as integer: '') e [])))
   }"

definition Client_GetBool :: "'w env \<Rightarrow> BaseRedisKey \<Rightarrow> (('w, 'r) sys_scheme, bool \<times> goerr option) state" where
  "Client_GetBool E key = do {
     r \<leftarrow> conn_Do E ''GET'' [key_string key];
     State_Monad.return (case redigo_Int r of
       (val, None) \<Rightarrow> (val = 1, None)
     | (_, Some e) \<Rightarrow> (False, Some (Errorf (''could not get key '' @ key_string key @ '' as boolean: '') e [])))
   }"

definition Client_GetString :: "'w env \<Rightarrow> BaseRedisKey \<Rightarrow> (('w, 'r) sys_scheme, string \<times> goerr option) state" where
  "Client_GetString E key = do {
     r \<leftarrow> conn_Do E ''GET'' [key_string key];
     State_Monad.return (case redigo_String r of
       (val, None) \<Rightarrow> (val, None)
     | (_, Some e) \<Rightarrow> ([], Some (Errorf (''could not get key '' @ key_string key @ '' as string: '') e [])))
   }"

definition Client_SetString :: "'w env \<Rightarrow> BaseRedisKey \<Rightarrow> string \<Rightarrow> (('w, 'r) sys_scheme, goerr option) state" where
  "Client_SetString E key value = do {
     r \<leftarrow> conn_Do E ''SET'' [key_string key, value];
     State_Monad.return (case r of
       Inl e \<Rightarrow> Some (Errorf (''could not set key '' @ key_string key @ '': '') e [])
     | Inr _ \<Rightarrow> None)
   }"

definition Client_AddToSortedSet ::
  "'w env \<Rightarrow> BaseRedisKey \<Rightarrow> int \<Rightarrow> string \<Rightarrow> (('w, 'r) sys_scheme, goerr option) state" where
  "Client_AddToSortedSet E key score element = do {
     r \<leftarrow> conn_Do E ''ZADD'' [key_string key, Itoa score, element];
     State_Monad.return (case r of
       Inl e \<Rightarrow> Some (Errorf (''could not ZADD key '' @ key_string key @ '': '') e [])
     | Inr _ \<Rightarrow> None)
   }"

definition Client_RemoveFromSortedSet ::
  "'w env \<Rightarrow> BaseRedisKey \<Rightarrow> string \<Rightarrow> (('w, 'r) sys_scheme, goerr option) state" where
  "Client_RemoveFromSortedSet E key element = do {
     r \<leftarrow> conn_Do E ''ZREM'' [key_string key, element];
     State_Monad.return (case r of
       Inl e \<Rightarrow> Some (Errorf (''could not ZREM key '' @ key_string key @ '' element '' @ element @ '': '') e [])
     | Inr _ \<Rightarrow> None)
   }"

definition Client_GetTopFromSortedSet ::
  "'w env \<Rightarrow> BaseRedisKey \<Rightarrow> (('w, 'r) sys_scheme, string \<times> goerr option) state" where
  "Client_GetTopFromSortedSet E key = do {
     r \<leftarrow> conn_Do E ''ZREVRANGE'' [key_string key, ''0'', ''0''];
     State_Monad.return (case redigo_Strings r of
       Inl e \<Rightarrow> ([], Some (Errorf (''could not ZREVRANGE key '' @ key_string key @ '': '') e []))
     | Inr elements \<Rightarrow>
         if length elements \<noteq> 1
         then ([], Some (ErrorString (''expected exactly one element, but got '' @ Itoa (int (length elements)))))
         else (elements ! 0, None))
   }"

text \<open>Both clients convert errors alike.\<close>

definition redis_ConvertErrorToErrorResponse :: "'w env \<Rightarrow> goerr \<Rightarrow> ErrorResponse" where
  "redis_ConvertErrorToErrorResponse E e = failure ErrorRedisError (err_text (Quote E) e)"

subsection \<open>The mock client\<close>

type_synonym mock_map = "string \<rightharpoonup> string"

text \<open>Reading a Go map: the zero value (the empty string) where the key is absent.\<close>

definition go_lookup :: "mock_map \<Rightarrow> string \<Rightarrow> string" where
  "go_lookup m k = (case m k of None \<Rightarrow> [] | Some v \<Rightarrow> v)"

text \<open>\<open>strconv.Atoi\<close> with both results: on a range error the value is the nearest bound.\<close>

definition Atoi_pair :: "string \<Rightarrow> int \<times> goerr option" where
  "Atoi_pair s = (case Atoi s of
     Inr i \<Rightarrow> (i, None)
   | Inl e \<Rightarrow> (if e = NumError ''Atoi'' s ErrRange
                then (if HasPrefix s ''-'' then int_min else int_max) else 0, Some e))"

definition Mock_SetString :: "mock_map \<Rightarrow> BaseRedisKey \<Rightarrow> string \<Rightarrow> mock_map" where
  "Mock_SetString m key value = m(key_string key \<mapsto> value)"

definition Mock_GetInt :: "mock_map \<Rightarrow> BaseRedisKey \<Rightarrow> int \<times> goerr option" where
  "Mock_GetInt m key = Atoi_pair (go_lookup m (key_string key))"

definition Mock_GetBool :: "mock_map \<Rightarrow> BaseRedisKey \<Rightarrow> bool \<times> goerr option" where
  "Mock_GetBool m key = (case Atoi_pair (go_lookup m (key_string key)) of
     (valAsInt, e) \<Rightarrow> (valAsInt = 1, e))"

definition Mock_GetString :: "mock_map \<Rightarrow> BaseRedisKey \<Rightarrow> string \<times> goerr option" where
  "Mock_GetString m key = (go_lookup m (key_string key), None)"

definition Mock_AddToSortedSet :: "mock_map \<Rightarrow> BaseRedisKey \<Rightarrow> int \<Rightarrow> string \<Rightarrow> goerr option" where
  "Mock_AddToSortedSet m key score element = None"

definition Mock_RemoveFromSortedSet :: "mock_map \<Rightarrow> BaseRedisKey \<Rightarrow> string \<Rightarrow> goerr option" where
  "Mock_RemoveFromSortedSet m key element = None"

definition Mock_GetTopFromSortedSet :: "mock_map \<Rightarrow> BaseRedisKey \<Rightarrow> string \<times> goerr option" where
  "Mock_GetTopFromSortedSet m key = (''dummy mock'', None)"

definition setupTestData :: mock_map where
  "setupTestData = Map.empty(
     key_string BaseVersion \<mapsto> ''0.0.1'',
     key_string BaseHostname \<mapsto> ''bitbox-base-redis-mock'',
     key_string TorEnabled \<mapsto> ''1'',
     key_string BitcoindListen \<mapsto> ''1'',
     key_string MiddlewarePasswordSet \<mapsto> ''0'',
     key_string BaseSetupDone \<mapsto> ''0'',
     key_string MiddlewareAuth \<mapsto>
       [CHR ''{'', CHR 0x22] @ ''admin'' @ [CHR 0x22] @ '':{'' @ [CHR 0x22] @ ''password'' @ [CHR 0x22]
       @ '':'' @ [CHR 0x22] @ ''ICanHasPasword?'' @ [CHR 0x22] @ '','' @ [CHR 0x22] @ ''role'' @ [CHR 0x22]
       @ '':'' @ [CHR 0x22] @ ''admin'' @ [CHR 0x22] @ ''}}'',
     ''test:getBooleanFromRedis:true'' \<mapsto> ''1'',
     ''test:getBooleanFromRedis:false1'' \<mapsto> ''0'',
     ''test:getBooleanFromRedis:false2'' \<mapsto> ''3'',
     ''test:getBooleanFromRedis:false3'' \<mapsto> ''abc'',
     ''test:getStringFromRedis:abc'' \<mapsto> ''abc'',
     ''test:getStringFromRedis:empty'' \<mapsto> [])"

subsection \<open>The interface\<close>

text \<open>
  The value of the interface type \<open>Redis\<close> held by the middleware: the real client (its pool
  dials the given port) or the mock, whose map is mutable state.
\<close>

datatype redis_client = Client string | MockClient mock_map

record 'w redis_sys = "'w sys" +
  redisClient :: redis_client

definition NewClient :: "'w env \<Rightarrow> string \<Rightarrow> (('w, 'r) sys_scheme, redis_client) state" where
  "NewClient E port = do { _ \<leftarrow> conn_Do E ''PING'' []; State_Monad.return (Client port) }"

definition NewMockClient :: "string \<Rightarrow> redis_client" where
  "NewMockClient port = MockClient setupTestData"

text \<open>A method call through the interface.\<close>

definition via_client ::
  "(('w, 'r) redis_sys_scheme, 'a) state \<Rightarrow> (mock_map \<Rightarrow> 'a \<times> mock_map) \<Rightarrow>
   (('w, 'r) redis_sys_scheme, 'a) state" where
  "via_client client mock = do {
     c \<leftarrow> gets redisClient;
     (case c of
        Client port \<Rightarrow> client
      | MockClient m \<Rightarrow> (case mock m of (a, m') \<Rightarrow> do {
          _ \<leftarrow> modify (\<lambda>s. s\<lparr>redisClient := MockClient m'\<rparr>);
          State_Monad.return a }))
   }"

definition redis_GetInt :: "'w env \<Rightarrow> BaseRedisKey \<Rightarrow> (('w, 'r) redis_sys_scheme, int \<times> goerr option) state" where
  "redis_GetInt E key = via_client (Client_GetInt E key) (\<lambda>m. (Mock_GetInt m key, m))"

definition redis_GetBool :: "'w env \<Rightarrow> BaseRedisKey \<Rightarrow> (('w, 'r) redis_sys_scheme, bool \<times> goerr option) state" where
  "redis_GetBool E key = via_client (Client_GetBool E key) (\<lambda>m. (Mock_GetBool m key, m))"

definition redis_GetString ::
  "'w env \<Rightarrow> BaseRedisKey \<Rightarrow> (('w, 'r) redis_sys_scheme, string \<times> goerr option) state" where
  "redis_GetString E key = via_client (Client_GetString E key) (\<lambda>m. (Mock_GetString m key, m))"

definition redis_SetString ::
  "'w env \<Rightarrow> BaseRedisKey \<Rightarrow> string \<Rightarrow> (('w, 'r) redis_sys_scheme, goerr option) state" where
  "redis_SetString E key value =
     via_client (Client_SetString E key value) (\<lambda>m. (None, Mock_SetString m key value))"

definition redis_AddToSortedSet ::
  "'w env \<Rightarrow> BaseRedisKey \<Rightarrow> int \<Rightarrow> string \<Rightarrow> (('w, 'r) redis_sys_scheme, goerr option) state" where
  "redis_AddToSortedSet E key score element = via_client (Client_AddToSortedSet E key score element)
     (\<lambda>m. (Mock_AddToSortedSet m key score element, m))"

definition redis_RemoveFromSortedSet ::
  "'w env \<Rightarrow> BaseRedisKey \<Rightarrow> string \<Rightarrow> (('w, 'r) redis_sys_scheme, goerr option) state" where
  "redis_RemoveFromSortedSet E key element = via_client (Client_RemoveFromSortedSet E key element)
     (\<lambda>m. (Mock_RemoveFromSortedSet m key element, m))"

definition redis_GetTopFromSortedSet ::
  "'w env \<Rightarrow> BaseRedisKey \<Rightarrow> (('w, 'r) redis_sys_scheme, string \<times> goerr option) state" where
  "redis_GetTopFromSortedSet E key = via_client (Client_GetTopFromSortedSet E key)
     (\<lambda>m. (Mock_GetTopFromSortedSet m key, m))"

subsection \<open>Frames\<close>

lemmas client_defs = Client_GetInt_def Client_GetBool_def Client_GetString_def Client_SetString_def
  Client_AddToSortedSet_def Client_RemoveFromSortedSet_def Client_GetTopFromSortedSet_def conn_Do_def

lemmas redis_defs = redis_GetInt_def redis_GetBool_def redis_GetString_def redis_SetString_def
  redis_AddToSortedSet_def redis_RemoveFromSortedSet_def redis_GetTopFromSortedSet_def

definition untouched_by_redis :: "(('w, 'r) redis_sys_scheme \<Rightarrow> 'b) \<Rightarrow> bool" where
  "untouched_by_redis f \<longleftrightarrow> (\<forall>s w t c. f (s\<lparr>world := w, trace := t, redisClient := c\<rparr>) = f s)"

lemma untouchedD:
  assumes "untouched_by_redis f"
  shows "f (s\<lparr>world := w, trace := t\<rparr>) = f s" "f (s\<lparr>redisClient := c\<rparr>) = f s"
proof -
  have "s\<lparr>world := w, trace := t\<rparr> = s\<lparr>world := w, trace := t, redisClient := redisClient s\<rparr>" 
    "s\<lparr>redisClient := c\<rparr> = s\<lparr>world := world s, trace := trace s, redisClient := c\<rparr>"
    by simp_all
  with assms show "f (s\<lparr>world := w, trace := t\<rparr>) = f s" "f (s\<lparr>redisClient := c\<rparr>) = f s"
    unfolding untouched_by_redis_def by metis+
qed

lemma keeps_via_client:
  "untouched_by_redis f \<Longrightarrow> keeps f client \<Longrightarrow> keeps f (via_client client mock)"
  unfolding via_client_def
  by (intro keeps_intros)
     (auto intro!: keeps_intros simp: untouchedD split: redis_client.split prod.split)

lemma keeps_redis [keeps_intros]:
  assumes "untouched_by_redis f"
  shows "keeps f (redis_GetInt E k)" "keeps f (redis_GetBool E k)" "keeps f (redis_GetString E k)"
    "keeps f (redis_SetString E k v)" "keeps f (redis_AddToSortedSet E k i v)"
    "keeps f (redis_RemoveFromSortedSet E k v)" "keeps f (redis_GetTopFromSortedSet E k)"
  unfolding redis_defs
  by (intro keeps_via_client assms; simp only: client_defs;
      intro keeps_intros; simp add: untouchedD(1) [OF assms])+

text \<open>Every effect of the Redis operations is a command sent to the server.\<close>

definition is_redis :: "effect \<Rightarrow> bool" where
  "is_redis e \<longleftrightarrow> (\<exists>cmd args. e = RedisDo cmd args)"

lemma emits_via_client: "emits Q client \<Longrightarrow> emits Q (via_client client mock)"
  unfolding via_client_def
  by (intro emits_intros) (auto intro!: emits_intros split: redis_client.split prod.split)

lemma emits_redis [emits_intros]:
  assumes "\<And>cmd args. Q (RedisDo cmd args)"
  shows "emits Q (redis_GetInt E k)" "emits Q (redis_GetBool E k)" "emits Q (redis_GetString E k)"
    "emits Q (redis_SetString E k v)" "emits Q (redis_AddToSortedSet E k i v)"
    "emits Q (redis_RemoveFromSortedSet E k v)" "emits Q (redis_GetTopFromSortedSet E k)"
  unfolding redis_defs
  by (intro emits_via_client; simp only: client_defs; intro emits_intros assms)+

subsection \<open>What the callers rely on\<close>

locale kv_store =
  fixes get_string :: "BaseRedisKey \<Rightarrow> ('s, string \<times> goerr option) state"
    and get_bool :: "BaseRedisKey \<Rightarrow> ('s, bool \<times> goerr option) state"
    and set_string :: "BaseRedisKey \<Rightarrow> string \<Rightarrow> ('s, goerr option) state"
    and contents :: "'s \<Rightarrow> BaseRedisKey \<Rightarrow> string"
    and valid :: "'s \<Rightarrow> bool"
  assumes get_string_law: "valid s \<Longrightarrow> run_state (get_string k) s = ((v, e), s') \<Longrightarrow>
      valid s' \<and> contents s' = contents s \<and> (e = None \<longrightarrow> v = contents s k)"
    and get_bool_law: "valid s \<Longrightarrow> run_state (get_bool k) s = ((b, e), s') \<Longrightarrow>
      valid s' \<and> contents s' = contents s \<and>
      (e = None \<longrightarrow> (\<exists>i. ParseInt (contents s k) = Inr i \<and> b = (i = 1)))"
    and set_string_law: "valid s \<Longrightarrow> run_state (set_string k v) s = (e, s') \<Longrightarrow>
      valid s' \<and> (e = None \<longrightarrow> contents s' k = v) \<and> (\<forall>l. l \<noteq> k \<longrightarrow> contents s' l = contents s l)"
begin

lemma set_then_get:
  assumes "valid s" "run_state (set_string k v) s = (None, s')"
    and "run_state (get_string k) s' = ((w, None), s'')"
  shows "w = v"
  using set_string_law [OF assms(1,2)] get_string_law [OF _ assms(3)] by simp

lemma get_keeps:
  "valid s \<Longrightarrow> contents (snd (run_state (get_string k) s)) = contents s"
  "valid s \<Longrightarrow> contents (snd (run_state (get_bool k) s)) = contents s"
  using get_string_law [of s k] get_bool_law [of s k] by (metis prod.collapse)+

lemma ops_keep_valid:
  "valid s \<Longrightarrow> valid (snd (run_state (get_string k) s))"
  "valid s \<Longrightarrow> valid (snd (run_state (get_bool k) s))"
  "valid s \<Longrightarrow> valid (snd (run_state (set_string k v) s))"
  using get_string_law [of s k] get_bool_law [of s k] set_string_law [of s k v]
  by (metis prod.collapse)+

lemma set_keeps_others:
  "valid s \<Longrightarrow> l \<noteq> k \<Longrightarrow> contents (snd (run_state (set_string k v) s)) l = contents s l"
  using set_string_law [of s k v] by (metis prod.collapse)

lemma set_one_reads_true:
  assumes "valid s" "run_state (set_string k ''1'') s = (None, s')"
    and "run_state (get_bool k) s' = ((b, None), s'')"
  shows b
proof -
  have "contents s' k = ''1''" "valid s'" using set_string_law [OF assms(1,2)] by auto
  moreover have "ParseInt ''1'' = Inr 1" using ParseInt_Itoa [of 1]
    by (simp add: Itoa_def itoa_nat.simps digit_char_def int_min_def int_max_def)
  ultimately show ?thesis using get_bool_law [OF _ assms(3)] by auto
qed

end

text \<open>The documented behaviour of \<open>GET\<close> and \<open>SET\<close> of a server whose string keys are \<open>db\<close>.\<close>

definition redis_server :: "'w env \<Rightarrow> ('w \<Rightarrow> mock_map) \<Rightarrow> bool" where
  "redis_server E db \<longleftrightarrow>
     (\<forall>k w. db (snd (redis_do E ''GET'' [k] w)) = db w \<and>
        (\<forall>r. fst (redis_do E ''GET'' [k] w) = Inr r \<longrightarrow>
           r = (case db w k of None \<Rightarrow> RNil | Some v \<Rightarrow> RBulk v))) \<and>
     (\<forall>k v w. (\<forall>l. l \<noteq> k \<longrightarrow> db (snd (redis_do E ''SET'' [k, v] w)) l = db w l) \<and>
        (\<forall>r. fst (redis_do E ''SET'' [k, v] w) = Inr r \<longrightarrow> db (snd (redis_do E ''SET'' [k, v] w)) k = Some v))"

text \<open>Hashing, drawing random bytes and HTTP requests do not touch the Redis database.\<close>

definition local_computation :: "'w env \<Rightarrow> ('w \<Rightarrow> mock_map) \<Rightarrow> bool" where
  "local_computation E db \<longleftrightarrow>
     (\<forall>p c w. db (snd (bcrypt_generate E p c w)) = db w) \<and> (\<forall>n w. db (snd (rand_read E n w)) = db w) \<and>
     (\<forall>url w. db (snd (http_get E url w)) = db w)"

definition store_contents ::
  "('w \<Rightarrow> mock_map) \<Rightarrow> ('w, 'r) redis_sys_scheme \<Rightarrow> BaseRedisKey \<Rightarrow> string" where
  "store_contents db s k = (case redisClient s of
     MockClient m \<Rightarrow> go_lookup m (key_string k)
   | Client _ \<Rightarrow> go_lookup (db (world s)) (key_string k))"

definition store_valid :: "'w env \<Rightarrow> ('w \<Rightarrow> mock_map) \<Rightarrow> ('w, 'r) redis_sys_scheme \<Rightarrow> bool" where
  "store_valid E db s = (case redisClient s of MockClient m \<Rightarrow> True | Client _ \<Rightarrow> redis_server E db)"

lemma redis_serverD:
  assumes "redis_server E db"
  shows "db (snd (redis_do E ''GET'' [k] w)) = db w"
    "fst (redis_do E ''GET'' [k] w) = Inr r \<Longrightarrow> r = (case db w k of None \<Rightarrow> RNil | Some v \<Rightarrow> RBulk v)"
    "l \<noteq> k \<Longrightarrow> db (snd (redis_do E ''SET'' [k, v] w)) l = db w l"
    "fst (redis_do E ''SET'' [k, v] w) = Inr r \<Longrightarrow> db (snd (redis_do E ''SET'' [k, v] w)) k = Some v"
  using assms by (auto simp: redis_server_def)

lemma parse_int_name: "parse_int fn s = Inr i \<Longrightarrow> parse_int fn' s = Inr i"
  by (auto simp: parse_int_def Let_def split: if_splits)

lemma Atoi_pair_None: "Atoi_pair s = (i, None) \<Longrightarrow> ParseInt s = Inr i"
  by (auto simp: Atoi_pair_def Atoi_def ParseInt_def split: sum.splits intro: parse_int_name)

lemma redigo_Int_GET:
  "redis_server E db \<Longrightarrow> redigo_Int (fst (redis_do E ''GET'' [k] w)) = (i, None) \<Longrightarrow>
   ParseInt (go_lookup (db w) k) = Inr i"
  by (auto simp: redigo_Int_def go_lookup_def dest!: redis_serverD(2)
      split: sum.splits option.splits reply.splits)

lemma redigo_String_GET:
  "redis_server E db \<Longrightarrow> redigo_String (fst (redis_do E ''GET'' [k] w)) = (v, None) \<Longrightarrow>
   v = go_lookup (db w) k"
  by (auto simp: redigo_String_def go_lookup_def dest!: redis_serverD(2)
      split: sum.splits option.splits reply.splits)

lemma store_simps [simp]:
  "redisClient s = MockClient m \<Longrightarrow> store_contents db s = (\<lambda>k. go_lookup m (key_string k))"
  "redisClient s = Client port \<Longrightarrow> store_contents db s = (\<lambda>k. go_lookup (db (world s)) (key_string k))"
  "redisClient s = MockClient m \<Longrightarrow> store_valid E db s"
  "redisClient s = Client port \<Longrightarrow> store_valid E db s = redis_server E db"
  by (auto simp: store_contents_def store_valid_def fun_eq_iff)

lemma run_via_client:
  "redisClient s = Client port \<Longrightarrow> run_state (via_client client mock) s = run_state client s"
  "redisClient s = MockClient m \<Longrightarrow>
   run_state (via_client client mock) s = (fst (mock m), s\<lparr>redisClient := MockClient (snd (mock m))\<rparr>)"
  by (auto simp: via_client_def split: prod.splits)

lemma get_string_store:
  assumes "store_valid E db s" "run_state (redis_GetString E k) s = ((v, e), s')"
  shows "store_valid E db s' \<and> store_contents db s' = store_contents db s
    \<and> (e = None \<longrightarrow> v = store_contents db s k)"
proof (cases "redisClient s")
  case (Client port)
  then have r: "redis_server E db" using assms(1) by simp
  show ?thesis using Client assms r redis_serverD(1) [OF r] redigo_String_GET [OF r, of "key_string k" "world s"]
    by (auto simp: redis_GetString_def run_via_client Client_GetString_def conn_Do_def
        split: prod.splits option.splits)
next
  case (MockClient m)
  then show ?thesis using assms by (auto simp: redis_GetString_def run_via_client Mock_GetString_def)
qed

lemma get_bool_store:
  assumes "store_valid E db s" "run_state (redis_GetBool E k) s = ((b, e), s')"
  shows "store_valid E db s' \<and> store_contents db s' = store_contents db s
    \<and> (e = None \<longrightarrow> (\<exists>i. ParseInt (store_contents db s k) = Inr i \<and> b = (i = 1)))"
proof (cases "redisClient s")
  case (Client port)
  then have r: "redis_server E db" using assms(1) by simp
  show ?thesis using Client assms r redis_serverD(1) [OF r] redigo_Int_GET [OF r, of "key_string k" "world s"]
    by (auto simp: redis_GetBool_def run_via_client Client_GetBool_def conn_Do_def
        split: prod.splits option.splits)
next
  case (MockClient m)
  then show ?thesis using assms Atoi_pair_None [of "go_lookup m (key_string k)"]
    by (auto simp: redis_GetBool_def run_via_client Mock_GetBool_def split: prod.splits)
qed

lemma set_string_store:
  assumes "store_valid E db s" "run_state (redis_SetString E k v) s = (e, s')"
  shows "store_valid E db s' \<and> (e = None \<longrightarrow> store_contents db s' k = v)
    \<and> (\<forall>l. l \<noteq> k \<longrightarrow> store_contents db s' l = store_contents db s l)"
proof (cases "redisClient s")
  case (Client port)
  then have r: "redis_server E db" using assms(1) by simp
  have l: "db (snd (redis_do E ''SET'' [key_string k, v] (world s))) (key_string l) = db (world s) (key_string l)"
    if "l \<noteq> k" for l
    using redis_serverD(3) [OF r] that by simp
  show ?thesis using Client assms r redis_serverD(4) [OF r, of "key_string k" v "world s"] l
    by (auto simp: redis_SetString_def run_via_client Client_SetString_def conn_Do_def go_lookup_def
        split: sum.splits)
next
  case (MockClient m)
  then show ?thesis using assms
    by (auto simp: redis_SetString_def run_via_client Mock_SetString_def go_lookup_def)
qed

interpretation store: kv_store "redis_GetString E" "redis_GetBool E" "redis_SetString E"
  "store_contents db" "store_valid E db" for E db
  by unfold_locales (blast dest: get_string_store get_bool_store set_string_store)+

end
