(* ===== verification/Authentication.thy ===== *)
theory Authentication
  imports Rpcmessages
begin

text \<open>
  Package \<open>authentication\<close> (middleware/src/authentication): the signing key, made once from 32
  random bytes, and the issuing and checking of JSON web tokens.  Signing and parsing are
  \<open>jwt-go\<close>'s (\<open>jwt_sign\<close>, \<open>jwt_parse\<close>); \<open>jwt_library\<close> states what its documentation promises of
  HS256 tokens with a non-zero expiry.

  The locale \<open>token_service\<close> is the contract the RPC server relies on: a token is good for its
  lifetime and not beyond, and reading it back needs the key it was issued with.
\<close>

subsection \<open>The signing key\<close>

text \<open>\<open>base64.URLEncoding\<close>, with padding.\<close>

definition b64_char :: "nat \<Rightarrow> char" where
  "b64_char d = ''ABCDEFGHIJKLMNOPQRSTUVWXYZabcdefghijklmnopqrstuvwxyz0123456789-_'' ! d"

fun URLEncoding :: "string \<Rightarrow> string" where
  "URLEncoding (a # b # c # rest) =
     [b64_char (byte a div 4), b64_char (byte a mod 4 * 16 + byte b div 16),
      b64_char (byte b mod 16 * 4 + byte c div 64), b64_char (byte c mod 64)] @ URLEncoding rest"
| "URLEncoding [a, b] =
     [b64_char (byte a div 4), b64_char (byte a mod 4 * 16 + byte b div 16),
      b64_char (byte b mod 16 * 4), CHR ''='']"
| "URLEncoding [a] = [b64_char (byte a div 4), b64_char (byte a mod 4 * 16), CHR ''='', CHR ''='']"
| "URLEncoding [] = []"

lemma length_URLEncoding: "length (URLEncoding s) = 4 * ((length s + 2) div 3)"
  by (induction s rule: URLEncoding.induct) (simp_all, presburger)

definition generateRandomBytes :: "'w env \<Rightarrow> nat \<Rightarrow> (('w, 'r) sys_scheme, string \<times> goerr option) state" where
  "generateRandomBytes E n = do {
     r \<leftarrow> ext (RandRead n) (rand_read E n);
     State_Monad.return (case r of Inl e \<Rightarrow> ([], Some e) | Inr b \<Rightarrow> (b, None))
   }"

definition generateRandomString :: "'w env \<Rightarrow> nat \<Rightarrow> (('w, 'r) sys_scheme, string \<times> goerr option) state" where
  "generateRandomString E n = do {
     (b, e) \<leftarrow> generateRandomBytes E n;
     State_Monad.return (URLEncoding b, e)
   }"

text \<open>\<open>NewJwtAuth\<close>; a \<open>JwtAuth\<close> is its key.\<close>

definition NewJwtAuth :: "'w env \<Rightarrow> (('w, 'r) sys_scheme, string \<times> goerr option) state" where
  "NewJwtAuth E = do {
     (JwtKey, e) \<leftarrow> generateRandomString E 32;
     State_Monad.return (case e of Some err \<Rightarrow> ([], Some err) | None \<Rightarrow> (JwtKey, None))
   }"

lemma keeps_NewJwtAuth [keeps_intros]:
  "(\<And>s w t. f (s\<lparr>world := w, trace := t\<rparr>) = f s) \<Longrightarrow> keeps f (NewJwtAuth E)"
  unfolding NewJwtAuth_def generateRandomString_def generateRandomBytes_def
  by (intro keeps_intros)

subsection \<open>Tokens\<close>

text \<open>24 hours, in seconds.\<close>

definition token_lifetime :: int where
  "token_lifetime = 24 * 60 * 60"

definition GenerateToken_at :: "'w env \<Rightarrow> string \<Rightarrow> string \<Rightarrow> int \<Rightarrow> goerr + string" where
  "GenerateToken_at E jwtKey username now =
     jwt_sign E \<lparr>claim_username = username, claim_expires_at = now + token_lifetime\<rparr> jwtKey"

definition GenerateToken :: "'w env \<Rightarrow> string \<Rightarrow> string \<Rightarrow> (('w, 'r) sys_scheme, goerr + string) state" where
  "GenerateToken E jwtKey username = gets (\<lambda>s. GenerateToken_at E jwtKey username (clock E (world s)))"

definition ValidateToken_at :: "'w env \<Rightarrow> string \<Rightarrow> string \<Rightarrow> int \<Rightarrow> goerr option" where
  "ValidateToken_at E jwtKey tokenStr now = (case jwt_parse E tokenStr jwtKey now of
     Inl e \<Rightarrow> Some e
   | Inr valid \<Rightarrow> if \<not> valid then Some (ErrorString ''invalid jwt token received'') else None)"

definition jwt_ValidateToken :: "'w env \<Rightarrow> string \<Rightarrow> string \<Rightarrow> (('w, 'r) sys_scheme, goerr option) state" where
  "jwt_ValidateToken E jwtKey tokenStr = gets (\<lambda>s. ValidateToken_at E jwtKey tokenStr (clock E (world s)))"

text \<open>
  What the library documents: a token signed with a key and carrying an expiry parses as valid
  with that key until that second and fails afterwards; a token that parses as valid was
  signed with the key.
\<close>

definition jwt_library :: "'w env \<Rightarrow> bool" where
  "jwt_library E \<longleftrightarrow>
     (\<forall>c key tok now. jwt_sign E c key = Inr tok \<longrightarrow> claim_expires_at c \<noteq> 0 \<longrightarrow>
        (if now \<le> claim_expires_at c then jwt_parse E tok key now = Inr True
         else \<exists>e. jwt_parse E tok key now = Inl e)) \<and>
     (\<forall>tok key now. jwt_parse E tok key now = Inr True \<longrightarrow> (\<exists>c. jwt_sign E c key = Inr tok))"

lemma jwt_libraryD:
  assumes "jwt_library E"
  shows "jwt_sign E c key = Inr tok \<Longrightarrow> claim_expires_at c \<noteq> 0 \<Longrightarrow> now \<le> claim_expires_at c \<Longrightarrow>
      jwt_parse E tok key now = Inr True"
    and "jwt_sign E c key = Inr tok \<Longrightarrow> claim_expires_at c \<noteq> 0 \<Longrightarrow> claim_expires_at c < now \<Longrightarrow>
      \<exists>e. jwt_parse E tok key now = Inl e"
    and "jwt_parse E tok key now = Inr True \<Longrightarrow> \<exists>c. jwt_sign E c key = Inr tok"
  using assms unfolding jwt_library_def by (meson linorder_not_less)+

locale token_service =
  fixes issue :: "'key \<Rightarrow> 'user \<Rightarrow> int \<Rightarrow> 'err + 'token"
    and check :: "'key \<Rightarrow> 'token \<Rightarrow> int \<Rightarrow> 'err option"
    and issued :: "'key \<Rightarrow> 'token \<Rightarrow> bool"
    and lifetime :: int
    and works :: bool
  assumes fresh: "works \<Longrightarrow> issue k u t = Inr tok \<Longrightarrow> 0 < t \<Longrightarrow> t' \<le> t + lifetime \<Longrightarrow> check k tok t' = None"
    and expired: "works \<Longrightarrow> issue k u t = Inr tok \<Longrightarrow> 0 < t \<Longrightarrow> t + lifetime < t' \<Longrightarrow> check k tok t' \<noteq> None"
    and genuine: "works \<Longrightarrow> check k tok t = None \<Longrightarrow> issued k tok"
begin

text \<open>Acceptance is decided by the age of the token alone.\<close>

lemma accepted_iff:
  "works \<Longrightarrow> issue k u t = Inr tok \<Longrightarrow> 0 < t \<Longrightarrow> check k tok t' = None \<longleftrightarrow> t' \<le> t + lifetime"
  using fresh [of k u t tok t'] expired [of k u t tok t'] by (metis linorder_not_less)

lemma stays_expired:
  "works \<Longrightarrow> issue k u t = Inr tok \<Longrightarrow> 0 < t \<Longrightarrow> check k tok t' \<noteq> None \<Longrightarrow> t' \<le> t'' \<Longrightarrow>
   check k tok t'' \<noteq> None"
  using accepted_iff [of k u t tok t'] accepted_iff [of k u t tok t''] by (metis order_trans)

end

interpretation jwt: token_service "GenerateToken_at E" "ValidateToken_at E"
  "\<lambda>key tok. \<exists>c. jwt_sign E c key = Inr tok" token_lifetime "jwt_library E" for E
proof
  fix k u t tok t'
  assume lib: "jwt_library E" and gen: "GenerateToken_at E k u t = Inr tok" and pos: "0 < t"
  then have c: "jwt_sign E \<lparr>claim_username = u, claim_expires_at = t + token_lifetime\<rparr> k = Inr tok"
      "t + token_lifetime \<noteq> 0"
    by (simp_all add: GenerateToken_at_def token_lifetime_def)
  show "ValidateToken_at E k tok t' = None" if "t' \<le> t + token_lifetime"
    using jwt_libraryD(1) [OF lib c(1)] c(2) that by (simp add: ValidateToken_at_def)
  show "ValidateToken_at E k tok t' \<noteq> None" if "t + token_lifetime < t'"
    using jwt_libraryD(2) [OF lib c(1), of t'] c(2) that by (auto simp: ValidateToken_at_def)
next
  fix k tok t
  assume lib: "jwt_library E" and "ValidateToken_at E k tok t = None"
  then have "jwt_parse E tok k t = Inr True"
    by (auto simp: ValidateToken_at_def split: sum.splits if_splits)
  then show "\<exists>c. jwt_sign E c k = Inr tok" using jwt_libraryD(3) [OF lib] by blast
qed

end
