(* ===== verification/Simulation.thy ===== *)
theory Simulation
  imports Redis Authentication
begin

text \<open>
  A concrete outside world: an in-memory key-value server, a clock, commands whose results are
  a table, a plain-text stand-in for bcrypt and for signed tokens.  It satisfies the
  documented behaviour the properties assume of the real services (\<open>sim_redis_server\<close>,
  \<open>sim_jwt_library\<close>, \<open>sim_bcrypt_library\<close>), so those assumptions can hold together; the witnesses of the properties
  run in it.
\<close>

record sim =
  sim_db :: mock_map
  sim_now :: int
  sim_scripts :: "(string list \<times> string \<times> exec_error option) list"
  sim_update :: update_run
  sim_pages :: "(string \<times> string) list"
  sim_hsm :: "goerr option"

definition sim_redis :: "string \<Rightarrow> string list \<Rightarrow> sim \<Rightarrow> (goerr + reply) \<times> sim" where
  "sim_redis cmd args w =
     (if cmd = ''GET'' \<and> length args = 1 then
        (Inr (case sim_db w (args ! 0) of None \<Rightarrow> RNil | Some v \<Rightarrow> RBulk v), w)
      else if cmd = ''SET'' \<and> length args = 2 then
        (Inr (RSimple ''OK''), w\<lparr>sim_db := (sim_db w)(args ! 0 \<mapsto> args ! 1)\<rparr>)
      else (Inr (RError ''ERR unknown command''), w))"

definition sim_exec :: "string \<Rightarrow> string list \<Rightarrow> sim \<Rightarrow> (string \<times> exec_error option) \<times> sim" where
  "sim_exec cmd args w =
     ((case map_of (sim_scripts w) args of None \<Rightarrow> ([], None) | Some r \<Rightarrow> r), w)"

definition sim_token :: "claims \<Rightarrow> string \<Rightarrow> string" where
  "sim_token c key = Itoa (claim_expires_at c) @ [CHR '':''] @ key"

definition sim_sign :: "claims \<Rightarrow> string \<Rightarrow> goerr + string" where
  "sim_sign c key = (if int_min \<le> claim_expires_at c \<and> claim_expires_at c \<le> int_max
     then Inr (sim_token c key) else Inl (ErrorString ''expiry out of range''))"

definition sim_parse :: "string \<Rightarrow> string \<Rightarrow> int \<Rightarrow> goerr + bool" where
  "sim_parse tok key now = (case Atoi (takeWhile (\<lambda>c. c \<noteq> CHR '':'') tok) of
     Inl e \<Rightarrow> Inl e
   | Inr i \<Rightarrow> if tok \<noteq> Itoa i @ [CHR '':''] @ key then Inl (ErrorString ''signature is invalid'')
       else if i < now then Inl (ErrorString ''token is expired'') else Inr True)"

definition sim_semver :: "string \<Rightarrow> semver option \<times> goerr option" where
  "sim_semver s = (case map Atoi (Split s (CHR ''.'')) of
     [Inr a, Inr b, Inr c] \<Rightarrow> (Some (nat a, nat b, nat c), None)
   | _ \<Rightarrow> (None, Some (ErrorString ''invalid version'')))"

definition sim_at_least :: "semver option \<Rightarrow> semver option \<Rightarrow> bool go" where
  "sim_at_least v w = (case (v, w) of
     (Some (a, b, c), Some (a', b', c')) \<Rightarrow>
       Ret (a' < a \<or> a' = a \<and> (b' < b \<or> b' = b \<and> c' \<le> c))
   | _ \<Rightarrow> Panic)"

definition sim_hash :: "string \<Rightarrow> string" where
  "sim_hash pw = CHR ''$'' # concat (map (\<lambda>c. [hex_digit (byte c div 16), hex_digit (byte c mod 16)]) pw)"

definition sim_gjson_get :: "string \<Rightarrow> string \<Rightarrow> json option" where
  "sim_gjson_get s path = foldl (\<lambda>r k. case r of Some (JObject ms) \<Rightarrow> map_of ms k | _ \<Rightarrow> None)
     (json_parse s) (Split path (CHR ''.''))"

definition sim_env :: "sim env" where
  "sim_env = \<lparr>
     exec_combined = sim_exec,
     exec_update = (\<lambda>cmd args w. (sim_update w, w)),
     look_path = (\<lambda>cmd w. (None, w)),
     spawn = (\<lambda>delay cmd args w. w),
     redis_do = sim_redis,
     http_get = (\<lambda>url w. (case map_of (sim_pages w) url of
        None \<Rightarrow> Inl (ErrorString ''connection refused'') | Some p \<Rightarrow> Inr (Inr p), w)),
     clock = sim_now,
     rand_read = (\<lambda>n w. (Inr (replicate n (CHR ''x'')), w)),
     bcrypt_generate = (\<lambda>pw cost w. (Inr (sim_hash pw), w)),
     bcrypt_compare = (\<lambda>h pw. if h = sim_hash pw then None
        else Some (ErrorString ''hashedPassword is not the hash of the given password'')),
     jwt_sign = sim_sign,
     jwt_parse = sim_parse,
     semver_parse = sim_semver,
     semver_at_least = sim_at_least,
     semver_string = (\<lambda>v. case v of None \<Rightarrow> Panic
       | Some (a, b, c) \<Rightarrow> Ret (Join (map (\<lambda>n. Itoa (int n)) [a, b, c]) ''.'')),
     gjson_valid = (\<lambda>s. json_parse s \<noteq> None),
     gjson_get = sim_gjson_get,
     gjson_string = (\<lambda>j. case j of JString s \<Rightarrow> s | _ \<Rightarrow> []),
     gjson_int = (\<lambda>j. case j of JString s \<Rightarrow> (case ParseInt s of Inl e \<Rightarrow> 0 | Inr i \<Rightarrow> i) | _ \<Rightarrow> 0),
     gjson_float = (\<lambda>j. Fin 0),
     parse_ip6_to4 = (\<lambda>s. None),
     hsm_set_config = (\<lambda>ip host w. (sim_hsm w, w)),
     hsm_confirm_pairing = (\<lambda>h w. (sim_hsm w, w)),
     hsm_heartbeat = (\<lambda>w. (sim_hsm w, w)),
     is_error_abort = (\<lambda>e. e = Some (ErrorString ''aborted'')),
     Quote = (\<lambda>s. [quote_char] @ s @ [quote_char])\<rparr>"

lemma sim_env_simps [simp]:
  "exec_combined sim_env = sim_exec" "exec_update sim_env cmd args w = (sim_update w, w)"
  "look_path sim_env cmd w = (None, w)" "spawn sim_env delay cmd args w = w"
  "redis_do sim_env = sim_redis" "clock sim_env = sim_now"
  "snd (http_get sim_env url w) = w"
  "rand_read sim_env n w = (Inr (replicate n (CHR ''x'')), w)"
  "jwt_sign sim_env = sim_sign" "jwt_parse sim_env = sim_parse" "semver_parse sim_env = sim_semver" "semver_at_least sim_env = sim_at_least"
  "hsm_set_config sim_env ip host w = (sim_hsm w, w)"
  "hsm_confirm_pairing sim_env h w = (sim_hsm w, w)" "hsm_heartbeat sim_env w = (sim_hsm w, w)"
  "bcrypt_generate sim_env pw cost w = (Inr (sim_hash pw), w)"
  "bcrypt_compare sim_env h pw = (if h = sim_hash pw then None
     else Some (ErrorString ''hashedPassword is not the hash of the given password''))"
  by (simp_all add: sim_env_def)

lemma hex_digit_ascii: "d < 16 \<Longrightarrow> byte (hex_digit d) < 128"
proof -
  assume "d < 16"
  then have "d \<in> {0, 1, 2, 3, 4, 5, 6, 7, 8, 9, 10, 11, 12, 13, 14, 15}" by (auto simp: numeral_eq_Suc less_Suc_eq)
  then show ?thesis by (auto simp: hex_digit_def)
qed

lemma sim_hash_utf8 [simp]: "valid_utf8 (sim_hash pw)"
proof -
  have "byte c div 16 < 16" for c
    using nat_of_char_less_256 [of c] by (simp add: less_mult_imp_div_less)
  then show ?thesis by (intro valid_utf8_ascii) (auto simp: sim_hash_def hex_digit_ascii)
qed

lemma sim_bcrypt_library [simp]: "bcrypt_library sim_env"
  by (simp add: bcrypt_library_def)

lemma sim_local_computation [simp]: "local_computation sim_env sim_db"
  by (simp add: local_computation_def)

lemma sim_redis_server [simp]: "redis_server sim_env sim_db"
  by (auto simp: redis_server_def sim_redis_def)

lemma sim_token_split [simp]:
  "takeWhile (\<lambda>c. c \<noteq> CHR '':'') (sim_token c key) = Itoa (claim_expires_at c)"
proof -
  have "d \<noteq> CHR '':''" if "d \<in> set (Itoa i)" for d i
    using that itoa_nat_digits [of "nat i"] itoa_nat_digits [of "nat (- i)"]
    by (auto simp: Itoa_def list_all_iff is_digit_def split: if_splits)
  then show ?thesis by (simp add: sim_token_def takeWhile_append)
qed

lemma sim_jwt_library [simp]: "jwt_library sim_env"
proof -
  have parse: "sim_parse (sim_token c key) key now =
      (if claim_expires_at c < now then Inl (ErrorString ''token is expired'') else Inr True)"
    if "int_min \<le> claim_expires_at c" "claim_expires_at c \<le> int_max" for c key now
    unfolding sim_parse_def using that by (simp add: Atoi_Itoa) (simp add: sim_token_def)
  have genuine: "\<exists>c. sim_sign c key = Inr tok" if "sim_parse tok key now = Inr True" for tok key now
  proof -
    from that obtain i where i: "Atoi (takeWhile (\<lambda>c. c \<noteq> CHR '':'') tok) = Inr i" "tok = Itoa i @ [CHR '':''] @ key"
      by (auto simp: sim_parse_def split: sum.splits if_splits)
    then have "int_min \<le> i" "i \<le> int_max" using parse_int_range by (auto simp: Atoi_def)
    then have "sim_sign \<lparr>claim_username = [], claim_expires_at = i\<rparr> key = Inr tok"
      using i(2) by (simp add: sim_sign_def sim_token_def)
    then show ?thesis ..
  qed
  show ?thesis unfolding jwt_library_def sim_env_simps
    using parse genuine by (auto simp: sim_sign_def split: if_splits)
qed

end
