(* ===== verification/Middleware_State.thy ===== *)
theory Middleware_State
  imports Prometheus Simulation
begin

text \<open>
  The struct \<open>Middleware\<close> (middleware/src/middleware.go) and the helpers of util.go that more
  than one RPC calls: running the system scripts and interpreting their failures, the
  notifications of the update state, the HSM configuration.

  \<open>'w middleware\<close> extends the shared state with the fields of the struct.  The channel \<open>events\<close>
  is the \<open>Emit\<close> part of the trace; \<open>hsmPresent\<close> is \<open>hsmFirmware != nil\<close>; \<open>jwtKey\<close> is the key in
  \<open>jwtAuth\<close>; \<open>baseVersion\<close> is a pointer, hence an option.

  Lemma groups: what a script run returns (\<open>runCommand_lines\<close>, the output is never an empty
  slice), which codes a failed script can lead to (\<open>handleBBBScriptErrorCode_cases\<close>), frames.
\<close>

record 'w middleware = "'w redis_sys" +
  config :: configuration
  prometheusClient :: string
  jwtKey :: string
  serviceInfo :: GetServiceInfoResponse
  baseUpdateProgress :: GetBaseUpdateProgressResponse
  baseUpdateAvailable :: IsBaseUpdateAvailableResponse
  baseVersion :: "semver option"
  isMiddlewarePasswordSet :: bool
  isBaseSetupDone :: bool
  hsmPresent :: bool

type_synonym ('w, 'a) mw = "('w middleware, 'a) state"

text \<open>The struct literal of \<open>NewMiddleware\<close>, around the shared state and the Redis client.\<close>

definition initial_struct ::
  "configuration \<Rightarrow> bool \<Rightarrow> redis_client \<Rightarrow> 'w sys \<Rightarrow> 'w middleware" where
  "initial_struct cfg hsm client s = \<lparr>
     world = world s, trace = trace s, redisClient = client,
     config = cfg,
     prometheusClient = GetPrometheusURL cfg,
     jwtKey = [],
     serviceInfo = \<lparr>si_ErrorResponse = None, BitcoindBlocks = 0, BitcoindHeaders = 0,
       BitcoindVerificationProgress = Fin 0, BitcoindPeers = 0, BitcoindIBD = False,
       LightningdBlocks = 0, si_LightningActiveChannels = 0, si_ElectrsBlocks = 0\<rparr>,
     baseUpdateProgress = \<lparr>pr_ErrorResponse = None, UpdateState = UpdateNotInProgress,
       ProgressPercentage = 0, ProgressDownloadedKiB = 0\<rparr>,
     baseUpdateAvailable = \<lparr>av_ErrorResponse = Some success, UpdateAvailable = False,
       av_UpdateInfo = \<lparr>ui_Description = [], ui_Version = [], ui_Severity = []\<rparr>\<rparr>,
     baseVersion = Some (0, 0, 0),
     isMiddlewarePasswordSet = False,
     isBaseSetupDone = False,
     hsmPresent = hsm\<rparr>"

subsection \<open>System scripts\<close>

abbreviation newline :: char where
  "newline \<equiv> CHR 0x0A"

definition runCommand :: "'w env \<Rightarrow> string \<Rightarrow> string list \<Rightarrow> ('w, string list \<times> exec_error option) mw" where
  "runCommand E command args = do {
     (rawstdoutStderr, err) \<leftarrow> ext (Exec command args) (exec_combined E command args);
     let combined = TrimSuffix rawstdoutStderr [newline];
     State_Monad.return (Split combined newline, err)
   }"

definition runBBBSystemctlScript :: "'w env \<Rightarrow> string list \<Rightarrow> ('w, string list \<times> exec_error option) mw" where
  "runBBBSystemctlScript E args = do {
     c \<leftarrow> gets config;
     runCommand E (GetBBBSystemctlScript c) args
   }"

definition runBBBCmdScript :: "'w env \<Rightarrow> string list \<Rightarrow> ('w, string list \<times> exec_error option) mw" where
  "runBBBCmdScript E args = do {
     c \<leftarrow> gets config;
     runCommand E (GetBBBCmdScript c) args
   }"

definition runBBBConfigScript :: "'w env \<Rightarrow> string list \<Rightarrow> ('w, string list \<times> exec_error option) mw" where
  "runBBBConfigScript E args = do {
     c \<leftarrow> gets config;
     runCommand E (GetBBBConfigScript c) args
   }"

text \<open>\<open>active[0]\<close> is an index into the output lines; \<open>runCommand_lines\<close> shows it is in range.\<close>

definition checkSystemdServiceStatus :: "'w env \<Rightarrow> string \<Rightarrow> ('w, bool \<times> exec_error option) mw" where
  "checkSystemdServiceStatus E serviceName = do {
     (active, err) \<leftarrow> runCommand E ''systemctl'' [''is-active'', serviceName];
     State_Monad.return (active ! 0 = ''active'', err)
   }"

definition handleBBBScriptErrorCode :: "string list \<Rightarrow> exec_error \<Rightarrow> ErrorCode list \<Rightarrow> ErrorCode" where
  "handleBBBScriptErrorCode outputLines err possibleErrors =
     (if is_not_exist err then ExecutableNotFound
      else if exec_text err = ''exit status 1'' then
        (if outputLines = [] then ErrorUnexpected
         else (let outputErrorCode = outputLines ! (length outputLines - 1) in
           if outputErrorCode = code_string ErrorScriptNotSuperuser then ErrorScriptNotSuperuser
           else if outputErrorCode = code_string ErrorCmdScriptInvalidArg then ErrorCmdScriptInvalidArg
           else if outputErrorCode = code_string ErrorConfigScriptInvalidArg then ErrorConfigScriptInvalidArg
           else (case find (\<lambda>possible. outputErrorCode = code_string possible) possibleErrors of
               Some possible \<Rightarrow> possible
             | None \<Rightarrow> ErrorUnexpected)))
      else ErrorUnexpected)"

text \<open>
  The block that follows every script call in the RPCs: on an error the joined output and the
  interpreted code, else the given continuation.
\<close>

definition script_failure :: "string list \<Rightarrow> exec_error \<Rightarrow> ErrorCode list \<Rightarrow> ErrorResponse" where
  "script_failure out err possibleErrors =
     failure (handleBBBScriptErrorCode out err possibleErrors) (Join out [newline])"

definition script_response :: "ErrorCode list \<Rightarrow> string list \<times> exec_error option \<Rightarrow> ErrorResponse" where
  "script_response possibleErrors res = (case res of
     (out, Some err) \<Rightarrow> script_failure out err possibleErrors
   | (out, None) \<Rightarrow> success)"

definition determineEnableValue :: "ToggleSettingArgs \<Rightarrow> string" where
  "determineEnableValue enable = (if ToggleSetting enable then ''enable'' else ''disable'')"

subsection \<open>Flash drives\<close>

definition mountFlashdrive :: "'w env \<Rightarrow> ('w, ErrorResponse) mw" where
  "mountFlashdrive E = do {
     (outCheck, err) \<leftarrow> runBBBCmdScript E [''flashdrive'', ''check''];
     (case err of
        Some e \<Rightarrow> State_Monad.return
          (script_failure outCheck e [ErrorFlashdriveCheckMultiple, ErrorFlashdriveCheckNone])
      | None \<Rightarrow>
          if length outCheck = 0
          then State_Monad.return (failure ErrorUnexpected
            (''An unexpected Error occurred: The output of `bbb-cmd.sh flashdrive check` did not contain ''
             @ ''a flashdrive name.''))
          else do {
            let flashDriveName = outCheck ! (length outCheck - 1);
            res \<leftarrow> runBBBCmdScript E [''flashdrive'', ''mount'', flashDriveName];
            State_Monad.return (script_response
              [ErrorFlashdriveMountNotFound, ErrorFlashdriveMountNotSupported, ErrorFlashdriveMountNotUnique] res)
          })
   }"

definition unmountFlashdrive :: "'w env \<Rightarrow> ('w, ErrorResponse) mw" where
  "unmountFlashdrive E = do {
     res \<leftarrow> runBBBCmdScript E [''flashdrive'', ''unmount''];
     State_Monad.return (script_response [ErrorFlashdriveUnmountNotMounted] res)
   }"

subsection \<open>HSM configuration\<close>

text \<open>
  \<open>net.ParseIP(ip).To4()\<close>: the first dot or colon decides between the two notations; the
  IPv6 one (which \<open>To4\<close> accepts for mapped addresses) is the environment's.
\<close>

definition parse_octet :: "string \<Rightarrow> nat option" where
  "parse_octet s = (if s \<noteq> [] \<and> list_all is_digit s \<and> digits_value s \<le> 255
     then Some (digits_value s) else None)"

definition parseIPv4 :: "string \<Rightarrow> nat list option" where
  "parseIPv4 s = (case map parse_octet (Split s (CHR ''.'')) of
     [Some a, Some b, Some c, Some d] \<Rightarrow> Some [a, b, c, d]
   | _ \<Rightarrow> None)"

definition ParseIP_To4 :: "'w env \<Rightarrow> string \<Rightarrow> nat list option" where
  "ParseIP_To4 E s = (case find (\<lambda>c. c = CHR ''.'' \<or> c = CHR '':'') s of
     None \<Rightarrow> None
   | Some c \<Rightarrow> if c = CHR ''.'' then parseIPv4 s else parse_ip6_to4 E s)"

text \<open>
  \<open>To4()[:4]\<close> of an address that is not an IPv4 address slices a nil slice, which panics.
\<close>

definition setHSMConfig :: "'w env \<Rightarrow> ('w, goerr option go) mw" where
  "setHSMConfig E = do {
     hsm \<leftarrow> gets hsmPresent;
     if \<not> hsm then State_Monad.return (Ret None)
     else do {
       (hostname, err) \<leftarrow> redis_GetString E BaseHostname;
       (case err of
          Some e \<Rightarrow> State_Monad.return (Ret (Some e))
        | None \<Rightarrow> do {
            address \<leftarrow> gets prometheusClient;
            ip \<leftarrow> prom_GetMetricString E address BaseSystemInfo ''base_ipaddress'';
            (case ip of
               Inl e \<Rightarrow> State_Monad.return (Ret (Some e))
             | Inr s \<Rightarrow>
                 (case ParseIP_To4 E s of
                    None \<Rightarrow> State_Monad.return Panic
                  | Some ipBytes \<Rightarrow> do {
                      r \<leftarrow> ext (HsmSetConfig ipBytes hostname) (hsm_set_config E ipBytes hostname);
                      State_Monad.return (Ret r) }))
          })
     }
   }"

definition setBaseUpdateStateAndNotify :: "BaseUpdateState \<Rightarrow> ('w, unit) mw" where
  "setBaseUpdateStateAndNotify st = do {
     _ \<leftarrow> modify (\<lambda>s. s\<lparr>baseUpdateProgress := (baseUpdateProgress s)\<lparr>UpdateState := st\<rparr>\<rparr>);
     emit \<lparr>Identifier = OpBaseUpdateProgressChanged, QueueIfNoClient = True\<rparr>
   }"

subsection \<open>Output of a script\<close>

lemma runCommand_lines:
  "run_state (runCommand E command args) s = ((lines, err), s') \<Longrightarrow>
   lines \<noteq> [] \<and> (\<forall>l \<in> set lines. newline \<notin> set l) \<and>
   Join lines [newline] = TrimSuffix (fst (fst (exec_combined E command args (world s)))) [newline]"
  by (auto simp: runCommand_def Join_Split Split_parts split: prod.splits)

lemma runCommand_trace:
  "run_state (runCommand E command args) s = (r, s') \<Longrightarrow> trace s' = trace s @ [Exec command args]"
  by (auto simp: runCommand_def split: prod.splits)

lemma keeps_runCommand [keeps_intros]:
  "(\<And>s w t. f (s\<lparr>world := w, trace := t\<rparr>) = f s) \<Longrightarrow> keeps f (runCommand E c a)"
  unfolding runCommand_def Let_def by (intro keeps_intros)

lemmas script_defs = runBBBCmdScript_def runBBBConfigScript_def runBBBSystemctlScript_def
  checkSystemdServiceStatus_def

lemma keeps_script [keeps_intros]:
  assumes "\<And>s w t. f (s\<lparr>world := w, trace := t\<rparr>) = f s"
  shows "keeps f (runBBBCmdScript E a)" "keeps f (runBBBConfigScript E a)"
    "keeps f (runBBBSystemctlScript E a)" "keeps f (checkSystemdServiceStatus E n)"
  unfolding script_defs by (intro keeps_intros assms)+

lemma keeps_flashdrive [keeps_intros]:
  assumes "\<And>s w t. f (s\<lparr>world := w, trace := t\<rparr>) = f s"
  shows "keeps f (mountFlashdrive E)" "keeps f (unmountFlashdrive E)"
  unfolding mountFlashdrive_def unmountFlashdrive_def Let_def by (intro keeps_intros assms)+

lemma keeps_setHSMConfig [keeps_intros]:
  assumes "untouched_by_redis f"
  shows "keeps f (setHSMConfig E)"
  unfolding setHSMConfig_def by (intro keeps_intros assms untouchedD(1) [OF assms])

text \<open>Commands only: every effect of a script runner is \<open>Exec\<close>.\<close>

lemma emits_runCommand [emits_intros]: "Q (Exec c a) \<Longrightarrow> emits Q (runCommand E c a)"
  unfolding runCommand_def Let_def by (intro emits_intros)

lemma emits_setHSMConfig: "emits (\<lambda>_. True) (setHSMConfig E)"
  unfolding setHSMConfig_def by (intro emits_intros TrueI)

subsection \<open>The codes of a failed script\<close>

definition default_codes :: "ErrorCode set" where
  "default_codes = {ExecutableNotFound, ErrorUnexpected, ErrorScriptNotSuperuser,
     ErrorCmdScriptInvalidArg, ErrorConfigScriptInvalidArg}"

lemma handleBBBScriptErrorCode_cases:
  "handleBBBScriptErrorCode out err possible \<in> default_codes \<union> set possible"
  by (auto simp: handleBBBScriptErrorCode_def default_codes_def Let_def find_Some_iff
      split: option.splits)

lemma handleBBBScriptErrorCode_reported:
  assumes "\<not> is_not_exist err" "exec_text err = ''exit status 1''" "out \<noteq> []"
    and "last out = code_string c"
    and "c \<in> set possible \<or> c \<in> {ErrorScriptNotSuperuser, ErrorCmdScriptInvalidArg, ErrorConfigScriptInvalidArg}"
  shows "handleBBBScriptErrorCode out err possible = c"
proof -
  have l: "out ! (length out - 1) = code_string c" using assms(3,4) by (simp add: last_conv_nth)
  have "find (\<lambda>p. code_string c = code_string p) possible = Some c" if "c \<in> set possible"
    using that by (induction possible) auto
  with l assms show ?thesis
    by (auto simp: handleBBBScriptErrorCode_def Let_def simp del: code_string.simps)
qed

subsection \<open>A concrete middleware\<close>

text \<open>
  The struct over the simulated outside world, with the mock client and given Redis contents:
  the state the witnesses of the properties start from.
\<close>

definition demo_config :: configuration where
  "demo_config = NewConfiguration \<lparr>
     arg_BBBCmdScript = ''bbb-cmd.sh'', arg_BBBConfigScript = ''bbb-config.sh'',
     arg_BBBSystemctlScript = ''bbb-systemctl.sh'', arg_ElectrsRPCPort = ''60001'',
     arg_ImageUpdateInfoURL = ''http://update.info'', arg_MiddlewarePort = ''8845'',
     arg_MiddlewareVersion = ''0.0.1'', arg_Network = ''testnet'',
     arg_NotificationNamedPipePath = ''/tmp/pipe'', arg_PrometheusURL = ''http://localhost:9090'',
     arg_RedisMock = True, arg_RedisPort = ''6379''\<rparr>"

definition demo_world :: sim where
  "demo_world = \<lparr>sim_db = Map.empty, sim_now = 1000, sim_scripts = [],
     sim_update = \<lparr>stdout_pipe_err = False, stderr_pipe_err = False, start_err = False,
       stdout_lines = [], stdout_read_err = False, stderr_lines = [], wait_err = None\<rparr>,
     sim_pages = [], sim_hsm = None\<rparr>"

definition demo :: "mock_map \<Rightarrow> sim middleware" where
  "demo m = (initial_struct demo_config False (MockClient m) \<lparr>world = demo_world, trace = []\<rparr>)
     \<lparr>jwtKey := ''key''\<rparr>"

lemma demo_simps [simp]:
  "redisClient (demo m) = MockClient m" "world (demo m) = demo_world" "trace (demo m) = []"
  "jwtKey (demo m) = ''key''" "config (demo m) = demo_config" "hsmPresent (demo m) = False"
  "isMiddlewarePasswordSet (demo m) = False" "baseVersion (demo m) = Some (0, 0, 0)"
  "UpdateState (baseUpdateProgress (demo m)) = UpdateNotInProgress"
  "bbbCmdScript demo_config = ''bbb-cmd.sh''" "bbbConfigScript demo_config = ''bbb-config.sh''"
  "bbbSystemctlScript demo_config = ''bbb-systemctl.sh''" "redisMock demo_config = True"
  "sim_now demo_world = 1000" "sim_scripts demo_world = []" "sim_db demo_world = Map.empty"
  by (simp_all add: demo_def initial_struct_def demo_config_def NewConfiguration_def demo_world_def)

lemma Atoi_digits [simp]: "Atoi ''0'' = Inr 0" "Atoi ''1'' = Inr 1"
  using Atoi_Itoa [of 0] Atoi_Itoa [of 1]
  by (simp_all add: Itoa_def itoa_nat.simps digit_char_def int_min_def int_max_def)

lemma Atoi_pair_digits [simp]: "Atoi_pair ''0'' = (0, None)" "Atoi_pair ''1'' = (1, None)"
  by (simp_all add: Atoi_pair_def)

lemma ParseInt_digits [simp]: "ParseInt ''0'' = Inr 0" "ParseInt ''1'' = Inr 1"
  using Atoi_pair_None [of "''0''" 0] Atoi_pair_None [of "''1''" 1] by simp_all

text \<open>The Redis operations of a state with the mock client.\<close>

lemma run_mock:
  assumes "redisClient s = MockClient m"
  shows "run_state (redis_GetString E k) s = ((go_lookup m (key_string k), None), s\<lparr>redisClient := MockClient m\<rparr>)"
    and "run_state (redis_GetBool E k) s =
      ((fst (Atoi_pair (go_lookup m (key_string k))) = 1, snd (Atoi_pair (go_lookup m (key_string k)))),
       s\<lparr>redisClient := MockClient m\<rparr>)"
    and "run_state (redis_SetString E k v) s =
      (None, s\<lparr>redisClient := MockClient (m(key_string k \<mapsto> v))\<rparr>)"
  using assms
  by (simp_all add: redis_GetString_def redis_GetBool_def redis_SetString_def run_via_client
      Mock_GetString_def Mock_GetBool_def Mock_SetString_def case_prod_beta)

end
