(* ===== verification/Middleware_Scripts.thy ===== *)
theory Middleware_Scripts
  imports Middleware_State
begin

text \<open>
  The RPCs of middleware.go that run a system script: Bitcoin resync and reindex, backup and
  restore, hostname, login password, the on/off settings, the setup wizard, shutdown and
  reboot.

  The central lemmas are about the flash drive: after a successful mount the drive is
  unmounted exactly once, as the last action, whatever the script in between did, and a
  failure of that script is what the caller sees (\<open>with_flashdrive_run\<close>, used for backup and
  restore).  \<open>hostname_regexp\<close> is the regular expression of \<open>SetHostname\<close> as a term, matched by
  the matcher \<open>re_rests\<close>; \<open>hostname_ok_iff\<close> is what it accepts.
\<close>

subsection \<open>Scripts without arguments\<close>

definition cmd_script_rpc :: "'w env \<Rightarrow> string list \<Rightarrow> ErrorCode list \<Rightarrow> ('w, ErrorResponse) mw" where
  "cmd_script_rpc E args possibleErrors = do {
     res \<leftarrow> runBBBCmdScript E args;
     State_Monad.return (script_response possibleErrors res)
   }"

definition ResyncBitcoin :: "'w env \<Rightarrow> ('w, ErrorResponse) mw" where
  "ResyncBitcoin E = cmd_script_rpc E [''bitcoind'', ''resync''] []"

definition ReindexBitcoin :: "'w env \<Rightarrow> ('w, ErrorResponse) mw" where
  "ReindexBitcoin E = cmd_script_rpc E [''bitcoind'', ''reindex''] []"

definition BackupHSMSecret :: "'w env \<Rightarrow> ('w, ErrorResponse) mw" where
  "BackupHSMSecret E = cmd_script_rpc E [''backup'', ''hsm_secret''] []"

definition RestoreHSMSecret :: "'w env \<Rightarrow> ('w, ErrorResponse) mw" where
  "RestoreHSMSecret E = cmd_script_rpc E [''restore'', ''hsm_secret''] []"

subsection \<open>Backup and restore of the configuration\<close>

text \<open>
  Both RPCs mount the drive, register the unmounting with \<open>defer\<close>, and run their script.  The
  deferred function replaces the response only if it was a success.
\<close>

definition with_flashdrive :: "'w env \<Rightarrow> ('w, ErrorResponse) mw \<Rightarrow> ('w, ErrorResponse) mw" where
  "with_flashdrive E body = do {
     mounted \<leftarrow> mountFlashdrive E;
     if \<not> Success mounted then State_Monad.return mounted
     else do {
       response \<leftarrow> body;
       unmountResponse \<leftarrow> unmountFlashdrive E;
       State_Monad.return (if Success response then unmountResponse else response)
     }
   }"

definition BackupSysconfig :: "'w env \<Rightarrow> ('w, ErrorResponse) mw" where
  "BackupSysconfig E = with_flashdrive E
     (cmd_script_rpc E [''backup'', ''sysconfig''] [ErrorBackupSysconfigNotAMountpoint])"

definition RestoreSysconfig :: "'w env \<Rightarrow> ('w, ErrorResponse) mw" where
  "RestoreSysconfig E = with_flashdrive E
     (cmd_script_rpc E [''restore'', ''sysconfig''] [ErrorRestoreSysconfigBackupNotFound])"

subsection \<open>Settings\<close>

definition config_script_rpc :: "'w env \<Rightarrow> string list \<Rightarrow> ErrorCode list \<Rightarrow> ('w, ErrorResponse) mw" where
  "config_script_rpc E args possibleErrors = do {
     res \<leftarrow> runBBBConfigScript E args;
     State_Monad.return (script_response possibleErrors res)
   }"

definition EnableTor :: "'w env \<Rightarrow> ToggleSettingArgs \<Rightarrow> ('w, ErrorResponse) mw" where
  "EnableTor E toggleAction = config_script_rpc E [determineEnableValue toggleAction, ''tor''] []"

definition EnableTorMiddleware :: "'w env \<Rightarrow> ToggleSettingArgs \<Rightarrow> ('w, ErrorResponse) mw" where
  "EnableTorMiddleware E toggleAction =
     config_script_rpc E [determineEnableValue toggleAction, ''tor_bbbmiddleware''] []"

definition EnableTorElectrs :: "'w env \<Rightarrow> ToggleSettingArgs \<Rightarrow> ('w, ErrorResponse) mw" where
  "EnableTorElectrs E toggleAction = config_script_rpc E [determineEnableValue toggleAction, ''tor_electrs''] []"

definition EnableTorSSH :: "'w env \<Rightarrow> ToggleSettingArgs \<Rightarrow> ('w, ErrorResponse) mw" where
  "EnableTorSSH E toggleAction = config_script_rpc E [determineEnableValue toggleAction, ''tor_ssh''] []"

definition EnableClearnetIBD :: "'w env \<Rightarrow> ToggleSettingArgs \<Rightarrow> ('w, ErrorResponse) mw" where
  "EnableClearnetIBD E toggleAction =
     config_script_rpc E [determineEnableValue toggleAction, ''bitcoin_ibd_clearnet''] [ErrorSetNeedsTwoArguments]"

definition EnableRootLogin :: "'w env \<Rightarrow> ToggleSettingArgs \<Rightarrow> ('w, ErrorResponse) mw" where
  "EnableRootLogin E toggleAction = config_script_rpc E [determineEnableValue toggleAction, ''rootlogin''] []"

definition EnableSSHPasswordLogin :: "'w env \<Rightarrow> ToggleSettingArgs \<Rightarrow> ('w, ErrorResponse) mw" where
  "EnableSSHPasswordLogin E toggleAction =
     config_script_rpc E [determineEnableValue toggleAction, ''sshpwlogin''] []"

definition SetLoginPassword :: "'w env \<Rightarrow> SetLoginPasswordArgs \<Rightarrow> ('w, ErrorResponse) mw" where
  "SetLoginPassword E args = (let password = lp_LoginPassword args in
     if 8 \<le> length (runes password)
     then config_script_rpc E [''set'', ''loginpw'', password] [ErrorSetNeedsTwoArguments]
     else State_Monad.return (failure ErrorSetLoginPasswordTooShort
       ''The password has to be at least 8 chars. An unicode char is counted as one.''))"

subsection \<open>Hostname\<close>

text \<open>
  Regular expressions over bytes with character classes, concatenation and bounded repetition;
  \<open>re_rests r s\<close> lists what can be left of \<open>s\<close> after a match of \<open>r\<close> at its start.
\<close>

datatype re = Cls "char \<Rightarrow> bool" | Cat re re | Rep re nat nat

primrec re_size :: "re \<Rightarrow> nat" where
  "re_size (Cls p) = 1"
| "re_size (Cat r1 r2) = re_size r1 + re_size r2 + 1"
| "re_size (Rep r lo hi) = Suc hi * (re_size r + 1)"

function re_rests :: "re \<Rightarrow> string \<Rightarrow> string list" where
  "re_rests (Cls p) s = (case s of [] \<Rightarrow> [] | c # cs \<Rightarrow> if p c then [cs] else [])"
| "re_rests (Cat r1 r2) s = concat (map (re_rests r2) (re_rests r1 s))"
| "re_rests (Rep r lo 0) s = (if lo = 0 then [s] else [])"
| "re_rests (Rep r lo (Suc hi)) s =
     (if lo = 0 then [s] else []) @ concat (map (re_rests (Rep r (lo - 1) hi)) (re_rests r s))"
  by pat_completeness auto
termination
  by (relation "measure (\<lambda>(r, s). re_size r)") auto

text \<open>\<open>MatchString\<close> for an expression anchored with \<open>^\<close> and \<open>$\<close>.\<close>

definition re_matches :: "re \<Rightarrow> string \<Rightarrow> bool" where
  "re_matches r s \<longleftrightarrow> [] \<in> set (re_rests r s)"

definition is_lower :: "char \<Rightarrow> bool" where
  "is_lower c \<longleftrightarrow> 97 \<le> byte c \<and> byte c \<le> 122"

text \<open>\<open>^[a-z][a-z0-9-]{0,22}[a-z0-9]$\<close>.\<close>

definition hostname_regexp :: re where
  "hostname_regexp = Cat (Cls is_lower)
     (Cat (Rep (Cls (\<lambda>c. is_lower c \<or> is_digit c \<or> c = CHR ''-'')) 0 22)
       (Cls (\<lambda>c. is_lower c \<or> is_digit c)))"

definition SetHostname :: "'w env \<Rightarrow> SetHostnameArgs \<Rightarrow> ('w, ErrorResponse go) mw" where
  "SetHostname E args = (let hostname = sh_Hostname args in
     if re_matches hostname_regexp hostname then do {
       (out, err) \<leftarrow> runBBBConfigScript E [''set'', ''hostname'', hostname];
       (case err of
          Some e \<Rightarrow> State_Monad.return (Ret (script_failure out e [ErrorSetHostnameInvalidValue]))
        | None \<Rightarrow> do {
            hsm \<leftarrow> setHSMConfig E;
            State_Monad.return (case hsm of Panic \<Rightarrow> Panic | Ret _ \<Rightarrow> Ret success) })
     }
     else State_Monad.return (Ret (failure NoErrorCode ''invalid hostname'')))"

subsection \<open>Setup wizard\<close>

definition FinalizeSetupWizard :: "'w env \<Rightarrow> ('w, ErrorResponse) mw" where
  "FinalizeSetupWizard E = do {
     (out, err) \<leftarrow> runBBBConfigScript E [''enable'', ''bitcoin_services''];
     (case err of
        Some e \<Rightarrow> State_Monad.return (script_failure out e [])
      | None \<Rightarrow> do {
          (out, err) \<leftarrow> runBBBSystemctlScript E [''start-bitcoin-services''];
          (case err of
             Some e \<Rightarrow> State_Monad.return (script_failure out e [ErrorSystemdServiceStartFailed])
           | None \<Rightarrow> do {
               err \<leftarrow> redis_SetString E BaseSetupDone ''1'';
               State_Monad.return (case err of
                 Some e \<Rightarrow> redis_ConvertErrorToErrorResponse E e
               | None \<Rightarrow> success) }) })
   }"

subsection \<open>Shutdown and reboot\<close>

text \<open>
  The goroutine that waits and then starts the command is one \<open>spawn\<close>; the RPC returns without
  waiting for it.  The delay is in milliseconds.
\<close>

definition power_command ::
  "'w env \<Rightarrow> string \<Rightarrow> string \<Rightarrow> string list \<Rightarrow> ('w, ErrorResponse) mw" where
  "power_command E what command args = do {
     c \<leftarrow> gets config;
     if IsRedisMock c then State_Monad.return success
     else do {
       err \<leftarrow> ext (LookPath command) (look_path E command);
       (case err of
          Some e \<Rightarrow> State_Monad.return (failure ExecutableNotFound (what @ err_text (Quote E) e))
        | None \<Rightarrow> do {
            _ \<leftarrow> ext (Spawn 5000 command args) (\<lambda>w. ((), spawn E 5000 command args w));
            State_Monad.return success })
     }
   }"

definition ShutdownBase :: "'w env \<Rightarrow> ('w, ErrorResponse) mw" where
  "ShutdownBase E = power_command E ''could not shut the Base down: '' ''shutdown'' [''now'']"

definition RebootBase :: "'w env \<Rightarrow> ('w, ErrorResponse) mw" where
  "RebootBase E = power_command E ''could not reboot the Base: '' ''reboot'' []"

subsection \<open>Frames\<close>

lemmas script_rpc_defs = ResyncBitcoin_def ReindexBitcoin_def BackupHSMSecret_def RestoreHSMSecret_def
  EnableTor_def EnableTorMiddleware_def EnableTorElectrs_def EnableTorSSH_def EnableClearnetIBD_def
  EnableRootLogin_def EnableSSHPasswordLogin_def SetLoginPassword_def cmd_script_rpc_def config_script_rpc_def

lemma keeps_with_flashdrive [keeps_intros]:
  assumes "\<And>s w t. f (s\<lparr>world := w, trace := t\<rparr>) = f s" "keeps f body"
  shows "keeps f (with_flashdrive E body)"
  unfolding with_flashdrive_def by (intro keeps_intros assms)

lemma keeps_script_rpc [keeps_intros]:
  assumes "\<And>s w t. f (s\<lparr>world := w, trace := t\<rparr>) = f s"
  shows "keeps f (cmd_script_rpc E a p)" "keeps f (config_script_rpc E a p)"
    "keeps f (BackupSysconfig E)" "keeps f (RestoreSysconfig E)"
    "keeps f (SetLoginPassword E args)" "keeps f (power_command E x c a)"
  unfolding script_rpc_defs BackupSysconfig_def RestoreSysconfig_def power_command_def Let_def
  by (intro keeps_intros assms)+

lemma keeps_SetHostname [keeps_intros]:
  "untouched_by_redis f \<Longrightarrow> keeps f (SetHostname E args)"
  unfolding SetHostname_def Let_def by (intro keeps_intros) (auto intro: untouchedD)

lemma keeps_FinalizeSetupWizard [keeps_intros]:
  "untouched_by_redis f \<Longrightarrow> keeps f (FinalizeSetupWizard E)"
  unfolding FinalizeSetupWizard_def by (intro keeps_intros) (auto intro: untouchedD)

subsection \<open>The flash drive is always unmounted\<close>

text \<open>The commands of a run of the command script, given the configured path.\<close>

lemma cmd_script_trace:
  "trace (snd (run_state (runBBBCmdScript E args) s)) = trace s @ [Exec (bbbCmdScript (config s)) args]"
  "config (snd (run_state (runBBBCmdScript E args) s)) = config s"
  by (simp_all add: runBBBCmdScript_def runCommand_def GetBBBCmdScript_def split: prod.splits)

lemma cmd_script_rpc_trace:
  "trace (snd (run_state (cmd_script_rpc E args p) s)) = trace s @ [Exec (bbbCmdScript (config s)) args]"
  "config (snd (run_state (cmd_script_rpc E args p) s)) = config s"
  using cmd_script_trace [of E args s] by (simp_all add: cmd_script_rpc_def case_prod_beta)

lemma unmountFlashdrive_trace:
  "trace (snd (run_state (unmountFlashdrive E) s)) =
     trace s @ [Exec (bbbCmdScript (config s)) [''flashdrive'', ''unmount'']]"
  using cmd_script_trace [of E _ s] by (simp add: unmountFlashdrive_def case_prod_beta)

lemma mountFlashdrive_config: "config (snd (run_state (mountFlashdrive E) s)) = config s"
  by (rule keeps_snd) (intro keeps_intros, simp)

lemma mountFlashdrive_trace:
  assumes "Success (fst (run_state (mountFlashdrive E) s))"
  obtains name where "trace (snd (run_state (mountFlashdrive E) s)) = trace s @
    [Exec (bbbCmdScript (config s)) [''flashdrive'', ''check''],
     Exec (bbbCmdScript (config s)) [''flashdrive'', ''mount'', name]]"
proof -
  let ?c = "runBBBCmdScript E [''flashdrive'', ''check'']"
  obtain out err s1 where c: "run_state ?c s = ((out, err), s1)" by (metis prod.collapse)
  have s1: "trace s1 = trace s @ [Exec (bbbCmdScript (config s)) [''flashdrive'', ''check'']]" "config s1 = config s"
    using cmd_script_trace [of E "[''flashdrive'', ''check'']" s] c by simp_all
  have ok: "err = None" "out \<noteq> []"
    using assms c by (auto simp: mountFlashdrive_def script_failure_def split: option.splits if_splits)
  then show ?thesis
    using that s1 c cmd_script_trace(1) [of E "[''flashdrive'', ''mount'', out ! (length out - 1)]" s1]
    by (simp add: mountFlashdrive_def Let_def case_prod_beta)
qed

lemma with_flashdrive_run:
  assumes m: "run_state (mountFlashdrive E) s = (mounted, s1)" and b: "run_state body s1 = (resp, s2)"
  shows "\<not> Success mounted \<Longrightarrow> run_state (with_flashdrive E body) s = (mounted, s1)"
    and "Success mounted \<Longrightarrow> run_state (with_flashdrive E body) s =
      (if Success resp then fst (run_state (unmountFlashdrive E) s2) else resp,
       snd (run_state (unmountFlashdrive E) s2))"
  using m b by (simp_all add: with_flashdrive_def split: prod.splits)

subsection \<open>Host names\<close>

lemma rep_cls_rests:
  "set (re_rests (Rep (Cls p) 0 n) s) = {drop k s | k. k \<le> n \<and> k \<le> length s \<and> list_all p (take k s)}"
proof (induction n arbitrary: s)
  case 0
  then show ?case by auto
next
  case (Suc n)
  show ?case
  proof (cases s)
    case Nil
    then show ?thesis by auto
  next
    case (Cons c cs)
    show ?thesis
    proof (intro set_eqI iffI)
      fix x
      assume "x \<in> set (re_rests (Rep (Cls p) 0 (Suc n)) s)"
      then consider "x = s" | "p c" "x \<in> set (re_rests (Rep (Cls p) 0 n) cs)"
        using Cons by (auto split: if_splits)
      then show "x \<in> {drop k s | k. k \<le> Suc n \<and> k \<le> length s \<and> list_all p (take k s)}"
      proof cases
        case 1
        then show ?thesis by (auto intro: exI [of _ 0])
      next
        case 2
        then obtain k where "x = drop k cs" "k \<le> n" "k \<le> length cs" "list_all p (take k cs)"
          using Suc by auto
        with 2 Cons show ?thesis by (auto intro!: exI [of _ "Suc k"])
      qed
    next
      fix x
      assume "x \<in> {drop k s | k. k \<le> Suc n \<and> k \<le> length s \<and> list_all p (take k s)}"
      then obtain k where k: "x = drop k s" "k \<le> Suc n" "k \<le> length s" "list_all p (take k s)" by auto
      show "x \<in> set (re_rests (Rep (Cls p) 0 (Suc n)) s)"
      proof (cases k)
        case 0
        with k show ?thesis by simp
      next
        case (Suc j)
        with k Cons have "x \<in> set (re_rests (Rep (Cls p) 0 n) cs)" "p c"
          using Suc.IH [of cs] by auto
        with Cons show ?thesis by auto
      qed
    qed
  qed
qed

text \<open>What the regular expression accepts: 2 to 24 characters of its classes.\<close>

lemma hostname_ok_iff:
  "re_matches hostname_regexp s \<longleftrightarrow>
     2 \<le> length s \<and> length s \<le> 24 \<and> is_lower (hd s) \<and>
     list_all (\<lambda>c. is_lower c \<or> is_digit c \<or> c = CHR ''-'') (butlast (tl s)) \<and>
     (is_lower (last s) \<or> is_digit (last s))"
  (is "_ \<longleftrightarrow> ?ok s")
proof (cases s)
  case Nil
  then show ?thesis by (simp add: re_matches_def hostname_regexp_def)
next
  case (Cons c cs)
  let ?p = "\<lambda>c. is_lower c \<or> is_digit c \<or> c = CHR ''-''"
  have "re_matches hostname_regexp s \<longleftrightarrow> is_lower c \<and>
      (\<exists>x \<in> set (re_rests (Rep (Cls ?p) 0 22) cs). \<exists>d. x = [d] \<and> (is_lower d \<or> is_digit d))"
    by (auto simp: re_matches_def hostname_regexp_def Cons split: list.splits if_splits)
  also have "\<dots> \<longleftrightarrow> is_lower c \<and> (\<exists>k. k \<le> 22 \<and> k \<le> length cs \<and> list_all ?p (take k cs) \<and>
        (\<exists>d. drop k cs = [d] \<and> (is_lower d \<or> is_digit d)))"
    unfolding rep_cls_rests by blast
  also have "\<dots> \<longleftrightarrow> ?ok s"
  proof (intro iffI conjI)
    assume "is_lower c \<and> (\<exists>k. k \<le> 22 \<and> k \<le> length cs \<and> list_all ?p (take k cs) \<and>
        (\<exists>d. drop k cs = [d] \<and> (is_lower d \<or> is_digit d)))"
    then obtain k d where k: "is_lower c" "k \<le> 22" "list_all ?p (take k cs)" "drop k cs = [d]" "is_lower d \<or> is_digit d"
      by blast
    then have cs: "cs = take k cs @ [d]" by (metis append_take_drop_id)
    then have len: "length cs = k + 1" using k(4) by (metis length_drop length_Cons list.size(3) One_nat_def
        Suc_eq_plus1 add.commute diff_add_inverse2 le_add_diff_inverse nat_le_linear diff_is_0_eq zero_neq_one)
    from cs len k Cons show "2 \<le> length s" "length s \<le> 24" "is_lower (hd s)" by auto
    from cs have "butlast cs = take k cs" "last cs = d" "cs \<noteq> []" by (metis butlast_snoc, metis last_snoc, auto)
    with k Cons show "list_all ?p (butlast (tl s))" "is_lower (last s) \<or> is_digit (last s)" by auto
  next
    assume ok: "?ok s"
    then show "is_lower c" using Cons by simp
    from ok Cons have "cs \<noteq> []" by auto
    then obtain ys d where "cs = ys @ [d]" by (metis rev_exhaust)
    with ok Cons show "\<exists>k. k \<le> 22 \<and> k \<le> length cs \<and> list_all ?p (take k cs) \<and>
        (\<exists>d. drop k cs = [d] \<and> (is_lower d \<or> is_digit d))"
      by (intro exI [of _ "length ys"]) auto
  qed
  finally show ?thesis .
qed

subsection \<open>Properties\<close>

text \<open>
  What backup and restore promise, as a specification over the runs of their parts: without a
  mounted drive nothing else happens; with one, exactly the script and the unmounting follow, in
  this order, and the response is the script's failure if it failed, else the unmounting's.
\<close>

definition flashdrive_protocol ::
  "'w env \<Rightarrow> string \<Rightarrow> ('w, ErrorResponse) mw \<Rightarrow> 'w middleware \<Rightarrow> bool" where
  "flashdrive_protocol E verb operation s \<longleftrightarrow>
     (case run_state (mountFlashdrive E) s of (mounted, s1) \<Rightarrow>
      case run_state (runBBBCmdScript E [verb, ''sysconfig'']) s1 of ((out, err), s2) \<Rightarrow>
      case run_state (unmountFlashdrive E) s2 of (unmounted, s3) \<Rightarrow>
      case run_state operation s of (response, s') \<Rightarrow>
        if Success mounted then
          s' = s3 \<and>
          trace s' = trace s1 @ [Exec (bbbCmdScript (config s)) [verb, ''sysconfig''],
            Exec (bbbCmdScript (config s)) [''flashdrive'', ''unmount'']] \<and>
          (if err = None then response = unmounted
           else \<not> Success response \<and> Message response = Join out [newline])
        else response = mounted \<and> s' = s1)"

lemma flashdrive_protocol_holds:
  "flashdrive_protocol E verb (with_flashdrive E (cmd_script_rpc E [verb, ''sysconfig''] p)) s"
proof -
  obtain mounted s1 where m: "run_state (mountFlashdrive E) s = (mounted, s1)" by fastforce
  obtain out err s2 where b: "run_state (runBBBCmdScript E [verb, ''sysconfig'']) s1 = ((out, err), s2)"
    by (metis prod.collapse)
  obtain un s3 where u: "run_state (unmountFlashdrive E) s2 = (un, s3)" by fastforce
  let ?resp = "script_response p (out, err)"
  have body: "run_state (cmd_script_rpc E [verb, ''sysconfig''] p) s1 = (?resp, s2)"
    using b by (simp add: cmd_script_rpc_def)
  have cfg: "config s1 = config s" "config s2 = config s"
    using mountFlashdrive_config [of E s] m cmd_script_trace(2) [of E "[verb, ''sysconfig'']" s1] b by auto
  have t: "trace s2 = trace s1 @ [Exec (bbbCmdScript (config s)) [verb, ''sysconfig'']]"
    "trace s3 = trace s2 @ [Exec (bbbCmdScript (config s)) [''flashdrive'', ''unmount'']]"
    using cmd_script_trace(1) [of E "[verb, ''sysconfig'']" s1] b unmountFlashdrive_trace [of E s2] u cfg by auto
  show ?thesis
    using with_flashdrive_run [OF m body] m b u t
    by (auto simp: flashdrive_protocol_def script_response_def script_failure_def split: option.splits)
qed

text \<open>
  C37: Backup and restore of the system configuration unmount every drive they mounted, exactly
  once and last, even when the script in between fails, whose failure is then what the caller
  is told; if the drive could not be mounted, neither the script nor an unmount is run.
\<close>

theorem backup_restore_unmount:
  "flashdrive_protocol E ''backup'' (BackupSysconfig E) s \<and>
   flashdrive_protocol E ''restore'' (RestoreSysconfig E) s"
  by (simp add: BackupSysconfig_def RestoreSysconfig_def flashdrive_protocol_holds)

text \<open>
  The error code of a failed script is determined by the specification below: a missing
  executable has its own code; on exit status 1 the last output line is taken as a code if it is
  one of the three every script may report or one the caller listed; all else is unexpected.
\<close>

theorem script_error_code_spec:
  "handleBBBScriptErrorCode out err possible =
    (if is_not_exist err then ExecutableNotFound
     else if exec_text err = ''exit status 1'' \<and> out \<noteq> [] then
       (case code_of_string (last out) of
          Some c \<Rightarrow> if c \<in> set possible \<union>
              {ErrorScriptNotSuperuser, ErrorCmdScriptInvalidArg, ErrorConfigScriptInvalidArg}
            then c else ErrorUnexpected
        | None \<Rightarrow> ErrorUnexpected)
     else ErrorUnexpected)"
proof (cases "\<not> is_not_exist err \<and> exec_text err = ''exit status 1'' \<and> out \<noteq> []")
  case False
  then show ?thesis by (auto simp: handleBBBScriptErrorCode_def)
next
  case True
  then have h: "handleBBBScriptErrorCode out err possible =
      (if last out = code_string ErrorScriptNotSuperuser then ErrorScriptNotSuperuser
       else if last out = code_string ErrorCmdScriptInvalidArg then ErrorCmdScriptInvalidArg
       else if last out = code_string ErrorConfigScriptInvalidArg then ErrorConfigScriptInvalidArg
       else (case find (\<lambda>p. last out = code_string p) possible of Some p \<Rightarrow> p | None \<Rightarrow> ErrorUnexpected))"
    by (simp add: handleBBBScriptErrorCode_def Let_def last_conv_nth del: code_string.simps)
  show ?thesis
  proof (cases "code_of_string (last out)")
    case None
    then have no: "last out \<noteq> code_string c" for c by auto
    then have "find (\<lambda>p. last out = code_string p) possible = None" by (simp add: find_None_iff)
    with True None no h show ?thesis by (simp del: code_string.simps)
  next
    case (Some c)
    then have l: "last out = code_string c" by (rule code_of_string_Some)
    have "find (\<lambda>p. code_string c = code_string p) possible = (if c \<in> set possible then Some c else None)"
      by (induction possible) auto
    with True l h show ?thesis by (auto simp del: code_string.simps)
  qed
qed

definition valid_hostname :: "string \<Rightarrow> bool" where
  "valid_hostname s \<longleftrightarrow> 2 \<le> length s \<and> length s \<le> 24 \<and> is_lower (hd s) \<and>
     list_all (\<lambda>c. is_lower c \<or> is_digit c \<or> c = CHR ''-'') (butlast (tl s)) \<and>
     (is_lower (last s) \<or> is_digit (last s))"

lemma SetHostname_trace:
  assumes "re_matches hostname_regexp (sh_Hostname args)"
  shows "\<exists>es. trace (snd (run_state (SetHostname E args) s)) =
    trace s @ Exec (bbbConfigScript (config s)) [''set'', ''hostname'', sh_Hostname args] # es"
proof -
  let ?c = "runBBBConfigScript E [''set'', ''hostname'', sh_Hostname args]"
  obtain out err s1 where c: "run_state ?c s = ((out, err), s1)" by (metis prod.collapse)
  have t: "trace s1 = trace s @ [Exec (bbbConfigScript (config s)) [''set'', ''hostname'', sh_Hostname args]]"
    using c by (auto simp: runBBBConfigScript_def GetBBBConfigScript_def dest: runCommand_trace)
  show ?thesis
  proof (cases err)
    case (Some e)
    with c t assms show ?thesis by (simp add: SetHostname_def Let_def)
  next
    case None
    obtain h s2 where h: "run_state (setHSMConfig E) s1 = (h, s2)" by fastforce
    moreover obtain es where "trace s2 = trace s1 @ es"
      using growsD [OF emits_grows [OF emits_setHSMConfig] h] by blast
    ultimately show ?thesis using None c t assms by (simp add: SetHostname_def Let_def)
  qed
qed

text \<open>
  \<open>SetHostname\<close> runs the configuration script exactly for names of 2 to 24 characters that
  start with a lower-case letter, continue with lower-case letters, digits and hyphens, and do
  not end in a hyphen, and hands it the name as one argument; any other name is refused and
  nothing at all happens.
\<close>

theorem SetHostname_only_valid:
  "(valid_hostname (sh_Hostname args) \<longrightarrow>
      (\<exists>es. trace (snd (run_state (SetHostname E args) s)) =
        trace s @ Exec (bbbConfigScript (config s)) [''set'', ''hostname'', sh_Hostname args] # es))
   \<and> (\<not> valid_hostname (sh_Hostname args) \<longrightarrow>
      run_state (SetHostname E args) s = (Ret (failure NoErrorCode ''invalid hostname''), s))"
  using SetHostname_trace [of args E s] hostname_ok_iff [of "sh_Hostname args"]
  by (auto simp: valid_hostname_def SetHostname_def Let_def)

lemma SetHostname_only_valid_witness:
  "(\<exists>es. trace (snd (run_state (SetHostname sim_env \<lparr>sh_Hostname = ''my-base'', sh_Token = []\<rparr>) (demo Map.empty))) =
      Exec ''bbb-config.sh'' [''set'', ''hostname'', ''my-base''] # es)
   \<and> run_state (SetHostname sim_env \<lparr>sh_Hostname = ''-base'', sh_Token = []\<rparr>) (demo Map.empty) =
      (Ret (failure NoErrorCode ''invalid hostname''), demo Map.empty)"
  using SetHostname_only_valid [of "\<lparr>sh_Hostname = ''my-base'', sh_Token = []\<rparr>" sim_env "demo Map.empty"]
    SetHostname_only_valid [of "\<lparr>sh_Hostname = ''-base'', sh_Token = []\<rparr>" sim_env "demo Map.empty"]
  by (simp add: valid_hostname_def is_lower_def is_digit_def)

text \<open>
  The login password is handed to the configuration script exactly when it has at least
  eight characters, each UTF-8 sequence counting once; a shorter one is refused without any
  effect.
\<close>

theorem SetLoginPassword_length:
  "(case run_state (SetLoginPassword E args) s of (r, s') \<Rightarrow>
     if 8 \<le> length (runes (lp_LoginPassword args))
     then trace s' = trace s @ [Exec (bbbConfigScript (config s)) [''set'', ''loginpw'', lp_LoginPassword args]] \<and>
       Success r = (snd (fst (exec_combined E (bbbConfigScript (config s))
         [''set'', ''loginpw'', lp_LoginPassword args] (world s))) = None)
     else s' = s \<and> \<not> Success r \<and> Code r = ErrorSetLoginPasswordTooShort)"
  by (auto simp: SetLoginPassword_def config_script_rpc_def runBBBConfigScript_def runCommand_def
      GetBBBConfigScript_def script_response_def script_failure_def Let_def
      split: prod.splits option.splits)

text \<open>
  The setup wizard is finalised in three steps, each run only if the one before succeeded:
  enable the services, start them, record it in Redis.  The response is a success exactly if all
  three succeed; after a failed script the Redis flag is not written.
\<close>

theorem FinalizeSetupWizard_steps:
  "(case run_state (runBBBConfigScript E [''enable'', ''bitcoin_services'']) s of ((out1, err1), s1) \<Rightarrow>
    case run_state (runBBBSystemctlScript E [''start-bitcoin-services'']) s1 of ((out2, err2), s2) \<Rightarrow>
    case run_state (redis_SetString E BaseSetupDone ''1'') s2 of (err3, s3) \<Rightarrow>
    case run_state (FinalizeSetupWizard E) s of (r, s') \<Rightarrow>
      Success r = (err1 = None \<and> err2 = None \<and> err3 = None) \<and>
      s' = (if err1 \<noteq> None then s1 else if err2 \<noteq> None then s2 else s3))"
  by (auto simp: FinalizeSetupWizard_def script_failure_def redis_ConvertErrorToErrorResponse_def
      split: option.splits prod.splits)

text \<open>
  Configuring the HSM, which also follows every change of the host name, panics exactly
  when an HSM is present, the host name and the address metric could be read, and the metric's
  text is not an IPv4 address (for example empty because the metric has no such label).
\<close>

theorem setHSMConfig_panics_iff:
  "(case run_state (redis_GetString E BaseHostname) s of ((hostname, err), s1) \<Rightarrow>
    case run_state (prom_GetMetricString E (prometheusClient s1) BaseSystemInfo ''base_ipaddress'') s1 of (ip, s2) \<Rightarrow>
      (fst (run_state (setHSMConfig E) s) = Panic) =
        (hsmPresent s \<and> err = None \<and> (\<exists>a. ip = Inr a \<and> ParseIP_To4 E a = None)))"
  by (auto simp: setHSMConfig_def split: prod.splits option.splits sum.splits)

end
