(* ===== verification/Middleware_Update.thy ===== *)
theory Middleware_Update
  imports Middleware_Scripts
begin

text \<open>
  Base image updates: the parsing of the installer's progress lines (util.go
  \<open>parseBaseUpdateStdout\<close>), the RPC \<open>UpdateBase\<close> with its state machine, and the loop that looks
  for new versions (middleware.go \<open>updateCheckLoop\<close>, util.go \<open>getBaseUpdateInfo\<close>).

  A run of the installer is one value of type \<open>update_run\<close>.  The two goroutines of \<open>UpdateBase\<close>
  only share the list of standard error lines, which the main one reads after the process has
  ended; \<open>stderr_lines\<close> is that list.

  Lemma groups: progress lines are read back; \<open>run_process_lines\<close> and \<open>run_finish_update\<close> give the
  progress fields and notifications of a run as a fold over its output, on which the properties
  rest.
\<close>

subsection \<open>Progress lines\<close>

definition progress_prefix :: string where
  "progress_prefix = ''................................''"

definition parseBaseUpdateStdout :: "string \<Rightarrow> bool \<times> int \<times> int" where
  "parseBaseUpdateStdout outputLine =
     (if \<not> HasPrefix outputLine progress_prefix \<or> \<not> HasSuffix outputLine ''KiB'' then (False, 0, 0)
      else (let strippedProgress =
              TrimSpace (TrimPrefix (TrimSuffix outputLine ''KiB'') progress_prefix);
            splittedProgress = Split strippedProgress (CHR '' '')
        in if length splittedProgress \<noteq> 2 then (False, 0, 0)
           else (case Atoi (Replace (splittedProgress ! 0) ''%'' [] 1) of
               Inl e \<Rightarrow> (False, 0, 0)
             | Inr percentage \<Rightarrow>
                 (case Atoi (splittedProgress ! 1) of
                    Inl e \<Rightarrow> (False, 0, 0)
                  | Inr downloadedKiB \<Rightarrow> (True, percentage, downloadedKiB)))))"

text \<open>What the installer prints for a percentage and a number of KiB, with its padding.\<close>

definition progress_line :: "nat \<Rightarrow> nat \<Rightarrow> nat \<Rightarrow> nat \<Rightarrow> string" where
  "progress_line pad percentage kib pad' = progress_prefix @ replicate pad (CHR '' '') @
     Itoa (int percentage) @ ''% '' @ Itoa (int kib) @ replicate pad' (CHR '' '') @ ''KiB''"

subsection \<open>UpdateBase\<close>

definition update_in_progress :: "BaseUpdateState \<Rightarrow> bool" where
  "update_in_progress st \<longleftrightarrow> st = UpdateDownloading \<or> st = UpdateApplying \<or> st = UpdateRebooting"

definition process_line :: "string \<Rightarrow> ('w, unit) mw" where
  "process_line lineOut = (case parseBaseUpdateStdout lineOut of
     (containsProgressUpdateInfo, percentage, downloadedKiB) \<Rightarrow>
       if containsProgressUpdateInfo then do {
         _ \<leftarrow> modify (\<lambda>s. s\<lparr>baseUpdateProgress := (baseUpdateProgress s)
           \<lparr>ProgressPercentage := percentage, ProgressDownloadedKiB := downloadedKiB\<rparr>\<rparr>);
         (if percentage < 98 then setBaseUpdateStateAndNotify UpdateDownloading
          else setBaseUpdateStateAndNotify UpdateApplying)
       } else State_Monad.return ())"

primrec process_lines :: "string list \<Rightarrow> ('w, unit) mw" where
  "process_lines [] = State_Monad.return ()"
| "process_lines (l # ls) = do { _ \<leftarrow> process_line l; process_lines ls }"

text \<open>From the end of the process on.\<close>

definition finish_update :: "'w env \<Rightarrow> update_run \<Rightarrow> ('w, ErrorResponse) mw" where
  "finish_update E r = (let errOutLines = map (\<lambda>l. TrimSuffix l [newline]) (stderr_lines r) in
     case wait_err r of
       Some err \<Rightarrow> do {
         let errorCode = handleBBBScriptErrorCode errOutLines err
           [ErrorMenderUpdateImageNotMenderEnabled, ErrorMenderUpdateInstallFailed,
            ErrorMenderUpdateInvalidVersion, ErrorMenderUpdateNoVersion];
         _ \<leftarrow> setBaseUpdateStateAndNotify UpdateFailed;
         State_Monad.return (failure errorCode (Join errOutLines [newline]))
       }
     | None \<Rightarrow> do {
         _ \<leftarrow> setBaseUpdateStateAndNotify UpdateRebooting;
         resp \<leftarrow> RebootBase E;
         State_Monad.return (if \<not> Success resp then resp else success)
       })"

definition update_not_started :: ErrorResponse where
  "update_not_started = failure ErrorMenderUpdateInstallFailed
     ''Could not start the update process. Please see the Middleware log for more detail.''"

definition update_refused :: ErrorResponse where
  "update_refused = failure ErrorMenderUpdateAlreadyInProgress
     (''Could not start the update process. A Base update is already in progress or the Base has ''
      @ ''to be rebooted.'')"

definition update_unreadable :: ErrorResponse where
  "update_unreadable = failure ErrorMenderUpdateInstallFailed
     ''An error occurred while performing the Base update. Please see the Middleware log for more detail.''"

definition UpdateBase :: "'w env \<Rightarrow> UpdateBaseArgs \<Rightarrow> ('w, ErrorResponse) mw" where
  "UpdateBase E args = do {
     progress \<leftarrow> gets baseUpdateProgress;
     if update_in_progress (UpdateState progress)
     then State_Monad.return update_refused
     else do {
       c \<leftarrow> gets config;
       r \<leftarrow> ext (Exec (GetBBBCmdScript c) [''mender-update'', ''install'', ub_Version args])
         (exec_update E (GetBBBCmdScript c) [''mender-update'', ''install'', ub_Version args]);
       if stdout_pipe_err r \<or> stderr_pipe_err r \<or> start_err r
       then State_Monad.return update_not_started
       else do {
         _ \<leftarrow> process_lines (stdout_lines r);
         if stdout_read_err r then do {
           _ \<leftarrow> setBaseUpdateStateAndNotify UpdateFailed;
           State_Monad.return update_unreadable
         } else finish_update E r
       }
     }
   }"

definition GetBaseUpdateProgress :: "('w, GetBaseUpdateProgressResponse) mw" where
  "GetBaseUpdateProgress = gets baseUpdateProgress"

subsection \<open>Looking for updates\<close>

definition decode_update_field :: "string \<times> json \<Rightarrow> UpdateInfo \<Rightarrow> UpdateInfo option" where
  "decode_update_field kv u = (case kv of (k, v) \<Rightarrow>
     if EqualFold k ''description'' then
       (case v of JString s \<Rightarrow> Some (u\<lparr>ui_Description := s\<rparr>) | JNull \<Rightarrow> Some u | _ \<Rightarrow> None)
     else if EqualFold k ''version'' then
       (case v of JString s \<Rightarrow> Some (u\<lparr>ui_Version := s\<rparr>) | JNull \<Rightarrow> Some u | _ \<Rightarrow> None)
     else if EqualFold k ''severity'' then
       (case v of JString s \<Rightarrow> Some (u\<lparr>ui_Severity := s\<rparr>) | JNull \<Rightarrow> Some u | _ \<Rightarrow> None)
     else Some u)"

fun decode_update_fields :: "(string \<times> json) list \<Rightarrow> UpdateInfo \<Rightarrow> UpdateInfo option" where
  "decode_update_fields [] u = Some u"
| "decode_update_fields (kv # kvs) u =
     (case decode_update_field kv u of None \<Rightarrow> None | Some u' \<Rightarrow> decode_update_fields kvs u')"

definition empty_update_info :: UpdateInfo where
  "empty_update_info = \<lparr>ui_Description = [], ui_Version = [], ui_Severity = []\<rparr>"

text \<open>\<open>json.NewDecoder(body).Decode\<close>: the first value of the stream; what follows is not read.\<close>

definition decode_update_info :: "string \<Rightarrow> UpdateInfo option" where
  "decode_update_info body = (case parse_value (2 * length body + 2) (skip_ws body) of
     None \<Rightarrow> None
   | Some (JObject kvs, rest) \<Rightarrow> decode_update_fields kvs empty_update_info
   | Some (JNull, rest) \<Rightarrow> Some empty_update_info
   | Some (_, rest) \<Rightarrow> None)"

text \<open>\<open>None\<close> stands for the returned error, which the caller only logs.\<close>

definition getBaseUpdateInfo :: "'w env \<Rightarrow> string \<Rightarrow> ('w, UpdateInfo option) mw" where
  "getBaseUpdateInfo E url = do {
     response \<leftarrow> http_Get E url;
     State_Monad.return (case response of
       Inl e \<Rightarrow> None
     | Inr (Inl e) \<Rightarrow> None
     | Inr (Inr body) \<Rightarrow> decode_update_info body)
   }"

text \<open>30 minutes in milliseconds.\<close>

definition timeBetweenUpdateChecks :: nat where
  "timeBetweenUpdateChecks = 30 * 60 * 1000"

text \<open>One iteration of \<open>updateCheckLoop\<close>.\<close>

definition announce_update :: "UpdateInfo \<Rightarrow> ('w, unit) mw" where
  "announce_update info = do {
     _ \<leftarrow> modify (\<lambda>s. s\<lparr>baseUpdateAvailable := (baseUpdateAvailable s)
       \<lparr>UpdateAvailable := True, av_UpdateInfo := info\<rparr>\<rparr>);
     emit \<lparr>Identifier = OpBaseUpdateIsAvailable, QueueIfNoClient = False\<rparr>
   }"

definition updateCheck :: "'w env \<Rightarrow> ('w, unit go) mw" where
  "updateCheck E = do {
     c \<leftarrow> gets config;
     updateInfo \<leftarrow> getBaseUpdateInfo E (GetImageUpdateInfoURL c);
     (case updateInfo of
        None \<Rightarrow> do { _ \<leftarrow> sleep timeBetweenUpdateChecks; State_Monad.return (Ret ()) }
      | Some info \<Rightarrow>
          (case semver_parse E (ui_Version info) of
             (_, Some e) \<Rightarrow> do { _ \<leftarrow> sleep timeBetweenUpdateChecks; State_Monad.return (Ret ()) }
           | (newVersion, None) \<Rightarrow> do {
               current \<leftarrow> gets baseVersion;
               (case semver_at_least E current newVersion of
                  Panic \<Rightarrow> State_Monad.return Panic
                | Ret True \<Rightarrow> do { _ \<leftarrow> sleep timeBetweenUpdateChecks; State_Monad.return (Ret ()) }
                | Ret False \<Rightarrow>
                    if semver_string E current = Panic \<or> semver_string E newVersion = Panic
                    then State_Monad.return Panic
                    else do {
                      _ \<leftarrow> announce_update info;
                      _ \<leftarrow> sleep timeBetweenUpdateChecks;
                      State_Monad.return (Ret ()) }) }))
   }"

definition IsBaseUpdateAvailable :: "('w, IsBaseUpdateAvailableResponse) mw" where
  "IsBaseUpdateAvailable = gets baseUpdateAvailable"

subsection \<open>Progress lines are read back\<close>

lemma TrimSpace_ascii:
  assumes "\<And>c. c \<in> set s \<Longrightarrow> byte c < 128"
  shows "TrimSpace s = rev (dropWhile (\<lambda>c. IsSpace (byte c)) (rev (dropWhile (\<lambda>c. IsSpace (byte c)) s)))"
proof -
  have "concat (map (\<lambda>c. [c]) t) = t" for t :: string by (induction t) auto
  moreover have "runes s = map (\<lambda>c. (byte c, [c])) s" using assms by (rule runes_all_ascii)
  ultimately show ?thesis
    by (simp add: TrimSpace_def dropWhile_map rev_map comp_def)
qed

lemma TrimSpace_padded:
  assumes "\<And>c. c \<in> set s \<Longrightarrow> byte c < 128" "s \<noteq> []" "\<not> IsSpace (byte (hd s))" "\<not> IsSpace (byte (last s))"
  shows "TrimSpace (replicate i (CHR '' '') @ s @ replicate j (CHR '' '')) = s"
proof -
  let ?sp = "\<lambda>c. IsSpace (byte c)"
  have sp: "IsSpace 32" by (simp add: IsSpace_def)
  have drop: "dropWhile ?sp (replicate n (CHR '' '') @ t) = dropWhile ?sp t" for n t
    by (induction n) (auto simp: sp)
  have l: "dropWhile ?sp (s @ t) = s @ t" for t using assms(2,3) by (cases s) auto
  have "rev s \<noteq> []" "\<not> ?sp (hd (rev s))" using assms(2,4) by (auto simp: hd_rev)
  then have r: "dropWhile ?sp (rev s) = rev s" by (cases "rev s") auto
  have "TrimSpace (replicate i (CHR '' '') @ s @ replicate j (CHR '' '')) =
      rev (dropWhile ?sp (rev (dropWhile ?sp (replicate i (CHR '' '') @ s @ replicate j (CHR '' '')))))"
    using assms(1) by (intro TrimSpace_ascii) (auto simp: in_set_replicate)
  also have "\<dots> = s" unfolding drop l by (simp add: drop r)
  finally show ?thesis .
qed

lemma Index_char: "c \<notin> set s \<Longrightarrow> Index (s @ c # t) [c] = Some (length s)"
proof (induction s)
  case Nil
  then show ?case by (simp add: Index.simps [of "c # t"])
next
  case (Cons d s)
  then show ?case by (simp add: Index.simps [of "d # s @ c # t"])
qed

lemma Replace_last_char: "c \<notin> set s \<Longrightarrow> Replace (s @ [c]) [c] [] 1 = s"
  using Index_char [of c s "[]"] by (simp add: Replace_step) (simp add: Replace.simps)

lemma itoa_chars:
  "c \<in> set (Itoa (int n)) \<Longrightarrow> byte c < 128 \<and> \<not> IsSpace (byte c) \<and> c \<noteq> CHR ''%'' \<and> c \<noteq> CHR '' ''"
  using Itoa_nat_chars [of c n] by (auto simp: is_digit_def IsSpace_def)

lemma Itoa_nonempty [simp]: "Itoa (int n) \<noteq> []"
  by (simp add: Itoa_def)

text \<open>
  A progress line the installer prints is read back: for every percentage and every amount
  in the range of \<open>int\<close>, however the numbers are padded.
\<close>

theorem progress_line_read_back:
  assumes "int p \<le> int_max" "int k \<le> int_max"
  shows "parseBaseUpdateStdout (progress_line pad p k pad') = (True, int p, int k)"
proof -
  let ?core = "Itoa (int p) @ ''% '' @ Itoa (int k)"
  let ?t = "progress_prefix @ replicate pad (CHR '' '') @ ?core @ replicate pad' (CHR '' '')"
  have line: "progress_line pad p k pad' = ?t @ ''KiB''" by (simp add: progress_line_def)
  have "TrimSpace (replicate pad (CHR '' '') @ ?core @ replicate pad' (CHR '' '')) = ?core"
  proof (rule TrimSpace_padded)
    show "byte c < 128" if "c \<in> set ?core" for c using that itoa_chars by fastforce
    show "\<not> IsSpace (byte (hd ?core))" using itoa_chars [of "hd (Itoa (int p))" p] by (simp add: hd_append)
    show "\<not> IsSpace (byte (last ?core))" using itoa_chars [of "last (Itoa (int k))" k] by simp
  qed simp
  then have strip: "TrimSpace (TrimPrefix (TrimSuffix (?t @ ''KiB'') ''KiB'') progress_prefix) = ?core"
    by (simp only: TrimSuffix_appended TrimPrefix_appended)
  have "Split ((Itoa (int p) @ ''%'') @ CHR '' '' # Itoa (int k)) (CHR '' '') = [Itoa (int p) @ ''%'', Itoa (int k)]"
    using itoa_chars Split_no_sep [of "CHR '' ''" "Itoa (int k)"]
    by (subst Split_append) auto
  then have split: "Split ?core (CHR '' '') = [Itoa (int p) @ ''%'', Itoa (int k)]" by simp
  have rep: "Replace (Itoa (int p) @ ''%'') ''%'' [] 1 = Itoa (int p)"
    using itoa_chars by (intro Replace_last_char) blast
  have atoi: "Atoi (Itoa (int p)) = Inr (int p)" "Atoi (Itoa (int k)) = Inr (int k)"
    using assms by (auto intro!: Atoi_Itoa simp: int_min_def)
  have "HasPrefix (?t @ ''KiB'') progress_prefix" "HasSuffix (?t @ ''KiB'') ''KiB''"
    by (simp_all only: append_assoc HasPrefix_appended HasSuffix_append) (metis append_assoc)
  then show ?thesis unfolding line parseBaseUpdateStdout_def Let_def strip split
    by (simp add: rep atoi)
qed

subsection \<open>What a run of UpdateBase leaves behind\<close>

text \<open>The effect of one output line on the progress fields, and the state it leads to.\<close>

definition line_step :: "string \<Rightarrow> GetBaseUpdateProgressResponse \<Rightarrow> GetBaseUpdateProgressResponse" where
  "line_step l pr = (case parseBaseUpdateStdout l of (info, p, k) \<Rightarrow>
     if info then pr\<lparr>ProgressPercentage := p, ProgressDownloadedKiB := k,
       UpdateState := if p < 98 then UpdateDownloading else UpdateApplying\<rparr>
     else pr)"

definition progress_lines :: "string list \<Rightarrow> string list" where
  "progress_lines ls = [l \<leftarrow> ls. fst (parseBaseUpdateStdout l)]"

abbreviation progress_changed :: effect where
  "progress_changed \<equiv> Emit \<lparr>Identifier = OpBaseUpdateProgressChanged, QueueIfNoClient = True\<rparr>"

lemma run_process_line:
  "run_state (process_line l) s =
    ((), s\<lparr>baseUpdateProgress := line_step l (baseUpdateProgress s),
      trace := trace s @ (if fst (parseBaseUpdateStdout l) then [progress_changed] else [])\<rparr>)"
  by (auto simp: process_line_def line_step_def setBaseUpdateStateAndNotify_def split: prod.splits)

lemma run_process_lines:
  "run_state (process_lines ls) s =
    ((), s\<lparr>baseUpdateProgress := fold line_step ls (baseUpdateProgress s),
      trace := trace s @ replicate (length (progress_lines ls)) progress_changed\<rparr>)"
proof (induction ls arbitrary: s)
  case Nil
  then show ?case by (simp add: progress_lines_def)
next
  case (Cons l ls)
  have "replicate n x @ [x] = x # replicate n x" for n and x :: effect
    by (metis replicate_append_same replicate_Suc)
  with Cons show ?case by (simp add: run_process_line progress_lines_def)
qed

lemma run_notify:
  "run_state (setBaseUpdateStateAndNotify st) s =
    ((), s\<lparr>baseUpdateProgress := (baseUpdateProgress s)\<lparr>UpdateState := st\<rparr>, trace := trace s @ [progress_changed]\<rparr>)"
  by (simp add: setBaseUpdateStateAndNotify_def)

lemma RebootBase_effects:
  "run_state (RebootBase E) s = (r, s') \<Longrightarrow>
    baseUpdateProgress s' = baseUpdateProgress s \<and>
    (\<exists>es. trace s' = trace s @ es \<and> progress_changed \<notin> set es) \<and>
    Success r = (redisMock (config s) \<or> fst (look_path E ''reboot'' (world s)) = None)"
  by (auto simp: RebootBase_def power_command_def IsRedisMock_def split: if_splits option.splits)

lemma run_finish_update:
  assumes "run_state (finish_update E r) s = (resp, s')"
  shows "baseUpdateProgress s' = (baseUpdateProgress s)
      \<lparr>UpdateState := if wait_err r = None then UpdateRebooting else UpdateFailed\<rparr>"
    and "\<exists>es. trace s' = trace s @ progress_changed # es \<and> progress_changed \<notin> set es"
    and "Success resp = (wait_err r = None \<and> (redisMock (config s) \<or> fst (look_path E ''reboot'' (world s)) = None))"
proof -
  let ?s1 = "s\<lparr>baseUpdateProgress := (baseUpdateProgress s)\<lparr>UpdateState := UpdateRebooting\<rparr>,
    trace := trace s @ [progress_changed]\<rparr>"
  obtain rb s2 where rb: "run_state (RebootBase E) ?s1 = (rb, s2)" by fastforce
  note eff = RebootBase_effects [OF rb]
  have "baseUpdateProgress s' = (baseUpdateProgress s)
      \<lparr>UpdateState := if wait_err r = None then UpdateRebooting else UpdateFailed\<rparr> \<and>
    (\<exists>es. trace s' = trace s @ progress_changed # es \<and> progress_changed \<notin> set es) \<and>
    Success resp = (wait_err r = None \<and> (redisMock (config s) \<or> fst (look_path E ''reboot'' (world s)) = None))"
  proof (cases "wait_err r")
    case None
    with assms rb eff show ?thesis by (auto simp: finish_update_def run_notify Let_def)
  next
    case (Some e)
    with assms show ?thesis by (auto simp: finish_update_def run_notify Let_def)
  qed
  then show "baseUpdateProgress s' = (baseUpdateProgress s)
      \<lparr>UpdateState := if wait_err r = None then UpdateRebooting else UpdateFailed\<rparr>"
    and "\<exists>es. trace s' = trace s @ progress_changed # es \<and> progress_changed \<notin> set es"
    and "Success resp = (wait_err r = None \<and> (redisMock (config s) \<or> fst (look_path E ''reboot'' (world s)) = None))"
    by - (elim conjE, assumption)+
qed

definition installer_args :: "UpdateBaseArgs \<Rightarrow> string list" where
  "installer_args args = [''mender-update'', ''install'', ub_Version args]"

text \<open>The effects of an operation, as the part of the trace it added.\<close>

definition new_effects :: "'w middleware \<Rightarrow> 'w middleware \<Rightarrow> effect list" where
  "new_effects s s' = drop (length (trace s)) (trace s')"

lemma count_replicate [simp]: "count_list (replicate n x) x = n"
  by (induction n) auto

lemma count_not_in: "x \<notin> set xs \<Longrightarrow> count_list xs x = 0"
  by (induction xs) auto

definition never_started :: "update_run \<Rightarrow> bool" where
  "never_started run \<longleftrightarrow> stdout_pipe_err run \<or> stderr_pipe_err run \<or> start_err run"

definition ended_well :: "update_run \<Rightarrow> bool" where
  "ended_well run \<longleftrightarrow> \<not> stdout_read_err run \<and> wait_err run = None"


lemma progress_line_read_back_witness:
  "parseBaseUpdateStdout (progress_line 2 98 1024 1) = (True, 98, 1024)"
  using progress_line_read_back [of 98 1024 2 1] by (simp add: int_max_def)

definition fetched :: "'w env \<Rightarrow> 'w middleware \<Rightarrow> UpdateInfo option" where
  "fetched E s = (case fst (http_get E (imageUpdateInfoURL (config s)) (world s)) of
     Inr (Inr body) \<Rightarrow> decode_update_info body | _ \<Rightarrow> None)"

definition newer :: "'w env \<Rightarrow> semver option \<Rightarrow> UpdateInfo \<Rightarrow> bool" where
  "newer E current info \<longleftrightarrow> (case semver_parse E (ui_Version info) of
     (v, None) \<Rightarrow> semver_at_least E current v = Ret False \<and>
       semver_string E current \<noteq> Panic \<and> semver_string E v \<noteq> Panic
   | _ \<Rightarrow> False)"

text \<open>
  One round of the update check announces an update, that is, records its information and
  sends one notification, exactly if the information could be fetched and decoded, its version
  could be parsed and the installed version is not at least that; an update once announced is
  never withdrawn.
\<close>

theorem updateCheck_announces:
  "(case run_state (updateCheck E) s of (r, s') \<Rightarrow>
      (case fetched E s of
         Some info \<Rightarrow> if newer E (baseVersion s) info
           then baseUpdateAvailable s' = (baseUpdateAvailable s)\<lparr>UpdateAvailable := True, av_UpdateInfo := info\<rparr> \<and>
             new_effects s s' = [HttpGet (imageUpdateInfoURL (config s)),
               Emit \<lparr>Identifier = OpBaseUpdateIsAvailable, QueueIfNoClient = False\<rparr>, Sleep timeBetweenUpdateChecks]
           else baseUpdateAvailable s' = baseUpdateAvailable s \<and>
             Emit \<lparr>Identifier = OpBaseUpdateIsAvailable, QueueIfNoClient = False\<rparr> \<notin> set (new_effects s s')
       | None \<Rightarrow> baseUpdateAvailable s' = baseUpdateAvailable s \<and>
           new_effects s s' = [HttpGet (imageUpdateInfoURL (config s)), Sleep timeBetweenUpdateChecks]))"
  by (auto simp: updateCheck_def getBaseUpdateInfo_def http_Get_def fetched_def newer_def new_effects_def
      announce_update_def GetImageUpdateInfoURL_def
      split: sum.splits option.splits prod.splits go.splits bool.splits)

end
