(* ===== verification/Threads.thy ===== *)
theory Threads
  imports Prelude
begin

text \<open>
  Goroutines over shared state.  A thread is a value that says where its function stands and what
  its local variables hold; a step of thread \<open>i\<close> maps it and the shared state to their
  successors.  \<open>interleaved\<close> starts new threads and runs the existing ones in any order,
  \<open>schedule\<close> runs them in a given one.

  Two locales state what the components prove of their threads.  \<open>cut_operation\<close>: the steps of a
  thread that runs alone are the operation they were cut from.  \<open>thread_proof\<close>: an invariant of
  the shared state with an assertion for every place a thread can be at, which its own step
  establishes and the steps of the others do not disturb.
\<close>

subsection \<open>Interleavings\<close>

inductive interleaved ::
  "(nat \<Rightarrow> 't \<Rightarrow> 's \<Rightarrow> 't \<times> 's) \<Rightarrow> ('t \<Rightarrow> bool) \<Rightarrow> 't list \<times> 's \<Rightarrow> 't list \<times> 's \<Rightarrow> bool"
  for step new where
  spawn: "new t \<Longrightarrow> interleaved step new (ts, s) (ts @ [t], s)"
| run: "i < length ts \<Longrightarrow> step i (ts ! i) s = (t, s') \<Longrightarrow> interleaved step new (ts, s) (ts[i := t], s')"

inductive_cases interleavedE: "interleaved step new (ts, s) c"

primrec schedule :: "(nat \<Rightarrow> 't \<Rightarrow> 's \<Rightarrow> 't \<times> 's) \<Rightarrow> nat list \<Rightarrow> 't list \<times> 's \<Rightarrow> 't list \<times> 's" where
  "schedule step [] c = c"
| "schedule step (i # is) c =
     schedule step is (case step i (fst c ! i) (snd c) of (t, s') \<Rightarrow> ((fst c)[i := t], s'))"

lemma schedule_append [simp]: "schedule step (is @ js) c = schedule step js (schedule step is c)"
  by (induction "is" arbitrary: c) simp_all

lemma schedule_length: "length (fst (schedule step is c)) = length (fst c)"
  by (induction "is" arbitrary: c) (simp_all split: prod.splits)

lemma schedule_reached:
  "list_all (\<lambda>i. i < length (fst c)) is \<Longrightarrow> (interleaved step new)\<^sup>*\<^sup>* c (schedule step is c)"
proof (induction "is" arbitrary: c)
  case (Cons i "is")
  obtain ts s t s' where c: "c = (ts, s)" "step i (ts ! i) s = (t, s')" by (metis surj_pair)
  then have "interleaved step new c (ts[i := t], s')" using Cons.prems by (simp add: interleaved.run)
  also have "(interleaved step new)\<^sup>*\<^sup>* (ts[i := t], s') (schedule step is (ts[i := t], s'))"
    using Cons.prems c by (intro Cons.IH) (simp add: list_all_iff)
  finally (converse_rtranclp_into_rtranclp) show ?case using c by simp
qed simp

lemma spawned_reached: "(\<And>t. t \<in> set us \<Longrightarrow> new t) \<Longrightarrow> (interleaved step new)\<^sup>*\<^sup>* (ts, s) (ts @ us, s)"
proof (induction us rule: rev_induct)
  case (snoc u us)
  then have "(interleaved step new)\<^sup>*\<^sup>* (ts, s) (ts @ us, s)" by simp
  also have "interleaved step new (ts @ us, s) ((ts @ us) @ [u], s)"
    using snoc.prems by (intro interleaved.spawn) simp
  finally show ?case by simp
qed simp

subsection \<open>A thread that runs alone\<close>

primrec alone :: "('t \<Rightarrow> ('s, 't) state) \<Rightarrow> nat \<Rightarrow> 't \<Rightarrow> ('s, 't) state" where
  "alone step 0 t = State_Monad.return t"
| "alone step (Suc n) t = do { t' \<leftarrow> step t; alone step n t' }"

lemma schedule_alone:
  "i < length ts \<Longrightarrow> schedule (\<lambda>i t. run_state (step t)) (replicate n i) (ts, s) =
    (case run_state (alone step n (ts ! i)) s of (t, s') \<Rightarrow> (ts[i := t], s'))"
proof (induction n arbitrary: ts s)
  case (Suc n)
  obtain u s1 where u: "run_state (step (ts ! i)) s = (u, s1)" by fastforce
  with Suc.IH [of "ts[i := u]" s1] Suc.prems show ?case by (auto split: prod.splits)
qed simp

text \<open>
  \<open>rest t\<close> is what remains of the operation at \<open>t\<close>, \<open>ended t\<close> its result if nothing does, \<open>left t\<close>
  a bound of the steps still to come.
\<close>

locale cut_operation =
  fixes step :: "'t \<Rightarrow> ('s, 't) state" and rest :: "'t \<Rightarrow> ('s, 'a) state"
    and ended :: "'t \<Rightarrow> 'a option" and left :: "'t \<Rightarrow> nat"
  assumes one_step: "run_state (step t) s = (t', s') \<Longrightarrow> run_state (rest t) s = run_state (rest t') s'"
    and last_step: "ended t = Some a \<Longrightarrow> run_state (rest t) s = (a, s)"
    and fewer: "run_state (step t) s = (t', s') \<Longrightarrow> ended t = None \<Longrightarrow> left t' < left t"
    and stays: "ended t = Some a \<Longrightarrow> run_state (step t) s = (t, s)"
begin

lemma alone_ended: "ended t = Some a \<Longrightarrow> run_state (alone step n t) s = (t, s)"
  by (induction n) (simp_all add: stays)

theorem alone_rest:
  "left t \<le> n \<Longrightarrow> run_state (alone step n t) s = (t', s') \<Longrightarrow>
    \<exists>a. ended t' = Some a \<and> run_state (rest t) s = (a, s')"
proof (induction n arbitrary: t s)
  case 0
  obtain u s1 where u: "run_state (step t) s = (u, s1)" by fastforce
  from 0(1) fewer [OF u] obtain a where "ended t = Some a" by (cases "ended t") auto
  with 0(2) show ?case by (simp add: last_step)
next
  case (Suc n)
  show ?case
  proof (cases "ended t")
    case (Some a)
    with Suc.prems(2) alone_ended [of t a "Suc n" s] show ?thesis by (auto simp: last_step simp del: alone.simps)
  next
    case None
    obtain u s1 where u: "run_state (step t) s = (u, s1)" by fastforce
    with fewer [OF u None] Suc.prems have "left u \<le> n" "run_state (alone step n u) s1 = (t', s')" by simp_all
    with Suc.IH one_step [OF u] show ?thesis by simp
  qed
qed

end

subsection \<open>Invariants of interleavings\<close>

locale thread_proof =
  fixes step :: "nat \<Rightarrow> 't \<Rightarrow> 's \<Rightarrow> 't \<times> 's" and new :: "'t \<Rightarrow> bool"
    and inv :: "'s \<Rightarrow> bool" and assn :: "'t \<Rightarrow> 's \<Rightarrow> bool"
  assumes spawned: "new t \<Longrightarrow> inv s \<Longrightarrow> assn t s"
    and own_step: "inv s \<Longrightarrow> assn t s \<Longrightarrow> step i t s = (t', s') \<Longrightarrow> inv s' \<and> assn t' s'"
    and no_interference: "inv s \<Longrightarrow> assn t s \<Longrightarrow> assn u s \<Longrightarrow> step i t s = (t', s') \<Longrightarrow> assn u s'"
begin

definition holds :: "'t list \<times> 's \<Rightarrow> bool" where
  "holds c \<longleftrightarrow> inv (snd c) \<and> (\<forall>t \<in> set (fst c). assn t (snd c))"

lemma holds_step: "interleaved step new c c' \<Longrightarrow> holds c \<Longrightarrow> holds c'"
proof (induction rule: interleaved.induct)
  case (spawn t ts s)
  then show ?case by (auto simp: holds_def spawned)
next
  case (run i ts s t s')
  then have here: "inv s" "assn (ts ! i) s" by (simp_all add: holds_def)
  have "assn u s'" if "u \<in> set ts" for u
    using no_interference [OF here _ run(2)] run(3) that by (simp add: holds_def)
  moreover have "u = t \<or> u \<in> set ts" if "u \<in> set (ts[i := t])" for u
    using set_update_subset_insert [of ts i t] that by blast
  ultimately show ?case using own_step [OF here run(2)] by (auto simp: holds_def)
qed

lemma reached_holds: "(interleaved step new)\<^sup>*\<^sup>* c c' \<Longrightarrow> holds c \<Longrightarrow> holds c'"
  by (induction rule: rtranclp_induct) (auto intro: holds_step)

lemma reached_inv: "(interleaved step new)\<^sup>*\<^sup>* ([], s) (ts, s') \<Longrightarrow> inv s \<Longrightarrow> inv s'"
  using reached_holds [of "([], s)" "(ts, s')"] by (simp add: holds_def)

end

end
