(* ===== verification/Update_Threads.thy ===== *)
theory Update_Threads
  imports Middleware_Update Threads
begin

text \<open>
  Concurrent calls of \<open>UpdateBase\<close> (middleware.go).  \<open>net/rpc\<close> serves every request in a goroutine
  of its own, so two calls can run at once; they share the progress fields of the struct.
  \<open>thread_step\<close> cuts \<open>UpdateBase\<close> at the points between which other goroutines may run: the check
  of the progress state, the start of the installer, each line of its output, the end.
  \<open>interleave\<close> runs any number of such calls in any order (theory Threads).

  Lemma groups: a call that runs alone takes at most three steps more than the installer prints
  lines and is \<open>UpdateBase\<close> (so the cut is faithful); what holds of every interleaving; what
  goes wrong in one.
\<close>

subsection \<open>Threads\<close>

datatype update_thread =
    Called UpdateBaseArgs
  | Checked UpdateBaseArgs
  | Installing update_run "string list"   \<comment> \<open>the lines still to be read\<close>
  | Answered ErrorResponse

fun thread_step :: "'w env \<Rightarrow> update_thread \<Rightarrow> ('w, update_thread) mw" where
  "thread_step E (Called args) = do {
     progress \<leftarrow> gets baseUpdateProgress;
     State_Monad.return
       (if update_in_progress (UpdateState progress) then Answered update_refused else Checked args)
   }"
| "thread_step E (Checked args) = do {
     c \<leftarrow> gets config;
     r \<leftarrow> ext (Exec (GetBBBCmdScript c) (installer_args args)) (exec_update E (GetBBBCmdScript c) (installer_args args));
     State_Monad.return
       (if never_started r then Answered update_not_started else Installing r (stdout_lines r))
   }"
| "thread_step E (Installing r (l # ls)) = do {
     _ \<leftarrow> process_line l;
     State_Monad.return (Installing r ls)
   }"
| "thread_step E (Installing r []) =
     (if stdout_read_err r then do {
        _ \<leftarrow> setBaseUpdateStateAndNotify UpdateFailed;
        State_Monad.return (Answered update_unreadable)
      } else do {
        resp \<leftarrow> finish_update E r;
        State_Monad.return (Answered resp)
      })"
| "thread_step E (Answered resp) = State_Monad.return (Answered resp)"

fun is_call :: "update_thread \<Rightarrow> bool" where
  "is_call (Called args) = True"
| "is_call _ = False"

abbreviation interleave ::
  "'w env \<Rightarrow> update_thread list \<times> 'w middleware \<Rightarrow> update_thread list \<times> 'w middleware \<Rightarrow> bool" where
  "interleave E \<equiv> interleaved (\<lambda>i t. run_state (thread_step E t)) is_call"

fun is_installing :: "update_thread \<Rightarrow> bool" where
  "is_installing (Installing r ls) = True"
| "is_installing _ = False"

subsection \<open>A call that runs alone\<close>

lemma alone_answered [simp]: "alone (thread_step E) n (Answered r) = State_Monad.return (Answered r)"
  by (induction n) simp_all

lemma alone_lines:
  "length ls < n \<Longrightarrow> run_state (alone (thread_step E) n (Installing r ls)) s =
    run_state (State_Monad.bind (process_lines ls) (\<lambda>_. alone (thread_step E) (n - length ls) (Installing r []))) s"
proof (induction ls arbitrary: n s)
  case (Cons l ls)
  then obtain m where "n = Suc m" "length ls < m" by (cases n) auto
  with Cons.IH [of m] show ?case by (simp add: run_process_line)
qed simp

text \<open>
  C15: A call of \<open>UpdateBase\<close> that is not interrupted ends, within three steps more than the
  installer prints lines, and has the outcome of \<open>UpdateBase\<close>.
\<close>

theorem alone_is_UpdateBase:
  assumes "length (stdout_lines (fst (exec_update E (bbbCmdScript (config s)) (installer_args args) (world s)))) + 3 \<le> n"
  shows "run_state (alone (thread_step E) n (Called args)) s =
    map_prod Answered id (run_state (UpdateBase E args) s)"
proof -
  obtain run w where x: "exec_update E (bbbCmdScript (config s)) (installer_args args) (world s) = (run, w)"
    by fastforce
  then have n: "length (stdout_lines run) + 3 \<le> n" using assms by simp
  define m where "m = n - 2"
  with n have m: "n = Suc (Suc m)" "length (stdout_lines run) < m" by simp_all
  then obtain k where k: "m - length (stdout_lines run) = Suc k" by (metis Suc_diff_Suc)
  let ?s1 = "s\<lparr>world := w, trace := trace s @ [Exec (bbbCmdScript (config s)) (installer_args args)]\<rparr>"
  let ?s2 = "snd (run_state (process_lines (stdout_lines run)) ?s1)"
  show ?thesis
  proof (cases "update_in_progress (UpdateState (baseUpdateProgress s)) \<or> never_started run")
    case True
    with x show ?thesis
      by (cases "update_in_progress (UpdateState (baseUpdateProgress s))")
        (simp_all add: m(1) UpdateBase_def GetBBBCmdScript_def installer_args_def never_started_def)
  next
    case False
    then have lhs: "run_state (alone (thread_step E) n (Called args)) s = run_state (alone (thread_step E) (Suc k) (Installing run [])) ?s2"
      using x alone_lines [OF m(2), of E run ?s1]
      by (simp add: m(1) k GetBBBCmdScript_def case_prod_beta del: alone.simps(2))
        (simp add: GetBBBCmdScript_def)
    have rhs: "run_state (UpdateBase E args) s =
        (if stdout_read_err run then (update_unreadable, snd (run_state (setBaseUpdateStateAndNotify UpdateFailed) ?s2))
         else run_state (finish_update E run) ?s2)"
      using False x by (simp add: UpdateBase_def GetBBBCmdScript_def installer_args_def never_started_def case_prod_beta)
    show ?thesis unfolding lhs rhs by (simp add: case_prod_beta prod_eq_iff)
  qed
qed

subsection \<open>Every interleaving\<close>

definition resting :: "BaseUpdateState \<Rightarrow> bool" where
  "resting st \<longleftrightarrow> st \<noteq> UpdateDownloading \<and> st \<noteq> UpdateApplying"

definition threads_ok :: "update_thread list \<times> 'w middleware \<Rightarrow> bool" where
  "threads_ok c \<longleftrightarrow>
     resting (UpdateState (baseUpdateProgress (snd c))) \<or> (\<exists>t \<in> set (fst c). is_installing t)"

lemma finish_update_rests:
  "run_state (finish_update E r) s = (resp, s') \<Longrightarrow> resting (UpdateState (baseUpdateProgress s'))"
  using run_finish_update(1) by (fastforce simp: resting_def)

lemma thread_step_effect:
  assumes "run_state (thread_step E t) s = (t', s')"
  shows "is_installing t' \<or> resting (UpdateState (baseUpdateProgress s')) \<or>
    \<not> is_installing t \<and> baseUpdateProgress s' = baseUpdateProgress s"
  using assms
proof (cases t)
  case (Installing r ls)
  with assms show ?thesis
  proof (cases ls)
    case Nil
    obtain resp s1 where f: "run_state (finish_update E r) s = (resp, s1)" by fastforce
    with Nil Installing assms finish_update_rests [OF f] show ?thesis
      by (auto simp: run_notify resting_def split: if_splits)
  qed (auto simp: run_process_line)
qed auto

lemma interleave_threads_ok: "interleave E c c' \<Longrightarrow> threads_ok c \<Longrightarrow> threads_ok c'"
proof (induction rule: interleaved.induct)
  case (run i ts s t s')
  show ?case
  proof (cases "is_installing t \<or> resting (UpdateState (baseUpdateProgress s'))")
    case True
    then show ?thesis using run(1) by (auto simp: threads_ok_def set_update_memI)
  next
    case False
    then have old: "\<not> is_installing (ts ! i)" "baseUpdateProgress s' = baseUpdateProgress s"
      using thread_step_effect [OF run(2)] by auto
    with False run(3) obtain u where "u \<in> set ts" "is_installing u" by (auto simp: threads_ok_def)
    then obtain j where j: "j < length ts" "is_installing (ts ! j)" by (auto simp: in_set_conv_nth)
    with old(1) have "i \<noteq> j" by blast
    with j have "ts ! j \<in> set (ts[i := t])" by (metis length_list_update nth_list_update_neq nth_mem)
    with j show ?thesis by (auto simp: threads_ok_def)
  qed
qed (auto simp: threads_ok_def)

text \<open>
  C14: However calls of \<open>UpdateBase\<close> are interleaved, the progress state says that an update is being
  downloaded or applied only while some installer is running; when all calls have been answered,
  the state is at rest.
\<close>

theorem interleaved_rest:
  assumes "(interleave E)\<^sup>*\<^sup>* ([], s) (ts, s')" "UpdateState (baseUpdateProgress s) = UpdateNotInProgress"
    and "\<And>t. t \<in> set ts \<Longrightarrow> \<not> is_installing t"
  shows "UpdateState (baseUpdateProgress s') \<noteq> UpdateDownloading \<and>
    UpdateState (baseUpdateProgress s') \<noteq> UpdateApplying"
proof -
  have "threads_ok ([], s)" using assms(2) by (simp add: threads_ok_def resting_def)
  with assms(1) have "threads_ok (ts, s')"
    by (induction "([] :: update_thread list, s)" "(ts, s')" arbitrary: ts s' rule: rtranclp.induct)
       (auto dest: interleave_threads_ok)
  with assms(3) show ?thesis by (auto simp: threads_ok_def resting_def)
qed

subsection \<open>Two installers\<close>

text \<open>
  C23: The check does not reserve the update: of two calls that arrive before the first
  installer has printed a progress line, both pass it, and two installers run at the same time.
\<close>

theorem two_installers:
  assumes "\<not> update_in_progress (UpdateState (baseUpdateProgress s))"
    and "exec_update E (bbbCmdScript (config s)) (installer_args a) (world s) = (r, w)" "\<not> never_started r"
    and "exec_update E (bbbCmdScript (config s)) (installer_args b) w = (r', w')" "\<not> never_started r'"
  shows "\<exists>s'. (interleave E)\<^sup>*\<^sup>* ([], s) ([Installing r (stdout_lines r), Installing r' (stdout_lines r')], s')"
proof -
  let ?s1 = "s\<lparr>world := w, trace := trace s @ [Exec (bbbCmdScript (config s)) (installer_args a)]\<rparr>"
  let ?s2 = "?s1\<lparr>world := w', trace := trace ?s1 @ [Exec (bbbCmdScript (config s)) (installer_args b)]\<rparr>"
  let ?c = "([Called a, Called b], s)"
  have "(interleave E)\<^sup>*\<^sup>* ([], s) ([] @ [Called a, Called b], s)" by (rule spawned_reached) auto
  moreover have "schedule (\<lambda>i t. run_state (thread_step E t)) [0, 1, 0, 1] ?c =
      ([Installing r (stdout_lines r), Installing r' (stdout_lines r')], ?s2)"
    using assms by (simp add: GetBBBCmdScript_def)
  then have "(interleave E)\<^sup>*\<^sup>* ?c ([Installing r (stdout_lines r), Installing r' (stdout_lines r')], ?s2)"
    using schedule_reached [of ?c "[0, 1, 0, 1]" "\<lambda>i t. run_state (thread_step E t)" is_call] by simp
  ultimately show ?thesis by (auto intro: rtranclp_trans)
qed

subsection \<open>Witnesses\<close>

definition demo_install :: UpdateBaseArgs where
  "demo_install = \<lparr>ub_Version = ''1.0'', ub_Token = []\<rparr>"

lemma demo_never_started [simp]: "\<not> never_started (sim_update demo_world)" "stdout_lines (sim_update demo_world) = []"
  by (simp_all add: never_started_def demo_world_def)

lemma alone_is_UpdateBase_witness:
  "run_state (alone (thread_step sim_env) 3 (Called demo_install)) (demo Map.empty) =
    map_prod Answered id (run_state (UpdateBase sim_env demo_install) (demo Map.empty))"
  by (rule alone_is_UpdateBase) simp

lemma two_installers_witness:
  "\<exists>s'. (interleave sim_env)\<^sup>*\<^sup>* ([], demo Map.empty)
    ([Installing (sim_update demo_world) [], Installing (sim_update demo_world) []], s')"
  using two_installers [of "demo Map.empty" sim_env demo_install "sim_update demo_world" demo_world
      demo_install "sim_update demo_world" demo_world]
  by (simp add: update_in_progress_def)

lemma interleaved_rest_witness:
  "\<exists>ts s'. (interleave sim_env)\<^sup>*\<^sup>* ([], demo Map.empty) (ts, s') \<and> length ts = 1 \<and>
    UpdateState (baseUpdateProgress s') \<noteq> UpdateDownloading \<and> UpdateState (baseUpdateProgress s') \<noteq> UpdateApplying"
proof -
  have "(interleave sim_env)\<^sup>*\<^sup>* ([], demo Map.empty) ([Called demo_install], demo Map.empty)"
    using interleaved.spawn [of is_call "Called demo_install" _ "[]" "demo Map.empty"] by auto
  with interleaved_rest [OF this] show ?thesis by (intro exI conjI) auto
qed

end
