(* ===== verification/Middleware_Auth.thy ===== *)
theory Middleware_Auth
  imports Middleware_State "HOL-Library.AList"
begin

text \<open>
  Users and passwords (middleware.go \<open>UserAuthenticate\<close>, \<open>UserChangePassword\<close>, \<open>NewMiddleware\<close>;
  util.go \<open>checkMiddlewareSetup\<close>, \<open>getAuthStructure\<close>).

  The users are a Go map from names to \<open>UserAuthStruct\<close>, stored in Redis as JSON under
  \<open>middleware:auth\<close>.  A Go map is an association list with distinct keys; \<open>Marshal_users\<close> writes
  it with sorted keys, \<open>Unmarshal_users\<close> is \<open>json.Unmarshal\<close> into that type (field names match
  case-insensitively, null leaves the zero value, any other kind of value is a type error;
  only whether there is an error is used by the code).

  Lemma groups: the stored text decodes to the users that were written (\<open>Unmarshal_Marshal\<close>);
  what a successful call of each operation implies about the store and what it leaves there.
\<close>

record UserAuthStruct =
  BCryptedPassword :: string
  Role :: string

type_synonym users_map = "(string \<times> UserAuthStruct) list"

definition initialAdminPassword :: string where
  "initialAdminPassword = ''ICanHasPasword?''"

subsection \<open>JSON of the users\<close>

definition user_json :: "UserAuthStruct \<Rightarrow> json" where
  "user_json u = JObject [(''password'', JString (BCryptedPassword u)), (''role'', JString (Role u))]"

definition Marshal_users :: "users_map \<Rightarrow> string" where
  "Marshal_users m = json_text (JObject (map (map_prod id user_json) (sort_key fst m)))"

definition assign_string :: "json \<Rightarrow> (string \<Rightarrow> 'a) \<Rightarrow> 'a \<Rightarrow> 'a option" where
  "assign_string v upd old = (case v of JString s \<Rightarrow> Some (upd s) | JNull \<Rightarrow> Some old | _ \<Rightarrow> None)"

definition decode_field :: "string \<times> json \<Rightarrow> UserAuthStruct \<Rightarrow> UserAuthStruct option" where
  "decode_field kv u = (case kv of (k, v) \<Rightarrow>
     if EqualFold k ''password'' then assign_string v (\<lambda>s. u\<lparr>BCryptedPassword := s\<rparr>) u
     else if EqualFold k ''role'' then assign_string v (\<lambda>s. u\<lparr>Role := s\<rparr>) u
     else Some u)"

fun decode_fields :: "(string \<times> json) list \<Rightarrow> UserAuthStruct \<Rightarrow> UserAuthStruct option" where
  "decode_fields [] u = Some u"
| "decode_fields (kv # kvs) u = (case decode_field kv u of None \<Rightarrow> None | Some u' \<Rightarrow> decode_fields kvs u')"

definition decode_user :: "json \<Rightarrow> UserAuthStruct option" where
  "decode_user v = (case v of
     JObject kvs \<Rightarrow> decode_fields kvs \<lparr>BCryptedPassword = [], Role = []\<rparr>
   | JNull \<Rightarrow> Some \<lparr>BCryptedPassword = [], Role = []\<rparr>
   | _ \<Rightarrow> None)"

fun decode_users :: "(string \<times> json) list \<Rightarrow> users_map \<Rightarrow> users_map option" where
  "decode_users [] m = Some m"
| "decode_users ((k, v) # kvs) m = (case decode_user v of
     None \<Rightarrow> None
   | Some u \<Rightarrow> decode_users kvs (AList.update k u m))"

definition Unmarshal_users :: "string \<Rightarrow> users_map option" where
  "Unmarshal_users s = (case json_parse s of
     Some (JObject kvs) \<Rightarrow> decode_users kvs []
   | Some JNull \<Rightarrow> Some []
   | _ \<Rightarrow> None)"

subsection \<open>Operations\<close>

definition checkMiddlewareSetup :: "'w env \<Rightarrow> ('w, goerr option) mw" where
  "checkMiddlewareSetup E = do {
     (passwordSet, err) \<leftarrow> redis_GetBool E MiddlewarePasswordSet;
     (case err of
        Some e \<Rightarrow> State_Monad.return (Some e)
      | None \<Rightarrow> do {
          (baseSetupDone, err) \<leftarrow> redis_GetBool E BaseSetupDone;
          (case err of
             Some e \<Rightarrow> State_Monad.return (Some e)
           | None \<Rightarrow> do {
               _ \<leftarrow> modify (\<lambda>s. s\<lparr>isMiddlewarePasswordSet := passwordSet, isBaseSetupDone := baseSetupDone\<rparr>);
               State_Monad.return None }) })
   }"

text \<open>\<open>None\<close> stands for a returned error, which the callers only log.\<close>

definition getAuthStructure :: "'w env \<Rightarrow> ('w, users_map option) mw" where
  "getAuthStructure E = do {
     (authStructureString, err) \<leftarrow> redis_GetString E MiddlewareAuth;
     State_Monad.return (case err of
       Some e \<Rightarrow> None
     | None \<Rightarrow> Unmarshal_users authStructureString)
   }"

definition auth_failure :: "ErrorCode \<Rightarrow> string \<Rightarrow> UserAuthenticateResponse" where
  "auth_failure c msg = \<lparr>ua_ErrorResponse = Some (failure c msg), ua_Token = []\<rparr>"

definition UserAuthenticate :: "'w env \<Rightarrow> UserAuthenticateArgs \<Rightarrow> ('w, UserAuthenticateResponse) mw" where
  "UserAuthenticate E args = do {
     err \<leftarrow> checkMiddlewareSetup E;
     (case err of
        Some e \<Rightarrow> State_Monad.return
          (auth_failure ErrorAuthenticationFailed ''authentication failed, redis error'')
      | None \<Rightarrow> do {
          users \<leftarrow> getAuthStructure E;
          (case users of
             None \<Rightarrow> State_Monad.return (auth_failure ErrorAuthenticationFailed
               ''authentication unsuccessful, see middleware logs for more information'')
           | Some usersMap \<Rightarrow>
               (case map_of usersMap (ua_Username args) of
                  None \<Rightarrow> State_Monad.return (auth_failure ErrorAuthenticationUsernameNotFound
                    ''authentication unsuccessful, username not found'')
                | Some u \<Rightarrow>
                    (case bcrypt_compare E (BCryptedPassword u) (ua_Password args) of
                       Some e \<Rightarrow> State_Monad.return (auth_failure ErrorAuthenticationPasswordIncorrect
                         ''authentication unsuccessful, incorrect password'')
                     | None \<Rightarrow> do {
                         key \<leftarrow> gets jwtKey;
                         tok \<leftarrow> GenerateToken E key (ua_Username args);
                         State_Monad.return (case tok of
                           Inl e \<Rightarrow> auth_failure ErrorAuthenticationFailed
                             ''authentication unsuccessful, jwt error''
                         | Inr jwtTokenStr \<Rightarrow>
                             \<lparr>ua_ErrorResponse = Some success, ua_Token = jwtTokenStr\<rparr>) }))) })
   }"

text \<open>The part of \<open>UserChangePassword\<close> after the checks: hash, store, set the flag.\<close>

definition store_new_password ::
  "'w env \<Rightarrow> users_map \<Rightarrow> UserAuthStruct \<Rightarrow> UserChangePasswordArgs \<Rightarrow> ('w, ErrorResponse) mw" where
  "store_new_password E usersMap u args = do {
     hashed \<leftarrow> ext (BcryptGenerate 12) (bcrypt_generate E (cp_NewPassword args) 12);
     (case hashed of
        Inl e \<Rightarrow> State_Monad.return (failure ErrorPasswordChangeFailed ''password change unsuccessful'')
      | Inr bcryptedPassword \<Rightarrow> do {
          let userAuthSecrets = u\<lparr>BCryptedPassword := bcryptedPassword, Role := ''admin''\<rparr>;
          let usersMap' = AList.update (cp_Username args) userAuthSecrets usersMap;
          err \<leftarrow> redis_SetString E MiddlewareAuth (Marshal_users usersMap');
          (case err of
             Some e \<Rightarrow> State_Monad.return (failure ErrorPasswordChangeFailed ''password change unsuccessful'')
           | None \<Rightarrow> do {
               isSet \<leftarrow> gets isMiddlewarePasswordSet;
               if \<not> isSet then do {
                 _ \<leftarrow> redis_SetString E MiddlewarePasswordSet ''1'';
                 _ \<leftarrow> modify (\<lambda>s. s\<lparr>isMiddlewarePasswordSet := True\<rparr>);
                 State_Monad.return success
               } else State_Monad.return success }) })
   }"

definition UserChangePassword :: "'w env \<Rightarrow> UserChangePasswordArgs \<Rightarrow> ('w, ErrorResponse) mw" where
  "UserChangePassword E args =
     (if length (cp_NewPassword args) < 8
      then State_Monad.return (failure ErrorPasswordTooShort
        ''password change unsuccessful, the password needs to be at least 8 characters in length'')
      else do {
        users \<leftarrow> getAuthStructure E;
        (case users of
           None \<Rightarrow> State_Monad.return (failure ErrorAuthenticationFailed
             ''authentication unsuccessful, see middleware logs for more information'')
         | Some usersMap \<Rightarrow>
             (case map_of usersMap (cp_Username args) of
                None \<Rightarrow> State_Monad.return (failure ErrorPasswordChangeUsernameNotExist ''username does not exist'')
              | Some u \<Rightarrow>
                  (case bcrypt_compare E (BCryptedPassword u) (cp_Password args) of
                     Some e \<Rightarrow> State_Monad.return (failure ErrorPasswordChangePasswordIncorrect
                       ''password change unsuccessful, current password was incorrect'')
                   | None \<Rightarrow> store_new_password E usersMap u args)))
      })"

definition ValidateToken :: "'w env \<Rightarrow> string \<Rightarrow> ('w, goerr option) mw" where
  "ValidateToken E token = do {
     key \<leftarrow> gets jwtKey;
     jwt_ValidateToken E key token
   }"

definition SetupStatus :: "('w, SetupStatusResponse) mw" where
  "SetupStatus = gets (\<lambda>s. \<lparr>ss_MiddlewarePasswordSet = isMiddlewarePasswordSet s,
     ss_BaseSetup = isBaseSetupDone s\<rparr>)"

definition InitialAdminPassword :: string where
  "InitialAdminPassword = initialAdminPassword"

subsection \<open>Construction\<close>

text \<open>Writing the default user when no password has been set.\<close>

definition reset_admin :: "'w env \<Rightarrow> ('w, goerr option) mw" where
  "reset_admin E = do {
     hashed \<leftarrow> ext (BcryptGenerate 12) (bcrypt_generate E initialAdminPassword 12);
     (case hashed of
        Inl e \<Rightarrow> State_Monad.return (Some e)
      | Inr bcryptedPassword \<Rightarrow>
          redis_SetString E MiddlewareAuth
            (Marshal_users [(''admin'', \<lparr>BCryptedPassword = bcryptedPassword, Role = ''admin''\<rparr>)]))
   }"

definition init_middleware :: "'w env \<Rightarrow> ('w, goerr option) mw" where
  "init_middleware E = do {
     err \<leftarrow> checkMiddlewareSetup E;
     (case err of
        Some e \<Rightarrow> State_Monad.return (Some e)
      | None \<Rightarrow> do {
          isSet \<leftarrow> gets isMiddlewarePasswordSet;
          err \<leftarrow> (if \<not> isSet then reset_admin E else State_Monad.return None);
          (case err of
             Some e \<Rightarrow> State_Monad.return (Some e)
           | None \<Rightarrow> do {
               (key, err) \<leftarrow> NewJwtAuth E;
               _ \<leftarrow> modify (\<lambda>s. s\<lparr>jwtKey := key\<rparr>);
               State_Monad.return err }) })
   }"

text \<open>\<open>NewMiddleware\<close>: with an error, the struct is not returned to the caller.\<close>

definition NewMiddleware ::
  "'w env \<Rightarrow> configuration \<Rightarrow> bool \<Rightarrow> 'w sys \<Rightarrow> goerr option \<times> 'w middleware" where
  "NewMiddleware E cfg hsm s =
     (case run_state (if \<not> IsRedisMock cfg then NewClient E (GetRedisPort cfg)
                      else State_Monad.return (NewMockClient [])) s of
        (client, s') \<Rightarrow> run_state (init_middleware E) (initial_struct cfg hsm client s'))"

subsection \<open>Round trip of the users\<close>

definition users_ok :: "users_map \<Rightarrow> bool" where
  "users_ok m \<longleftrightarrow> distinct (map fst m) \<and>
     (\<forall>(k, u) \<in> set m. valid_utf8 k \<and> valid_utf8 (BCryptedPassword u) \<and> valid_utf8 (Role u))"

lemma valid_utf8_words [simp]:
  "valid_utf8 ''password''" "valid_utf8 ''role''" "valid_utf8 ''admin''"
  by (rule valid_utf8_ascii; auto)+

lemma EqualFold_words [simp]:
  "EqualFold ''password'' ''password''" "EqualFold ''role'' ''role''" "\<not> EqualFold ''role'' ''password''"
  by (simp_all add: EqualFold_def fold_rune_def)

lemma decode_user_json [simp]: "decode_user (user_json u) = Some u"
  by (simp add: decode_user_def user_json_def decode_field_def assign_string_def)

lemma decode_users_json: "decode_users (map (map_prod id user_json) m) acc = Some (AList.updates (map fst m) (map snd m) acc)"
  by (induction m arbitrary: acc) auto

lemma sanitize_user_json:
  "valid_utf8 (BCryptedPassword u) \<Longrightarrow> valid_utf8 (Role u) \<Longrightarrow> sanitize_json (user_json u) = user_json u"
  by (simp add: user_json_def sanitize_valid)

lemma sort_key_users: "users_ok m \<Longrightarrow> map_of (sort_key fst m) = map_of m"
  unfolding users_ok_def
  by (intro ext map_of_eqI) (auto simp: distinct_map)

lemma map_of_rev_distinct: "distinct (map fst m) \<Longrightarrow> map_of (rev m) = map_of m"
  by (metis distinct_rev map_of_eqI rev_map set_rev map_of_eq_Some_iff not_None_eq option.exhaust ext)

lemma updates_distinct:
  "distinct (map fst m) \<Longrightarrow> map_of (AList.updates (map fst m) (map snd m) []) = map_of m"
proof -
  assume d: "distinct (map fst m)"
  have "map_of (AList.updates (map fst m) (map snd m) []) = Map.empty(map fst m [\<mapsto>] map snd m)"
    by (simp add: AList.updates_conv')
  also have "\<dots> = map_of (rev m)"
    by (simp add: map_upds_def zip_map_fst_snd)
  also have "\<dots> = map_of m"
    using d by (rule map_of_rev_distinct)
  finally show ?thesis .
qed

lemma Unmarshal_Marshal_eq:
  assumes "users_ok m"
  shows "Unmarshal_users (Marshal_users m) =
    Some (AList.updates (map fst (sort_key fst m)) (map snd (sort_key fst m)) [])"
proof -
  let ?m = "sort_key fst m"
  let ?j = "JObject (map (map_prod id user_json) ?m)"
  have ok: "users_ok ?m" using assms by (simp add: users_ok_def distinct_map)
  have "no_numbers ?j" by (auto simp: list_all_iff user_json_def)
  moreover have "sanitize_json ?j = ?j"
    using ok by (auto simp: users_ok_def sanitize_valid sanitize_user_json)
  ultimately have "json_parse (Marshal_users m) = Some ?j"
    using json_parse_text [of ?j] by (simp only: Marshal_users_def)
  then show ?thesis by (simp add: Unmarshal_users_def decode_users_json)
qed

lemma Unmarshal_Marshal:
  assumes "users_ok m"
  obtains m' where "Unmarshal_users (Marshal_users m) = Some m'" "map_of m' = map_of m"
proof -
  let ?m = "sort_key fst m"
  have "users_ok ?m" using assms by (simp add: users_ok_def distinct_map)
  then have "map_of (AList.updates (map fst ?m) (map snd ?m) []) = map_of m"
    using updates_distinct [of ?m] sort_key_users [OF assms] by (simp add: users_ok_def)
  with Unmarshal_Marshal_eq [OF assms] show ?thesis using that by blast
qed

subsection \<open>Reading the store\<close>

lemma store_updates [simp]:
  "store_contents db (s\<lparr>isMiddlewarePasswordSet := b\<rparr>) = store_contents db s"
  "store_contents db (s\<lparr>isBaseSetupDone := b\<rparr>) = store_contents db s"
  "store_contents db (s\<lparr>jwtKey := k\<rparr>) = store_contents db s"
  "store_valid E db (s\<lparr>isMiddlewarePasswordSet := b\<rparr>) = store_valid E db s"
  "store_valid E db (s\<lparr>isBaseSetupDone := b\<rparr>) = store_valid E db s"
  "store_valid E db (s\<lparr>jwtKey := k\<rparr>) = store_valid E db s"
  by (cases "redisClient s"; simp add: store_contents_def store_valid_def fun_eq_iff)+

lemma untouched_fields [simp]:
  "untouched_by_redis config" "untouched_by_redis jwtKey" "untouched_by_redis isMiddlewarePasswordSet"
  "untouched_by_redis isBaseSetupDone" "untouched_by_redis baseUpdateProgress"
  "untouched_by_redis serviceInfo" "untouched_by_redis hsmPresent" "untouched_by_redis prometheusClient"
  "untouched_by_redis baseUpdateAvailable" "untouched_by_redis baseVersion"
  by (simp_all add: untouched_by_redis_def)

lemma keeps_auth [keeps_intros]:
  shows "keeps jwtKey (checkMiddlewareSetup E)" "keeps config (checkMiddlewareSetup E)"
    "keeps baseUpdateProgress (checkMiddlewareSetup E)"
    "untouched_by_redis f \<Longrightarrow> keeps f (getAuthStructure E)"
  unfolding checkMiddlewareSetup_def getAuthStructure_def by (intro keeps_intros; simp)+

lemma getAuthStructure_store:
  assumes "store_valid E db s" "run_state (getAuthStructure E) s = (r, s')"
  shows "store_valid E db s' \<and> store_contents db s' = store_contents db s \<and>
    (\<forall>m. r = Some m \<longrightarrow> Unmarshal_users (store_contents db s MiddlewareAuth) = Some m)"
proof -
  obtain v e s1 where g: "run_state (redis_GetString E MiddlewareAuth) s = ((v, e), s1)"
    by (metis prod.collapse)
  with assms(2) have "s' = s1" "r = (case e of Some e \<Rightarrow> None | None \<Rightarrow> Unmarshal_users v)"
    by (auto simp: getAuthStructure_def)
  with store.get_string_law [OF assms(1) g] show ?thesis by (auto split: option.splits)
qed

lemma checkMiddlewareSetup_store:
  assumes "store_valid E db s" "run_state (checkMiddlewareSetup E) s = (r, s')"
  shows "store_valid E db s' \<and> store_contents db s' = store_contents db s \<and>
    (r = None \<longrightarrow> (\<exists>i j. ParseInt (store_contents db s MiddlewarePasswordSet) = Inr i \<and>
       isMiddlewarePasswordSet s' = (i = 1) \<and>
       ParseInt (store_contents db s BaseSetupDone) = Inr j \<and> isBaseSetupDone s' = (j = 1)))"
proof -
  obtain b e s1 where g: "run_state (redis_GetBool E MiddlewarePasswordSet) s = ((b, e), s1)"
    by (metis prod.collapse)
  note law = store.get_bool_law [OF assms(1) g]
  obtain b' e' s2 where g': "run_state (redis_GetBool E BaseSetupDone) s1 = ((b', e'), s2)"
    by (metis prod.collapse)
  have law': "store_valid E db s2" "store_contents db s2 = store_contents db s"
      "e' = None \<longrightarrow> (\<exists>i. ParseInt (store_contents db s BaseSetupDone) = Inr i \<and> b' = (i = 1))"
    using store.get_bool_law [OF conjunct1 [OF law] g'] law by auto
  show ?thesis
  proof (cases e)
    case (Some err)
    then show ?thesis using assms(2) g law by (auto simp: checkMiddlewareSetup_def)
  next
    case None
    then show ?thesis using assms(2) g g' law law'
      by (cases e') (auto simp: checkMiddlewareSetup_def)
  qed
qed

subsection \<open>What authentication checks\<close>

definition password_matches :: "'w env \<Rightarrow> users_map \<Rightarrow> string \<Rightarrow> string \<Rightarrow> bool" where
  "password_matches E m name pw \<longleftrightarrow>
     (case map_of m name of None \<Rightarrow> False | Some u \<Rightarrow> bcrypt_compare E (BCryptedPassword u) pw = None)"

definition logged_in :: "UserAuthenticateResponse \<Rightarrow> bool" where
  "logged_in r \<longleftrightarrow> (\<exists>e. ua_ErrorResponse r = Some e \<and> Success e)"

lemma auth_failure_simps [simp]:
  "\<not> logged_in (auth_failure c msg)" "ua_Token (auth_failure c msg) = []"
  "ua_ErrorResponse (auth_failure c msg) = Some (failure c msg)"
  by (simp_all add: auth_failure_def logged_in_def)

lemma UserAuthenticate_steps:
  assumes "run_state (checkMiddlewareSetup E) s = (e, s1)" "run_state (getAuthStructure E) s1 = (users, s2)"
  shows "run_state (UserAuthenticate E args) s =
    (case e of Some err \<Rightarrow> (auth_failure ErrorAuthenticationFailed ''authentication failed, redis error'', s1)
     | None \<Rightarrow>
       ((case users of
          None \<Rightarrow> auth_failure ErrorAuthenticationFailed
            ''authentication unsuccessful, see middleware logs for more information''
        | Some m \<Rightarrow>
          if map_of m (ua_Username args) = None then
            auth_failure ErrorAuthenticationUsernameNotFound ''authentication unsuccessful, username not found''
          else if \<not> password_matches E m (ua_Username args) (ua_Password args) then
            auth_failure ErrorAuthenticationPasswordIncorrect ''authentication unsuccessful, incorrect password''
          else (case GenerateToken_at E (jwtKey s2) (ua_Username args) (clock E (world s2)) of
            Inl _ \<Rightarrow> auth_failure ErrorAuthenticationFailed ''authentication unsuccessful, jwt error''
          | Inr tok \<Rightarrow> \<lparr>ua_ErrorResponse = Some success, ua_Token = tok\<rparr>)), s2))"
  using assms
  by (auto simp: UserAuthenticate_def GenerateToken_def password_matches_def split: option.splits sum.splits)

lemma UserAuthenticate_result:
  assumes valid: "store_valid E db s" and run: "run_state (UserAuthenticate E args) s = (r, s')"
  shows "store_valid E db s'" "store_contents db s' = store_contents db s" "jwtKey s' = jwtKey s"
    "logged_in r \<Longrightarrow> \<exists>m. Unmarshal_users (store_contents db s MiddlewareAuth) = Some m \<and>
        password_matches E m (ua_Username args) (ua_Password args) \<and>
        GenerateToken_at E (jwtKey s) (ua_Username args) (clock E (world s')) = Inr (ua_Token r)"
    "\<not> logged_in r \<Longrightarrow> ua_Token r = []"
proof -
  obtain e s1 where c: "run_state (checkMiddlewareSetup E) s = (e, s1)" by fastforce
  obtain users s2 where g: "run_state (getAuthStructure E) s1 = (users, s2)" by fastforce
  have v1: "store_valid E db s1" "store_contents db s1 = store_contents db s"
    using checkMiddlewareSetup_store [OF valid c] by auto
  have v2: "store_valid E db s2" "store_contents db s2 = store_contents db s"
    "\<And>m. users = Some m \<Longrightarrow> Unmarshal_users (store_contents db s MiddlewareAuth) = Some m"
    using getAuthStructure_store [OF v1(1) g] v1(2) by auto
  have k: "jwtKey s1 = jwtKey s" "jwtKey s2 = jwtKey s1"
    using keepsD [OF keeps_auth(1) c] keepsD [OF keeps_auth(4) g, of jwtKey] by simp_all
  note R = run [unfolded UserAuthenticate_steps [OF c g]]
  show "store_valid E db s'" "store_contents db s' = store_contents db s" "jwtKey s' = jwtKey s"
    using R v1 v2 k by (auto split: option.splits)
  show "logged_in r \<Longrightarrow> \<exists>m. Unmarshal_users (store_contents db s MiddlewareAuth) = Some m \<and>
        password_matches E m (ua_Username args) (ua_Password args) \<and>
        GenerateToken_at E (jwtKey s) (ua_Username args) (clock E (world s')) = Inr (ua_Token r)"
    using R v2(3) k by (auto split: option.splits if_splits sum.splits)
  show "\<not> logged_in r \<Longrightarrow> ua_Token r = []"
    using R by (auto simp: logged_in_def split: option.splits if_splits sum.splits)
qed

subsection \<open>What changing the password does\<close>

lemma store_world [simp]:
  "db w = db (world s) \<Longrightarrow> store_contents db (s\<lparr>world := w, trace := t\<rparr>) = store_contents db s"
  unfolding store_contents_def by (intro ext) (simp cong: redis_client.case_cong)

lemma store_valid_world [simp]:
  "store_valid E db (s\<lparr>world := w, trace := t\<rparr>) = store_valid E db s"
  unfolding store_valid_def by simp

text \<open>The users after a change of \<open>name\<close>'s password to one with hash \<open>h\<close>.\<close>

definition with_password :: "string \<Rightarrow> UserAuthStruct \<Rightarrow> string \<Rightarrow> users_map \<Rightarrow> users_map" where
  "with_password name u h m = AList.update name (u\<lparr>BCryptedPassword := h, Role := ''admin''\<rparr>) m"

lemma map_of_with_password:
  "map_of (with_password name u h m) =
     (map_of m)(name \<mapsto> u\<lparr>BCryptedPassword := h, Role := ''admin''\<rparr>)"
  by (simp add: with_password_def AList.update_conv')

lemma set_update_subset: "set (AList.update k v m) \<subseteq> insert (k, v) (set m)"
  by (induction m) auto

lemma users_ok_with_password:
  assumes "users_ok m" "valid_utf8 name" "valid_utf8 h"
  shows "users_ok (with_password name u h m)"
proof -
  have "distinct (map fst (with_password name u h m))"
    using assms(1) by (simp add: with_password_def users_ok_def AList.distinct_update)
  moreover have "set (with_password name u h m) \<subseteq>
      insert (name, u\<lparr>BCryptedPassword := h, Role := ''admin''\<rparr>) (set m)"
    unfolding with_password_def by (rule set_update_subset)
  ultimately show ?thesis using assms unfolding users_ok_def by fastforce
qed

lemma store_new_password_result:
  assumes valid: "store_valid E db s" and loc: "local_computation E db"
    and run: "run_state (store_new_password E m u args) s = (r, s')"
  shows "store_valid E db s'"
    and "\<And>l. l \<noteq> MiddlewareAuth \<Longrightarrow> l \<noteq> MiddlewarePasswordSet \<Longrightarrow> store_contents db s' l = store_contents db s l"
    and "Success r \<Longrightarrow> isMiddlewarePasswordSet s' \<and>
      (\<exists>h. fst (bcrypt_generate E (cp_NewPassword args) 12 (world s)) = Inr h \<and>
        store_contents db s' MiddlewareAuth = Marshal_users (with_password (cp_Username args) u h m))"
    and "\<not> Success r \<Longrightarrow> Code r = ErrorPasswordChangeFailed"
proof -
  let ?s1 = "s\<lparr>world := snd (bcrypt_generate E (cp_NewPassword args) 12 (world s)),
    trace := trace s @ [BcryptGenerate 12]\<rparr>"
  have s1: "store_valid E db ?s1" "store_contents db ?s1 = store_contents db s"
    using valid loc by (simp_all add: local_computation_def)
  have "store_valid E db s' \<and>
    (\<forall>l. l \<noteq> MiddlewareAuth \<longrightarrow> l \<noteq> MiddlewarePasswordSet \<longrightarrow> store_contents db s' l = store_contents db s l) \<and>
    (Success r \<longrightarrow> isMiddlewarePasswordSet s' \<and>
      (\<exists>h. fst (bcrypt_generate E (cp_NewPassword args) 12 (world s)) = Inr h \<and>
        store_contents db s' MiddlewareAuth = Marshal_users (with_password (cp_Username args) u h m))) \<and>
    (\<not> Success r \<longrightarrow> Code r = ErrorPasswordChangeFailed)"
  proof (cases "fst (bcrypt_generate E (cp_NewPassword args) 12 (world s))")
    case (Inl e)
    then show ?thesis using run s1 by (auto simp: store_new_password_def)
  next
    case (Inr h)
    let ?new = "Marshal_users (with_password (cp_Username args) u h m)"
    obtain err s2 where set: "run_state (redis_SetString E MiddlewareAuth ?new) ?s1 = (err, s2)" by fastforce
    have law: "store_valid E db s2" "err = None \<longrightarrow> store_contents db s2 MiddlewareAuth = ?new"
        "\<forall>l. l \<noteq> MiddlewareAuth \<longrightarrow> store_contents db s2 l = store_contents db s l"
      using store.set_string_law [OF s1(1) set] s1(2) by auto
    show ?thesis
    proof (cases err)
      case (Some e)
      then show ?thesis using run Inr set law by (auto simp: store_new_password_def with_password_def Let_def)
    next
      case None
      obtain err' s3 where set': "run_state (redis_SetString E MiddlewarePasswordSet ''1'') s2 = (err', s3)"
        by fastforce
      have law': "store_valid E db s3"
          "\<forall>l. l \<noteq> MiddlewarePasswordSet \<longrightarrow> store_contents db s3 l = store_contents db s2 l"
        using store.set_string_law [OF law(1) set'] by auto
      show ?thesis
      proof (cases "isMiddlewarePasswordSet s2")
        case True
        then show ?thesis using run Inr set law None
          by (auto simp: store_new_password_def with_password_def Let_def)
      next
        case False
        then show ?thesis using run Inr set law None set' law'
          by (auto simp: store_new_password_def with_password_def Let_def)
      qed
    qed
  qed
  then show "store_valid E db s'"
    and "\<And>l. l \<noteq> MiddlewareAuth \<Longrightarrow> l \<noteq> MiddlewarePasswordSet \<Longrightarrow> store_contents db s' l = store_contents db s l"
    and "Success r \<Longrightarrow> isMiddlewarePasswordSet s' \<and>
      (\<exists>h. fst (bcrypt_generate E (cp_NewPassword args) 12 (world s)) = Inr h \<and>
        store_contents db s' MiddlewareAuth = Marshal_users (with_password (cp_Username args) u h m))"
    and "\<not> Success r \<Longrightarrow> Code r = ErrorPasswordChangeFailed"
    by blast+
qed

lemma UserChangePassword_steps:
  assumes "8 \<le> length (cp_NewPassword args)" "run_state (getAuthStructure E) s = (users, s1)"
  shows "run_state (UserChangePassword E args) s =
    (case users of
       None \<Rightarrow> (failure ErrorAuthenticationFailed
            ''authentication unsuccessful, see middleware logs for more information'', s1)
     | Some m \<Rightarrow>
       (case map_of m (cp_Username args) of
          None \<Rightarrow> (failure ErrorPasswordChangeUsernameNotExist ''username does not exist'', s1)
        | Some u \<Rightarrow>
          if password_matches E m (cp_Username args) (cp_Password args)
          then run_state (store_new_password E m u args) s1
          else (failure ErrorPasswordChangePasswordIncorrect
            ''password change unsuccessful, current password was incorrect'', s1)))"
  using assms by (auto simp: UserChangePassword_def password_matches_def split: option.splits)

lemma UserChangePassword_success:
  assumes valid: "store_valid E db s" and loc: "local_computation E db"
    and run: "run_state (UserChangePassword E args) s = (r, s')" and "Success r"
  obtains m u h w where "8 \<le> length (cp_NewPassword args)"
    "Unmarshal_users (store_contents db s MiddlewareAuth) = Some m"
    "map_of m (cp_Username args) = Some u"
    "password_matches E m (cp_Username args) (cp_Password args)"
    "fst (bcrypt_generate E (cp_NewPassword args) 12 w) = Inr h"
    "store_contents db s' MiddlewareAuth = Marshal_users (with_password (cp_Username args) u h m)"
    "store_valid E db s'" "isMiddlewarePasswordSet s'"
proof -
  have len: "8 \<le> length (cp_NewPassword args)"
    using run \<open>Success r\<close> by (auto simp: UserChangePassword_def split: if_splits)
  obtain users s1 where g: "run_state (getAuthStructure E) s = (users, s1)" by fastforce
  note law = getAuthStructure_store [OF valid g]
  from run [unfolded UserChangePassword_steps [OF len g]] \<open>Success r\<close> obtain m u where m:
      "users = Some m" "map_of m (cp_Username args) = Some u"
      "password_matches E m (cp_Username args) (cp_Password args)"
      "run_state (store_new_password E m u args) s1 = (r, s')"
    by (auto split: option.splits if_splits)
  have v1: "store_valid E db s1" using law by simp
  from store_new_password_result [OF v1 loc m(4)] \<open>Success r\<close> m law len that show ?thesis by blast
qed

lemma UserChangePassword_failure:
  assumes valid: "store_valid E db s" and loc: "local_computation E db"
    and run: "run_state (UserChangePassword E args) s = (r, s')"
    and fail: "\<not> Success r" "Code r \<noteq> ErrorPasswordChangeFailed"
  shows "store_contents db s' = store_contents db s"
proof (cases "8 \<le> length (cp_NewPassword args)")
  case False
  then show ?thesis using run by (simp add: UserChangePassword_def)
next
  case True
  obtain users s1 where g: "run_state (getAuthStructure E) s = (users, s1)" by fastforce
  have v1: "store_valid E db s1" "store_contents db s1 = store_contents db s"
    using getAuthStructure_store [OF valid g] by auto
  note R = run [unfolded UserChangePassword_steps [OF True g]]
  show ?thesis
  proof (cases "\<exists>m u. run_state (store_new_password E m u args) s1 = (r, s')")
    case True
    with store_new_password_result(4) [OF v1(1) loc] fail show ?thesis by blast
  next
    case False
    with R v1(2) show ?thesis by (auto split: option.splits if_splits)
  qed
qed

subsection \<open>Starting up\<close>

lemma NewClient_store:
  "store_valid E db (initial_struct cfg hsm client s') = (case client of MockClient m \<Rightarrow> True | Client p \<Rightarrow> redis_server E db)"
  by (cases client) (simp_all add: initial_struct_def)

lemma reset_admin_store:
  assumes valid: "store_valid E db s" and loc: "local_computation E db"
    and run: "run_state (reset_admin E) s = (None, s')"
  shows "store_valid E db s' \<and> (\<exists>h. fst (bcrypt_generate E initialAdminPassword 12 (world s)) = Inr h \<and>
    store_contents db s' MiddlewareAuth =
      Marshal_users [(''admin'', \<lparr>BCryptedPassword = h, Role = ''admin''\<rparr>)])"
proof -
  let ?s1 = "s\<lparr>world := snd (bcrypt_generate E initialAdminPassword 12 (world s)), trace := trace s @ [BcryptGenerate 12]\<rparr>"
  have v1: "store_valid E db ?s1" using valid by simp
  from run obtain h where h: "fst (bcrypt_generate E initialAdminPassword 12 (world s)) = Inr h"
      "run_state (redis_SetString E MiddlewareAuth
        (Marshal_users [(''admin'', \<lparr>BCryptedPassword = h, Role = ''admin''\<rparr>)])) ?s1 = (None, s')"
    by (auto simp: reset_admin_def split: sum.splits)
  with store.set_string_law [OF v1 h(2)] show ?thesis by simp
qed

lemma NewJwtAuth_store:
  assumes "store_valid E db s" "local_computation E db"
    and run: "run_state (NewJwtAuth E) s = ((key, err), s')"
  shows "store_valid E db s' \<and> store_contents db s' = store_contents db s"
  using assms
  by (auto simp: NewJwtAuth_def generateRandomString_def generateRandomBytes_def local_computation_def
      split: option.splits sum.splits)

text \<open>The single default user.\<close>

definition default_users :: "string \<Rightarrow> users_map" where
  "default_users h = [(''admin'', \<lparr>BCryptedPassword = h, Role = ''admin''\<rparr>)]"

lemma init_middleware_resets:
  assumes valid: "store_valid E db s" and loc: "local_computation E db"
    and run: "run_state (init_middleware E) s = (None, s')"
    and unset: "ParseInt (store_contents db s MiddlewarePasswordSet) \<noteq> Inr 1"
  shows "store_valid E db s' \<and> (\<exists>h w. fst (bcrypt_generate E initialAdminPassword 12 w) = Inr h \<and>
    store_contents db s' MiddlewareAuth = Marshal_users (default_users h))"
proof -
  obtain e s1 where c: "run_state (checkMiddlewareSetup E) s = (e, s1)" by fastforce
  note l1 = checkMiddlewareSetup_store [OF valid c]
  from run c have e: "e = None" by (auto simp: init_middleware_def split: option.splits)
  with l1 unset have "\<not> isMiddlewarePasswordSet s1" and v1: "store_valid E db s1" by auto
  obtain err s2 where r: "run_state (reset_admin E) s1 = (err, s2)" by fastforce
  from run c e r \<open>\<not> isMiddlewarePasswordSet s1\<close> have "err = None"
    by (auto simp: init_middleware_def split: option.splits)
  note l2 = reset_admin_store [OF v1 loc r [unfolded this]]
  obtain key err' s3 where k: "run_state (NewJwtAuth E) s2 = ((key, err'), s3)" by (metis prod.collapse)
  note l3 = NewJwtAuth_store [OF conjunct1 [OF l2] loc k]
  from run c e r k \<open>err = None\<close> \<open>\<not> isMiddlewarePasswordSet s1\<close> have "s' = s3\<lparr>jwtKey := key\<rparr>"
    by (auto simp: init_middleware_def split: option.splits)
  with l2 l3 show ?thesis by (auto simp: default_users_def)
qed

lemma init_middleware_keeps_users:
  assumes valid: "store_valid E db s" and loc: "local_computation E db"
    and run: "run_state (init_middleware E) s = (err, s')"
    and set: "ParseInt (store_contents db s MiddlewarePasswordSet) = Inr 1"
  shows "store_contents db s' MiddlewareAuth = store_contents db s MiddlewareAuth"
proof -
  obtain e s1 where c: "run_state (checkMiddlewareSetup E) s = (e, s1)" by fastforce
  note l1 = checkMiddlewareSetup_store [OF valid c]
  show ?thesis
  proof (cases e)
    case (Some x)
    with run c l1 show ?thesis by (simp add: init_middleware_def)
  next
    case None
    with l1 set have "isMiddlewarePasswordSet s1" and v1: "store_valid E db s1" by auto
    obtain key err' s3 where k: "run_state (NewJwtAuth E) s1 = ((key, err'), s3)" by (metis prod.collapse)
    note l3 = NewJwtAuth_store [OF v1 loc k]
    from run c None k \<open>isMiddlewarePasswordSet s1\<close> have "s' = s3\<lparr>jwtKey := key\<rparr>"
      by (auto simp: init_middleware_def)
    with l1 l3 show ?thesis by simp
  qed
qed

subsection \<open>Properties\<close>

text \<open>
  C3: A login succeeds only for a user of the stored table whose bcrypt hash matches the given
  password, and the token handed out is the one issued for that user at that time with the
  server's key; a login that does not succeed hands out no token.  The stored table is not
  changed either way.
\<close>

theorem login_sound:
  assumes "store_valid E db s" and "run_state (UserAuthenticate E args) s = (r, s')"
  shows "(if logged_in r
      then \<exists>m. Unmarshal_users (store_contents db s MiddlewareAuth) = Some m \<and>
        password_matches E m (ua_Username args) (ua_Password args) \<and>
        GenerateToken_at E (jwtKey s) (ua_Username args) (clock E (world s')) = Inr (ua_Token r)
      else ua_Token r = [])
    \<and> store_contents db s' = store_contents db s"
  using UserAuthenticate_result [OF assms] by auto

text \<open>
  C13: After a successful password change, the user's login with the new password is not
  refused for its credentials (only a Redis or token error can still prevent it), and what
  logging in checks of every other user is as before.
\<close>

theorem change_password_then_login:
  assumes "store_valid E db s" "local_computation E db" "bcrypt_library E"
    and old: "Unmarshal_users (store_contents db s MiddlewareAuth) = Some m" "users_ok m"
    and "valid_utf8 (cp_Username args)"
    and change: "run_state (UserChangePassword E args) s = (r, s1)" "Success r"
    and login: "run_state (UserAuthenticate E
        \<lparr>ua_Username = cp_Username args, ua_Password = cp_NewPassword args\<rparr>) s1 = (a, s2)"
  shows "(logged_in a \<or> (\<exists>msg. ua_ErrorResponse a = Some (failure ErrorAuthenticationFailed msg)))
    \<and> (\<exists>m1. Unmarshal_users (store_contents db s1 MiddlewareAuth) = Some m1 \<and>
        password_matches E m1 (cp_Username args) (cp_NewPassword args) \<and>
        (\<forall>name pw. name \<noteq> cp_Username args \<longrightarrow>
          password_matches E m1 name pw = password_matches E m name pw))"
proof -
  from UserChangePassword_success [OF assms(1,2) change] old(1) obtain u h w where c:
      "map_of m (cp_Username args) = Some u"
      "fst (bcrypt_generate E (cp_NewPassword args) 12 w) = Inr h"
      "store_contents db s1 MiddlewareAuth = Marshal_users (with_password (cp_Username args) u h m)"
      "store_valid E db s1"
    by (metis option.inject)
  have h: "bcrypt_compare E h (cp_NewPassword args) = None" "valid_utf8 h"
    using assms(3) c(2) unfolding bcrypt_library_def by blast+
  obtain m1 where m1: "Unmarshal_users (store_contents db s1 MiddlewareAuth) = Some m1"
      "map_of m1 = map_of (with_password (cp_Username args) u h m)"
    using Unmarshal_Marshal [OF users_ok_with_password [OF old(2) assms(6) h(2)], of u] c(3) by metis
  have new: "password_matches E m1 (cp_Username args) (cp_NewPassword args)"
      "\<And>name pw. name \<noteq> cp_Username args \<Longrightarrow> password_matches E m1 name pw = password_matches E m name pw"
    using m1(2) h(1) by (simp_all add: password_matches_def map_of_with_password)
  obtain e s1' where ck: "run_state (checkMiddlewareSetup E) s1 = (e, s1')" by fastforce
  obtain users s1'' where g: "run_state (getAuthStructure E) s1' = (users, s1'')" by fastforce
  have "users = Some m1 \<or> users = None"
    using getAuthStructure_store [OF _ g, of db] checkMiddlewareSetup_store [OF c(4) ck] m1(1)
    by (cases users) auto
  with login [unfolded UserAuthenticate_steps [OF ck g]] new(1)
  have "logged_in a \<or> (\<exists>msg. ua_ErrorResponse a = Some (failure ErrorAuthenticationFailed msg))"
    by (auto simp: logged_in_def password_matches_def split: option.splits sum.splits if_splits)
  with m1(1) new show ?thesis by blast
qed

text \<open>
  A password change that is refused leaves the stored data alone, unless the refusal is the
  one reported for a failed hash or a failed write.  A change is refused for any new password
  shorter than eight bytes, for an unknown user and for a wrong current password.
\<close>

theorem refused_change_keeps_store:
  assumes "store_valid E db s" "local_computation E db"
    and "run_state (UserChangePassword E args) s = (r, s')"
    and "length (cp_NewPassword args) < 8 \<or>
      (\<forall>m. Unmarshal_users (store_contents db s MiddlewareAuth) = Some m \<longrightarrow>
        \<not> password_matches E m (cp_Username args) (cp_Password args))"
  shows "\<not> Success r \<and> Code r \<noteq> ErrorPasswordChangeFailed \<and> store_contents db s' = store_contents db s"
proof -
  have "\<not> Success r"
    using UserChangePassword_success [OF assms(1-3)] assms(4) by (metis linorder_not_less)
  moreover have "Code r \<noteq> ErrorPasswordChangeFailed"
  proof (cases "length (cp_NewPassword args) < 8")
    case True
    then show ?thesis using assms(3) by (auto simp: UserChangePassword_def)
  next
    case False
    then have len: "8 \<le> length (cp_NewPassword args)" by simp
    obtain users s1 where g: "run_state (getAuthStructure E) s = (users, s1)" by fastforce
    from False assms(4) getAuthStructure_store [OF assms(1) g]
    have "\<And>m. users = Some m \<Longrightarrow> \<not> password_matches E m (cp_Username args) (cp_Password args)" by blast
    then show ?thesis using assms(3) [unfolded UserChangePassword_steps [OF len g]]
      by (auto split: option.splits)
  qed
  ultimately show ?thesis using UserChangePassword_failure [OF assms(1-3)] by blast
qed

text \<open>
  C31: When the middleware starts while the password flag in the store is not 1, the table of
  users becomes the default one, whatever it was: the only user is admin and the default
  password logs in.  When the flag is 1, the table is left as it is.
\<close>

theorem startup_resets_users:
  assumes "store_valid E db s" "local_computation E db" "bcrypt_library E"
    and "run_state (init_middleware E) s = (None, s')"
  shows "(ParseInt (store_contents db s MiddlewarePasswordSet) \<noteq> Inr 1 \<longrightarrow>
      (\<exists>m. Unmarshal_users (store_contents db s' MiddlewareAuth) = Some m \<and>
        dom (map_of m) = {''admin''} \<and> password_matches E m ''admin'' initialAdminPassword))
    \<and> (ParseInt (store_contents db s MiddlewarePasswordSet) = Inr 1 \<longrightarrow>
      store_contents db s' MiddlewareAuth = store_contents db s MiddlewareAuth)"
proof (intro conjI impI)
  assume "ParseInt (store_contents db s MiddlewarePasswordSet) = Inr 1"
  with init_middleware_keeps_users [OF assms(1,2,4)]
  show "store_contents db s' MiddlewareAuth = store_contents db s MiddlewareAuth" by blast
next
  assume "ParseInt (store_contents db s MiddlewarePasswordSet) \<noteq> Inr 1"
  from init_middleware_resets [OF assms(1,2,4) this] obtain h w where h:
      "fst (bcrypt_generate E initialAdminPassword 12 w) = Inr h"
      "store_contents db s' MiddlewareAuth = Marshal_users (default_users h)"
    by blast
  have b: "bcrypt_compare E h initialAdminPassword = None" "valid_utf8 h"
    using assms(3) h(1) unfolding bcrypt_library_def by blast+
  have "users_ok (default_users h)" using b(2) by (simp add: users_ok_def default_users_def)
  then obtain m where m: "Unmarshal_users (store_contents db s' MiddlewareAuth) = Some m"
      "map_of m = map_of (default_users h)"
    using Unmarshal_Marshal h(2) by metis
  then have "dom (map_of m) = {''admin''} \<and> password_matches E m ''admin'' initialAdminPassword"
    using b(1) by (simp add: password_matches_def default_users_def)
  with m(1) show "\<exists>m. Unmarshal_users (store_contents db s' MiddlewareAuth) = Some m \<and>
      dom (map_of m) = {''admin''} \<and> password_matches E m ''admin'' initialAdminPassword" by blast
qed

definition demo_users_db :: mock_map where
  "demo_users_db = [key_string MiddlewarePasswordSet \<mapsto> ''1'', key_string BaseSetupDone \<mapsto> ''0'',
     key_string MiddlewareAuth \<mapsto> Marshal_users (default_users (sim_hash initialAdminPassword))]"

lemma demo_users_db_simps [simp]:
  "go_lookup demo_users_db ''middleware:passwordSetup'' = ''1''"
  "go_lookup demo_users_db ''base:setup'' = ''0''"
  "go_lookup demo_users_db ''middleware:auth'' = Marshal_users (default_users (sim_hash initialAdminPassword))"
  by (simp_all add: demo_users_db_def go_lookup_def)

lemma Unmarshal_default [simp]:
  "valid_utf8 h \<Longrightarrow> Unmarshal_users (Marshal_users (default_users h)) = Some (default_users h)"
  using Unmarshal_Marshal_eq [of "default_users h"]
  by (simp add: users_ok_def default_users_def)

lemma map_of_default [simp]:
  "map_of (default_users h) name =
     (if name = ''admin'' then Some \<lparr>BCryptedPassword = h, Role = ''admin''\<rparr> else None)"
  by (simp add: default_users_def)

lemma users_ok_default [simp]: "valid_utf8 h \<Longrightarrow> users_ok (default_users h)"
  by (simp add: users_ok_def default_users_def)

lemma password_matches_default [simp]:
  "password_matches E (default_users h) name pw \<longleftrightarrow> name = ''admin'' \<and> bcrypt_compare E h pw = None"
  by (auto simp: password_matches_def default_users_def)

lemma sim_sign_ok [simp]:
  "GenerateToken_at sim_env key name 1000 = Inr (sim_token \<lparr>claim_username = name, claim_expires_at = 1000 + token_lifetime\<rparr> key)"
  by (simp add: GenerateToken_at_def sim_sign_def token_lifetime_def int_min_def int_max_def)

lemmas demo_run = UserAuthenticate_def UserChangePassword_def store_new_password_def checkMiddlewareSetup_def
  getAuthStructure_def run_mock GenerateToken_def init_middleware_def reset_admin_def NewJwtAuth_def
  generateRandomString_def generateRandomBytes_def

definition demo_old_login :: UserAuthenticateArgs where
  "demo_old_login = \<lparr>ua_Username = ''admin'', ua_Password = initialAdminPassword\<rparr>"

definition demo_change :: UserChangePasswordArgs where
  "demo_change = \<lparr>cp_Username = ''admin'', cp_Password = initialAdminPassword,
     cp_NewPassword = ''new password'', cp_Token = []\<rparr>"

lemma demo_args [simp]:
  "ua_Username demo_old_login = ''admin''" "ua_Password demo_old_login = initialAdminPassword"
  "cp_Username demo_change = ''admin''" "cp_Password demo_change = initialAdminPassword"
  "cp_NewPassword demo_change = ''new password''"
  by (simp_all add: demo_old_login_def demo_change_def)

lemma demo_login_runs:
  "logged_in (fst (run_state (UserAuthenticate sim_env demo_old_login) (demo demo_users_db)))"
  by (simp add: demo_run logged_in_def)

lemma demo_change_runs:
  "Success (fst (run_state (UserChangePassword sim_env demo_change) (demo demo_users_db)))"
  by (simp add: demo_run Let_def)

lemma demo_init_runs:
  "fst (run_state (init_middleware sim_env) (demo setupTestData)) = None"
  by (simp add: demo_run setupTestData_def go_lookup_def)

lemma login_sound_witness:
  "\<exists>r s'. run_state (UserAuthenticate sim_env demo_old_login) (demo demo_users_db) = (r, s') \<and>
     logged_in r \<and> (\<exists>m. Unmarshal_users (store_contents sim_db (demo demo_users_db) MiddlewareAuth) = Some m \<and>
       password_matches sim_env m ''admin'' initialAdminPassword)"
proof -
  obtain r s' where run: "run_state (UserAuthenticate sim_env demo_old_login) (demo demo_users_db) = (r, s')"
    by fastforce
  with demo_login_runs have "logged_in r" by simp
  with login_sound [of sim_env sim_db, OF _ run] run show ?thesis by auto
qed

lemma change_password_then_login_witness:
  "\<exists>r s1 a s2. run_state (UserChangePassword sim_env demo_change) (demo demo_users_db) = (r, s1) \<and> Success r \<and>
     run_state (UserAuthenticate sim_env \<lparr>ua_Username = ''admin'', ua_Password = ''new password''\<rparr>) s1 = (a, s2) \<and>
     (logged_in a \<or> (\<exists>msg. ua_ErrorResponse a = Some (failure ErrorAuthenticationFailed msg)))"
proof -
  obtain r s1 where c: "run_state (UserChangePassword sim_env demo_change) (demo demo_users_db) = (r, s1)"
    by fastforce
  with demo_change_runs have r: "Success r" by simp
  obtain a s2 where l: "run_state (UserAuthenticate sim_env
      \<lparr>ua_Username = ''admin'', ua_Password = ''new password''\<rparr>) s1 = (a, s2)" by fastforce
  have "logged_in a \<or> (\<exists>msg. ua_ErrorResponse a = Some (failure ErrorAuthenticationFailed msg))"
    using change_password_then_login [of sim_env sim_db "demo demo_users_db"
        "default_users (sim_hash initialAdminPassword)", OF _ _ _ _ _ _ c r] l
    by simp
  with c r l show ?thesis by blast
qed

lemma refused_change_keeps_store_witness:
  "\<not> Success (fst (run_state (UserChangePassword sim_env (demo_change\<lparr>cp_NewPassword := ''short''\<rparr>))
     (demo demo_users_db)))"
  using refused_change_keeps_store [of sim_env sim_db "demo demo_users_db"
      "demo_change\<lparr>cp_NewPassword := ''short''\<rparr>", OF _ _ prod.collapse [symmetric]]
  by simp

lemma startup_resets_users_witness:
  "\<exists>s' m. run_state (init_middleware sim_env) (demo setupTestData) = (None, s') \<and>
     Unmarshal_users (store_contents sim_db s' MiddlewareAuth) = Some m \<and>
     password_matches sim_env m ''admin'' initialAdminPassword"
proof -
  obtain s' where run: "run_state (init_middleware sim_env) (demo setupTestData) = (None, s')"
    using demo_init_runs by (metis prod.collapse)
  have "ParseInt (store_contents sim_db (demo setupTestData) MiddlewarePasswordSet) \<noteq> Inr 1"
    by (simp add: setupTestData_def go_lookup_def)
  with startup_resets_users [of sim_env sim_db, OF _ _ _ run] run show ?thesis by auto
qed

end
