(* ===== verification/Password_Threads.thy ===== *)
theory Password_Threads
  imports Middleware_Auth Threads
begin

text \<open>
  Concurrent password changes and logins (middleware.go \<open>UserChangePassword\<close>, \<open>UserAuthenticate\<close>;
  util.go \<open>checkMiddlewareSetup\<close>).  Every RPC is served in a goroutine of its own, and the calls
  share the table of users in Redis and the flags of the struct without a lock.
  \<open>password_step\<close> cuts both functions between any two accesses to them.

  Lemma groups: a call that runs alone is the function it was cut from; what holds of every
  interleaving; the change that is lost.
\<close>

subsection \<open>Calls in steps\<close>

datatype password_thread =
    Changing UserChangePasswordArgs
  | Matched UserChangePasswordArgs users_map UserAuthStruct   \<comment> \<open>the password was right\<close>
  | Storing string                                           \<comment> \<open>the marshalled table\<close>
  | Stored
  | Flagging
  | Flagged
  | Changed ErrorResponse
  | Login UserAuthenticateArgs
  | Login_Flag UserAuthenticateArgs bool
  | Login_Flags UserAuthenticateArgs bool bool
  | Looking UserAuthenticateArgs
  | Issuing UserAuthenticateArgs
  | Logged_In UserAuthenticateArgs UserAuthenticateResponse

definition checked_change :: "'w env \<Rightarrow> UserChangePasswordArgs \<Rightarrow> users_map option \<Rightarrow> password_thread" where
  "checked_change E args users = (case users of
     None \<Rightarrow> Changed (failure ErrorAuthenticationFailed
       ''authentication unsuccessful, see middleware logs for more information'')
   | Some usersMap \<Rightarrow>
       (case map_of usersMap (cp_Username args) of
          None \<Rightarrow> Changed (failure ErrorPasswordChangeUsernameNotExist ''username does not exist'')
        | Some u \<Rightarrow>
            (case bcrypt_compare E (BCryptedPassword u) (cp_Password args) of
               Some e \<Rightarrow> Changed (failure ErrorPasswordChangePasswordIncorrect
                 ''password change unsuccessful, current password was incorrect'')
             | None \<Rightarrow> Matched args usersMap u)))"

definition checked_login :: "'w env \<Rightarrow> UserAuthenticateArgs \<Rightarrow> users_map option \<Rightarrow> password_thread" where
  "checked_login E args users = (case users of
     None \<Rightarrow> Logged_In args (auth_failure ErrorAuthenticationFailed
       ''authentication unsuccessful, see middleware logs for more information'')
   | Some usersMap \<Rightarrow>
       (case map_of usersMap (ua_Username args) of
          None \<Rightarrow> Logged_In args (auth_failure ErrorAuthenticationUsernameNotFound
            ''authentication unsuccessful, username not found'')
        | Some u \<Rightarrow>
            (case bcrypt_compare E (BCryptedPassword u) (ua_Password args) of
               Some e \<Rightarrow> Logged_In args (auth_failure ErrorAuthenticationPasswordIncorrect
                 ''authentication unsuccessful, incorrect password'')
             | None \<Rightarrow> Issuing args)))"

definition login_redis_error :: "UserAuthenticateArgs \<Rightarrow> password_thread" where
  "login_redis_error args =
     Logged_In args (auth_failure ErrorAuthenticationFailed ''authentication failed, redis error'')"

fun password_step :: "'w env \<Rightarrow> password_thread \<Rightarrow> ('w, password_thread) mw" where
  "password_step E (Changing args) =
     (if length (cp_NewPassword args) < 8
      then State_Monad.return (Changed (failure ErrorPasswordTooShort
        ''password change unsuccessful, the password needs to be at least 8 characters in length''))
      else do {
        users \<leftarrow> getAuthStructure E;
        State_Monad.return (checked_change E args users) })"
| "password_step E (Matched args usersMap u) = do {
     hashed \<leftarrow> ext (BcryptGenerate 12) (bcrypt_generate E (cp_NewPassword args) 12);
     State_Monad.return (case hashed of
       Inl e \<Rightarrow> Changed (failure ErrorPasswordChangeFailed ''password change unsuccessful'')
     | Inr h \<Rightarrow> Storing (Marshal_users (with_password (cp_Username args) u h usersMap)))
   }"
| "password_step E (Storing table) = do {
     err \<leftarrow> redis_SetString E MiddlewareAuth table;
     State_Monad.return (case err of
       Some e \<Rightarrow> Changed (failure ErrorPasswordChangeFailed ''password change unsuccessful'')
     | None \<Rightarrow> Stored)
   }"
| "password_step E Stored = do {
     isSet \<leftarrow> gets isMiddlewarePasswordSet;
     State_Monad.return (if isSet then Changed success else Flagging)
   }"
| "password_step E Flagging = do {
     _ \<leftarrow> redis_SetString E MiddlewarePasswordSet ''1'';
     State_Monad.return Flagged
   }"
| "password_step E Flagged = do {
     _ \<leftarrow> modify (\<lambda>s. s\<lparr>isMiddlewarePasswordSet := True\<rparr>);
     State_Monad.return (Changed success)
   }"
| "password_step E (Changed r) = State_Monad.return (Changed r)"
| "password_step E (Login args) = do {
     (passwordSet, err) \<leftarrow> redis_GetBool E MiddlewarePasswordSet;
     State_Monad.return (case err of Some e \<Rightarrow> login_redis_error args | None \<Rightarrow> Login_Flag args passwordSet)
   }"
| "password_step E (Login_Flag args passwordSet) = do {
     (baseSetupDone, err) \<leftarrow> redis_GetBool E BaseSetupDone;
     State_Monad.return (case err of
       Some e \<Rightarrow> login_redis_error args | None \<Rightarrow> Login_Flags args passwordSet baseSetupDone)
   }"
| "password_step E (Login_Flags args passwordSet baseSetupDone) = do {
     _ \<leftarrow> modify (\<lambda>s. s\<lparr>isMiddlewarePasswordSet := passwordSet, isBaseSetupDone := baseSetupDone\<rparr>);
     State_Monad.return (Looking args)
   }"
| "password_step E (Looking args) = do {
     users \<leftarrow> getAuthStructure E;
     State_Monad.return (checked_login E args users)
   }"
| "password_step E (Issuing args) = do {
     key \<leftarrow> gets jwtKey;
     tok \<leftarrow> GenerateToken E key (ua_Username args);
     State_Monad.return (Logged_In args (case tok of
       Inl e \<Rightarrow> auth_failure ErrorAuthenticationFailed ''authentication unsuccessful, jwt error''
     | Inr jwtTokenStr \<Rightarrow> \<lparr>ua_ErrorResponse = Some success, ua_Token = jwtTokenStr\<rparr>))
   }"
| "password_step E (Logged_In args r) = State_Monad.return (Logged_In args r)"

subsection \<open>A call alone\<close>

type_synonym password_reply = "ErrorResponse + UserAuthenticateResponse"

fun replied_with :: "password_thread \<Rightarrow> password_reply option" where
  "replied_with (Changed r) = Some (Inl r)"
| "replied_with (Logged_In args r) = Some (Inr r)"
| "replied_with _ = None"

definition reply_to :: "('a \<Rightarrow> password_reply) \<Rightarrow> ('w, 'a) mw \<Rightarrow> ('w, password_reply) mw" where
  "reply_to f m = do { r \<leftarrow> m; State_Monad.return (f r) }"

lemma run_reply_to [simp]: "run_state (reply_to f m) s = map_prod f id (run_state m s)"
  by (simp add: reply_to_def case_prod_beta map_prod_def)

text \<open>What remains of the two functions at each place.\<close>

definition flag_and_succeed :: "'w env \<Rightarrow> ('w, ErrorResponse) mw" where
  "flag_and_succeed E = do {
     _ \<leftarrow> redis_SetString E MiddlewarePasswordSet ''1'';
     _ \<leftarrow> modify (\<lambda>s. s\<lparr>isMiddlewarePasswordSet := True\<rparr>);
     State_Monad.return success
   }"

definition after_store :: "'w env \<Rightarrow> ('w, ErrorResponse) mw" where
  "after_store E = do {
     isSet \<leftarrow> gets isMiddlewarePasswordSet;
     if \<not> isSet then flag_and_succeed E else State_Monad.return success
   }"

definition store_table :: "'w env \<Rightarrow> string \<Rightarrow> ('w, ErrorResponse) mw" where
  "store_table E table = do {
     err \<leftarrow> redis_SetString E MiddlewareAuth table;
     (case err of
        Some e \<Rightarrow> State_Monad.return (failure ErrorPasswordChangeFailed ''password change unsuccessful'')
      | None \<Rightarrow> after_store E)
   }"

definition issue :: "'w env \<Rightarrow> UserAuthenticateArgs \<Rightarrow> ('w, UserAuthenticateResponse) mw" where
  "issue E args = do {
     key \<leftarrow> gets jwtKey;
     tok \<leftarrow> GenerateToken E key (ua_Username args);
     State_Monad.return (case tok of
       Inl e \<Rightarrow> auth_failure ErrorAuthenticationFailed ''authentication unsuccessful, jwt error''
     | Inr jwtTokenStr \<Rightarrow> \<lparr>ua_ErrorResponse = Some success, ua_Token = jwtTokenStr\<rparr>)
   }"

definition look_up :: "'w env \<Rightarrow> UserAuthenticateArgs \<Rightarrow> ('w, UserAuthenticateResponse) mw" where
  "look_up E args = do {
     users \<leftarrow> getAuthStructure E;
     (case checked_login E args users of
        Logged_In _ r \<Rightarrow> State_Monad.return r
      | _ \<Rightarrow> issue E args)
   }"

definition set_flags :: "'w env \<Rightarrow> UserAuthenticateArgs \<Rightarrow> bool \<Rightarrow> bool \<Rightarrow> ('w, UserAuthenticateResponse) mw" where
  "set_flags E args p b = do {
     _ \<leftarrow> modify (\<lambda>s. s\<lparr>isMiddlewarePasswordSet := p, isBaseSetupDone := b\<rparr>);
     look_up E args
   }"

definition second_flag :: "'w env \<Rightarrow> UserAuthenticateArgs \<Rightarrow> bool \<Rightarrow> ('w, UserAuthenticateResponse) mw" where
  "second_flag E args p = do {
     (b, err) \<leftarrow> redis_GetBool E BaseSetupDone;
     (case err of
        Some e \<Rightarrow> State_Monad.return (auth_failure ErrorAuthenticationFailed ''authentication failed, redis error'')
      | None \<Rightarrow> set_flags E args p b)
   }"

fun password_rest :: "'w env \<Rightarrow> password_thread \<Rightarrow> ('w, password_reply) mw" where
  "password_rest E (Changing args) = reply_to Inl (UserChangePassword E args)"
| "password_rest E (Matched args m u) = reply_to Inl (store_new_password E m u args)"
| "password_rest E (Storing table) = reply_to Inl (store_table E table)"
| "password_rest E Stored = reply_to Inl (after_store E)"
| "password_rest E Flagging = reply_to Inl (flag_and_succeed E)"
| "password_rest E Flagged = reply_to Inl (do {
     _ \<leftarrow> modify (\<lambda>s. s\<lparr>isMiddlewarePasswordSet := True\<rparr>); State_Monad.return success })"
| "password_rest E (Changed r) = State_Monad.return (Inl r)"
| "password_rest E (Login args) = reply_to Inr (UserAuthenticate E args)"
| "password_rest E (Login_Flag args p) = reply_to Inr (second_flag E args p)"
| "password_rest E (Login_Flags args p b) = reply_to Inr (set_flags E args p b)"
| "password_rest E (Looking args) = reply_to Inr (look_up E args)"
| "password_rest E (Issuing args) = reply_to Inr (issue E args)"
| "password_rest E (Logged_In args r) = State_Monad.return (Inr r)"

fun password_left :: "password_thread \<Rightarrow> nat" where
  "password_left (Changing args) = 6" | "password_left (Matched a m u) = 5" | "password_left (Storing t) = 4"
| "password_left Stored = 3" | "password_left Flagging = 2" | "password_left Flagged = 1"
| "password_left (Changed r) = 0" | "password_left (Login a) = 5" | "password_left (Login_Flag a p) = 4"
| "password_left (Login_Flags a p b) = 3" | "password_left (Looking a) = 2" | "password_left (Issuing a) = 1"
| "password_left (Logged_In a r) = 0"

lemma password_rest_step:
  assumes "run_state (password_step E t) s = (t', s')"
  shows "run_state (password_rest E t) s = run_state (password_rest E t') s'"
proof (cases t)
  case (Changing args)
  with assms show ?thesis
    by (auto simp: UserChangePassword_def checked_change_def split: if_splits option.splits prod.splits)
next
  case (Matched args m u)
  with assms show ?thesis
    by (auto simp: store_new_password_def store_table_def after_store_def flag_and_succeed_def with_password_def Let_def
        split: sum.splits option.splits prod.splits)
next
  case (Login args)
  with assms show ?thesis
    by (auto simp: UserAuthenticate_def checkMiddlewareSetup_def second_flag_def set_flags_def look_up_def issue_def
        login_redis_error_def checked_login_def split: option.splits prod.splits)
qed (use assms in \<open>auto simp: store_table_def after_store_def flag_and_succeed_def second_flag_def set_flags_def look_up_def
    issue_def login_redis_error_def checked_login_def split: option.splits prod.splits if_splits\<close>)

interpretation passwords: cut_operation "password_step E" "password_rest E" replied_with password_left for E
proof
  fix t t' :: password_thread and s s' :: "'a middleware" and a
  show "run_state (password_step E t) s = (t', s') \<Longrightarrow> run_state (password_rest E t) s = run_state (password_rest E t') s'"
    by (rule password_rest_step)
  show "replied_with t = Some a \<Longrightarrow> run_state (password_rest E t) s = (a, s)" by (cases t) auto
  show "replied_with t = Some a \<Longrightarrow> run_state (password_step E t) s = (t, s)" by (cases t) auto
  show "run_state (password_step E t) s = (t', s') \<Longrightarrow> replied_with t = None \<Longrightarrow> password_left t' < password_left t"
    by (cases t) (auto simp: checked_change_def checked_login_def login_redis_error_def
        split: if_splits option.splits sum.splits prod.splits)
qed

text \<open>
  C20: A password change that is not interrupted ends within six steps and is \<open>UserChangePassword\<close>, a
  login within five and is \<open>UserAuthenticate\<close>.
\<close>

theorem alone_are_password_calls:
  assumes "6 \<le> n"
  shows "map_prod replied_with id (run_state (alone (password_step E) n (Changing args)) s) =
      map_prod (Some \<circ> Inl) id (run_state (UserChangePassword E args) s) \<and>
    map_prod replied_with id (run_state (alone (password_step E) n (Login login)) s) =
      map_prod (Some \<circ> Inr) id (run_state (UserAuthenticate E login) s)"
proof
  obtain t s' where run: "run_state (alone (password_step E) n (Changing args)) s = (t, s')" by fastforce
  have "password_left (Changing args) \<le> n" using assms by simp
  from passwords.alone_rest [OF this run]
  show "map_prod replied_with id (run_state (alone (password_step E) n (Changing args)) s) =
      map_prod (Some \<circ> Inl) id (run_state (UserChangePassword E args) s)"
    using run by (cases "run_state (UserChangePassword E args) s") auto
next
  obtain t s' where run: "run_state (alone (password_step E) n (Login login)) s = (t, s')" by fastforce
  have "password_left (Login login) \<le> n" using assms by simp
  from passwords.alone_rest [OF this run]
  show "map_prod replied_with id (run_state (alone (password_step E) n (Login login)) s) =
      map_prod (Some \<circ> Inr) id (run_state (UserAuthenticate E login) s)"
    using run by (cases "run_state (UserAuthenticate E login) s") auto
qed

subsection \<open>Every interleaving\<close>

text \<open>
  The hashes that may be stored for a user: those of the first table, and the hash of the new
  password of a call that knew a password for one of these.
\<close>

inductive earned :: "'w env \<Rightarrow> users_map \<Rightarrow> (UserChangePasswordArgs \<Rightarrow> bool) \<Rightarrow> string \<Rightarrow> string \<Rightarrow> bool" for E m0 A where
  first: "map_of m0 name = Some u \<Longrightarrow> earned E m0 A name (BCryptedPassword u)"
| change: "A args \<Longrightarrow> earned E m0 A (cp_Username args) h \<Longrightarrow> bcrypt_compare E h (cp_Password args) = None \<Longrightarrow>
    fst (bcrypt_generate E (cp_NewPassword args) 12 w) = Inr h' \<Longrightarrow> earned E m0 A (cp_Username args) h'"

definition knows_password :: "'w env \<Rightarrow> users_map \<Rightarrow> (UserChangePasswordArgs \<Rightarrow> bool) \<Rightarrow> string \<Rightarrow> string \<Rightarrow> bool" where
  "knows_password E m0 A name pw \<longleftrightarrow> (\<exists>h. earned E m0 A name h \<and> bcrypt_compare E h pw = None)"

definition table_ok :: "'w env \<Rightarrow> users_map \<Rightarrow> (UserChangePasswordArgs \<Rightarrow> bool) \<Rightarrow> users_map \<Rightarrow> bool" where
  "table_ok E m0 A m \<longleftrightarrow> users_ok m \<and> dom (map_of m) = dom (map_of m0) \<and>
     (\<forall>name u. map_of m name = Some u \<longrightarrow> earned E m0 A name (BCryptedPassword u))"

text \<open>Redis writes a value or leaves the old one, also when the client gets an error.\<close>

definition atomic_set :: "'w env \<Rightarrow> ('w \<Rightarrow> mock_map) \<Rightarrow> bool" where
  "atomic_set E db \<longleftrightarrow> (\<forall>k v w. db (snd (redis_do E ''SET'' [k, v] w)) k \<in> {db w k, Some v})"

definition password_world :: "'w env \<Rightarrow> ('w \<Rightarrow> mock_map) \<Rightarrow> bool" where
  "password_world E db \<longleftrightarrow> local_computation E db \<and> bcrypt_library E \<and> atomic_set E db"

definition store_ok ::
  "'w env \<Rightarrow> ('w \<Rightarrow> mock_map) \<Rightarrow> users_map \<Rightarrow> (UserChangePasswordArgs \<Rightarrow> bool) \<Rightarrow> 'w middleware \<Rightarrow> bool" where
  "store_ok E db m0 A s \<longleftrightarrow> store_valid E db s \<and>
     (\<exists>m. store_contents db s MiddlewareAuth = Marshal_users m \<and> table_ok E m0 A m)"

text \<open>What a call may rely on at each place.\<close>

fun password_place :: "'w env \<Rightarrow> users_map \<Rightarrow> (UserChangePasswordArgs \<Rightarrow> bool) \<Rightarrow> password_thread \<Rightarrow> bool" where
  "password_place E m0 A (Changing args) = A args"
| "password_place E m0 A (Matched args m u) = (A args \<and> table_ok E m0 A m \<and> map_of m (cp_Username args) = Some u \<and>
     bcrypt_compare E (BCryptedPassword u) (cp_Password args) = None)"
| "password_place E m0 A (Storing table) = (\<exists>m. table = Marshal_users m \<and> table_ok E m0 A m)"
| "password_place E m0 A (Issuing args) = knows_password E m0 A (ua_Username args) (ua_Password args)"
| "password_place E m0 A (Logged_In args r) =
     (logged_in r \<longrightarrow> knows_password E m0 A (ua_Username args) (ua_Password args))"
| "password_place E m0 A _ = True"

fun password_call :: "(UserChangePasswordArgs \<Rightarrow> bool) \<Rightarrow> password_thread \<Rightarrow> bool" where
  "password_call A (Changing args) = A args"
| "password_call A (Login args) = True"
| "password_call A _ = False"

lemma update_new: "k \<notin> fst ` set acc \<Longrightarrow> AList.update k v acc = acc @ [(k, v)]"
  by (induction acc) auto

lemma updates_append:
  "distinct (map fst xs) \<Longrightarrow> fst ` set xs \<inter> fst ` set acc = {} \<Longrightarrow>
    AList.updates (map fst xs) (map snd xs) acc = acc @ xs"
proof (induction xs arbitrary: acc)
  case (Cons x xs)
  have "AList.update (fst x) (snd x) acc = acc @ [x]"
    using Cons.prems(2) update_new [of "fst x" acc "snd x"] by auto
  moreover have "AList.updates (map fst xs) (map snd xs) (acc @ [x]) = (acc @ [x]) @ xs"
    by (rule Cons.IH) (use Cons.prems in auto)
  ultimately show ?case by simp
qed simp

lemma Unmarshal_Marshal_sorted: "users_ok m \<Longrightarrow> Unmarshal_users (Marshal_users m) = Some (sort_key fst m)"
  using Unmarshal_Marshal_eq [of m] updates_append [of "sort_key fst m" "[]"]
  by (simp add: users_ok_def distinct_map)

lemma table_ok_sorted: "table_ok E m0 A m \<Longrightarrow> table_ok E m0 A (sort_key fst m)"
  using sort_key_users [of m] by (simp add: table_ok_def users_ok_def distinct_map)

lemma table_ok_with_password:
  assumes "table_ok E m0 A m" "A args" "map_of m (cp_Username args) = Some u" "bcrypt_library E"
    and "bcrypt_compare E (BCryptedPassword u) (cp_Password args) = None"
    and "fst (bcrypt_generate E (cp_NewPassword args) 12 w) = Inr h"
  shows "table_ok E m0 A (with_password (cp_Username args) u h m)"
proof -
  have "valid_utf8 (cp_Username args)" using assms(1,3) by (auto simp: table_ok_def users_ok_def dest!: map_of_SomeD)
  moreover have "valid_utf8 h" using assms(4,6) unfolding bcrypt_library_def by blast
  moreover have "earned E m0 A (cp_Username args) (BCryptedPassword u)" using assms(1,3) by (simp add: table_ok_def)
  from earned.change [OF assms(2) this assms(5,6)] have "earned E m0 A (cp_Username args) h" .
  moreover have "dom (map_of (with_password (cp_Username args) u h m)) = dom (map_of m)"
    using assms(3) by (auto simp: map_of_with_password)
  ultimately show ?thesis
    using assms(1) by (auto simp: table_ok_def users_ok_with_password map_of_with_password)
qed

text \<open>What the three kinds of access to the store do to it.\<close>

lemma store_ok_same: "store_valid E db s' \<Longrightarrow> store_contents db s' = store_contents db s \<Longrightarrow> store_ok E db m0 A s \<Longrightarrow>
    store_ok E db m0 A s'"
  by (simp add: store_ok_def)

lemma store_ok_read:
  assumes "store_ok E db m0 A s" "run_state (getAuthStructure E) s = (users, s')"
  shows "store_ok E db m0 A s'" "users = Some m \<Longrightarrow> table_ok E m0 A m"
proof -
  obtain m1 where m1: "store_contents db s MiddlewareAuth = Marshal_users m1" "table_ok E m0 A m1"
    and valid: "store_valid E db s" using assms(1) by (auto simp: store_ok_def)
  note read = getAuthStructure_store [OF valid assms(2)]
  then show "store_ok E db m0 A s'" using assms(1) by (auto intro: store_ok_same)
  have "users_ok m1" using m1(2) by (simp add: table_ok_def)
  with read m1 show "users = Some m \<Longrightarrow> table_ok E m0 A m"
    using Unmarshal_Marshal_sorted table_ok_sorted by (metis option.inject)
qed

lemma set_string_atomic:
  assumes "atomic_set E db" "store_valid E db s" "run_state (redis_SetString E k v) s = (e, s')"
  shows "store_contents db s' k \<in> {store_contents db s k, v}"
proof (cases "redisClient s")
  case (Client port)
  have "go_lookup (db (snd (redis_do E ''SET'' [key_string k, v] (world s)))) (key_string k)
      \<in> {go_lookup (db (world s)) (key_string k), v}"
    using assms(1) unfolding atomic_set_def go_lookup_def by (metis insert_iff option.simps(5) singletonD)
  with Client assms(3) show ?thesis
    by (auto simp: redis_SetString_def run_via_client Client_SetString_def conn_Do_def split: prod.splits sum.splits)
next
  case (MockClient m)
  with assms(3) show ?thesis by (auto simp: redis_SetString_def run_via_client Mock_SetString_def go_lookup_def)
qed

lemma store_ok_set:
  assumes "store_ok E db m0 A s" "atomic_set E db" "run_state (redis_SetString E k v) s = (e, s')"
    and "k = MiddlewareAuth \<Longrightarrow> \<exists>m. v = Marshal_users m \<and> table_ok E m0 A m"
  shows "store_ok E db m0 A s'"
proof -
  have valid: "store_valid E db s" using assms(1) by (simp add: store_ok_def)
  note law = store.set_string_law [OF valid assms(3)]
  have "store_contents db s' MiddlewareAuth = store_contents db s MiddlewareAuth \<or>
      k = MiddlewareAuth \<and> store_contents db s' MiddlewareAuth = v"
    using law set_string_atomic [OF assms(2) valid assms(3)] by (cases "k = MiddlewareAuth") auto
  with law assms(1,4) show ?thesis by (auto simp: store_ok_def)
qed

lemma store_ok_flags:
  assumes "store_ok E db m0 A s" "run_state (redis_GetBool E k) s = ((b, e), s')"
  shows "store_ok E db m0 A s'"
  using assms store.get_bool_law [of E db s k b e s'] by (auto simp: store_ok_def)

lemma store_ok_fields [simp]:
  "store_ok E db m0 A (s\<lparr>isMiddlewarePasswordSet := b\<rparr>) = store_ok E db m0 A s"
  "store_ok E db m0 A (s\<lparr>isMiddlewarePasswordSet := b, isBaseSetupDone := c\<rparr>) = store_ok E db m0 A s"
  by (simp_all add: store_ok_def)

lemma store_ok_hash:
  assumes "local_computation E db" "store_ok E db m0 A s"
  shows "store_ok E db m0 A (s\<lparr>world := snd (bcrypt_generate E pw c (world s)), trace := t\<rparr>)"
  using assms by (simp add: store_ok_def local_computation_def)

lemma checked_change_place:
  assumes "\<And>m. users = Some m \<Longrightarrow> table_ok E m0 A m" "A args"
  shows "password_place E m0 A (checked_change E args users)"
  using assms by (auto simp: checked_change_def split: option.splits)

lemma checked_login_place:
  assumes "\<And>m. users = Some m \<Longrightarrow> table_ok E m0 A m"
  shows "password_place E m0 A (checked_login E args users)"
  using assms by (auto simp: checked_login_def table_ok_def knows_password_def split: option.splits) blast

lemma password_step_ok:
  assumes "password_world E db" "store_ok E db m0 A s" "password_place E m0 A t"
    and "run_state (password_step E t) s = (t', s')"
  shows "store_ok E db m0 A s' \<and> password_place E m0 A t'"
proof -
  have env: "local_computation E db" "bcrypt_library E" "atomic_set E db"
    using assms(1) by (simp_all add: password_world_def)
  show ?thesis
  proof (cases t)
    case (Changing args)
    obtain users s1 where g: "run_state (getAuthStructure E) s = (users, s1)" by fastforce
    from store_ok_read [OF assms(2) g] Changing assms(2-4) g show ?thesis
      by (auto intro: checked_change_place split: if_splits)
  next
    case (Matched args m u)
    with assms(2-4) env store_ok_hash [OF env(1) assms(2)] show ?thesis
      by (auto split: sum.splits intro!: table_ok_with_password)
  next
    case (Storing table)
    obtain e s1 where w: "run_state (redis_SetString E MiddlewareAuth table) s = (e, s1)" by fastforce
    from store_ok_set [OF assms(2) env(3) w] Storing assms(3,4) w show ?thesis by (auto split: option.splits)
  next
    case Flagging
    obtain e s1 where w: "run_state (redis_SetString E MiddlewarePasswordSet ''1'') s = (e, s1)" by fastforce
    from store_ok_set [OF assms(2) env(3) w] Flagging assms(4) w show ?thesis by auto
  next
    case (Login args)
    obtain b e s1 where w: "run_state (redis_GetBool E MiddlewarePasswordSet) s = ((b, e), s1)" by (metis prod.collapse)
    from store_ok_flags [OF assms(2) w] Login assms(4) w show ?thesis
      by (auto simp: login_redis_error_def split: option.splits)
  next
    case (Login_Flag args p)
    obtain b e s1 where w: "run_state (redis_GetBool E BaseSetupDone) s = ((b, e), s1)" by (metis prod.collapse)
    from store_ok_flags [OF assms(2) w] Login_Flag assms(4) w show ?thesis
      by (auto simp: login_redis_error_def split: option.splits)
  next
    case (Looking args)
    obtain users s1 where g: "run_state (getAuthStructure E) s = (users, s1)" by fastforce
    from store_ok_read [OF assms(2) g] Looking assms(4) g show ?thesis by (auto intro: checked_login_place)
  next
    case (Issuing args)
    with assms(2-4) show ?thesis by (auto simp: GenerateToken_def split: sum.splits)
  qed (use assms in auto)
qed

interpretation password_calls: thread_proof "\<lambda>i t. run_state (password_step E t)" "password_call A"
    "\<lambda>s. password_world E db \<longrightarrow> store_ok E db m0 A s" "\<lambda>t s. password_world E db \<longrightarrow> password_place E m0 A t"
  for E :: "'w env" and A db m0
proof unfold_locales
  fix t :: password_thread and s :: "'w middleware"
  assume "password_call A t" then show "password_world E db \<longrightarrow> password_place E m0 A t" by (cases t) auto
qed (use password_step_ok in blast)+

lemma earned_bystander:
  "earned E m0 A name h \<Longrightarrow> (\<And>args. A args \<Longrightarrow> cp_Username args \<noteq> name) \<Longrightarrow>
    \<exists>u. map_of m0 name = Some u \<and> h = BCryptedPassword u"
  by (induction rule: earned.induct) auto

text \<open>
  C18: However password changes and logins are interleaved, the table in Redis can be read and has the
  users it had; a password that logs a user in, then or in any of the logins answered, is one for a
  hash of the first table or for one set by a call that knew such a password itself; and the
  passwords of a user whom no call named are as they were.
\<close>

theorem passwords_are_earned:
  assumes "password_world E db" "store_valid E db s"
    and "store_contents db s MiddlewareAuth = Marshal_users m0" "users_ok m0"
    and "(interleaved (\<lambda>i t. run_state (password_step E t)) (password_call A))\<^sup>*\<^sup>* ([], s) (ts, s')"
  shows "(\<exists>m. Unmarshal_users (store_contents db s' MiddlewareAuth) = Some m \<and> dom (map_of m) = dom (map_of m0) \<and>
      (\<forall>name pw. password_matches E m name pw \<longrightarrow> knows_password E m0 A name pw) \<and>
      (\<forall>name. (\<forall>args. A args \<longrightarrow> cp_Username args \<noteq> name) \<longrightarrow>
        (\<forall>pw. password_matches E m name pw = password_matches E m0 name pw))) \<and>
    (\<forall>args r. Logged_In args r \<in> set ts \<longrightarrow> logged_in r \<longrightarrow>
      knows_password E m0 A (ua_Username args) (ua_Password args))"
proof
  have "table_ok E m0 A m0" using assms(4) by (auto simp: table_ok_def intro: earned.first)
  with assms(2,3) have "store_ok E db m0 A s" by (auto simp: store_ok_def)
  then have "password_calls.holds E db m0 A ([], s)" by (simp add: password_calls.holds_def)
  with assms(5) have "password_calls.holds E db m0 A (ts, s')" by (rule password_calls.reached_holds)
  then have end_: "store_ok E db m0 A s'" "\<And>t. t \<in> set ts \<Longrightarrow> password_place E m0 A t"
    unfolding password_calls.holds_def using assms(1) by simp_all
  then show "\<forall>args r. Logged_In args r \<in> set ts \<longrightarrow> logged_in r \<longrightarrow>
      knows_password E m0 A (ua_Username args) (ua_Password args)" by fastforce
  from end_(1) obtain m1 where m1: "store_contents db s' MiddlewareAuth = Marshal_users m1" "table_ok E m0 A m1"
    by (auto simp: store_ok_def)
  let ?m = "sort_key fst m1"
  have m: "Unmarshal_users (store_contents db s' MiddlewareAuth) = Some ?m" "table_ok E m0 A ?m"
    using m1 Unmarshal_Marshal_sorted [of m1] table_ok_sorted by (simp add: table_ok_def, blast)
  have same: "password_matches E ?m name pw = password_matches E m0 name pw"
    if "\<forall>args. A args \<longrightarrow> cp_Username args \<noteq> name" for name pw
  proof (cases "map_of ?m name")
    case None
    then have "map_of m0 name = None" using m(2) by (metis domIff table_ok_def)
    with None show ?thesis by (simp add: password_matches_def)
  next
    case (Some u)
    then have "earned E m0 A name (BCryptedPassword u)" using m(2) by (simp add: table_ok_def)
    with that earned_bystander show ?thesis using Some by (fastforce simp: password_matches_def)
  qed
  have "password_matches E ?m name pw \<Longrightarrow> knows_password E m0 A name pw" for name pw
    using m(2) by (fastforce simp: password_matches_def knows_password_def table_ok_def split: option.splits)
  with m same show "\<exists>m. Unmarshal_users (store_contents db s' MiddlewareAuth) = Some m \<and> dom (map_of m) = dom (map_of m0) \<and>
      (\<forall>name pw. password_matches E m name pw \<longrightarrow> knows_password E m0 A name pw) \<and>
      (\<forall>name. (\<forall>args. A args \<longrightarrow> cp_Username args \<noteq> name) \<longrightarrow>
        (\<forall>pw. password_matches E m name pw = password_matches E m0 name pw))"
    by (intro exI [of _ ?m]) (auto simp: table_ok_def)
qed

subsection \<open>A change that is lost\<close>

text \<open>Redis answers and hashing succeeds, whatever has happened before.\<close>

definition services_up :: "'w env \<Rightarrow> bool" where
  "services_up E \<longleftrightarrow> (\<forall>k w. \<exists>r. fst (redis_do E ''GET'' [k] w) = Inr r) \<and>
     (\<forall>k v w. \<exists>r. fst (redis_do E ''SET'' [k, v] w) = Inr r) \<and>
     (\<forall>pw w. \<exists>h. fst (bcrypt_generate E pw 12 w) = Inr h)"

lemma Marshal_users_nonempty: "Marshal_users m \<noteq> []"
  by (simp add: Marshal_users_def)

lemma get_string_up:
  assumes "services_up E" "store_valid E db s" "store_contents db s k \<noteq> []"
  obtains s' where "run_state (redis_GetString E k) s = ((store_contents db s k, None), s')"
    "store_valid E db s'" "store_contents db s' = store_contents db s"
proof -
  obtain v e s' where g: "run_state (redis_GetString E k) s = ((v, e), s')" by (metis prod.collapse)
  have "e = None"
  proof (cases "redisClient s")
    case (Client port)
    with assms(2) have server: "redis_server E db" by simp
    obtain r where r: "fst (redis_do E ''GET'' [key_string k] (world s)) = Inr r"
      using assms(1) unfolding services_up_def by blast
    from Client assms(3) redis_serverD(2) [OF server r] obtain v' where "r = RBulk v'"
      by (auto simp: go_lookup_def split: option.splits)
    with Client g r show ?thesis
      by (auto simp: redis_GetString_def run_via_client Client_GetString_def conn_Do_def redigo_String_def)
  next
    case (MockClient mm)
    with g show ?thesis by (auto simp: redis_GetString_def run_via_client Mock_GetString_def)
  qed
  with g store.get_string_law [OF assms(2) g] that show ?thesis by auto
qed

lemma set_string_up:
  assumes "services_up E" "run_state (redis_SetString E k v) s = (e, s')" shows "e = None"
proof (cases "redisClient s")
  case (Client port)
  obtain r where "fst (redis_do E ''SET'' [key_string k, v] (world s)) = Inr r"
    using assms(1) unfolding services_up_def by blast
  with Client assms(2) show ?thesis
    by (auto simp: redis_SetString_def run_via_client Client_SetString_def conn_Do_def split: prod.splits)
qed (use assms(2) in \<open>simp add: redis_SetString_def run_via_client\<close>)

lemma change_step_up:
  assumes "services_up E" "store_valid E db s" "store_contents db s MiddlewareAuth = Marshal_users m0" "users_ok m0"
    and "map_of m0 (cp_Username args) = Some u" "bcrypt_compare E (BCryptedPassword u) (cp_Password args) = None"
    and "8 \<le> length (cp_NewPassword args)"
  obtains s' where "run_state (password_step E (Changing args)) s = (Matched args (sort_key fst m0) u, s')"
    "store_valid E db s'" "store_contents db s' = store_contents db s"
proof -
  have m: "Unmarshal_users (Marshal_users m0) = Some (sort_key fst m0)" "map_of (sort_key fst m0) = map_of m0"
    using assms(4) Unmarshal_Marshal_sorted sort_key_users by auto
  have "store_contents db s MiddlewareAuth \<noteq> []" using assms(3) Marshal_users_nonempty by simp
  then obtain s' where "run_state (redis_GetString E MiddlewareAuth) s = ((store_contents db s MiddlewareAuth, None), s')"
    "store_valid E db s'" "store_contents db s' = store_contents db s"
    using get_string_up assms(1,2) by blast
  with that m assms show ?thesis by (simp add: getAuthStructure_def checked_change_def)
qed

lemma store_new_password_up:
  assumes "services_up E" shows "fst (run_state (store_new_password E m u args) s) = success"
proof -
  obtain h where "fst (bcrypt_generate E (cp_NewPassword args) 12 (world s)) = Inr h"
    using assms unfolding services_up_def by blast
  then show ?thesis
    by (auto simp: store_new_password_def Let_def split: prod.splits option.splits dest: set_string_up [OF assms])
qed

lemma finish_change:
  assumes "services_up E" "local_computation E db" "store_valid E db s"
  obtains s' h w where "run_state (alone (password_step E) 5 (Matched args m u)) s = (Changed success, s')"
    "store_valid E db s'" "fst (bcrypt_generate E (cp_NewPassword args) 12 w) = Inr h"
    "store_contents db s' MiddlewareAuth = Marshal_users (with_password (cp_Username args) u h m)"
proof -
  obtain t s' where run: "run_state (alone (password_step E) 5 (Matched args m u)) s = (t, s')" by fastforce
  obtain r where r: "run_state (store_new_password E m u args) s = (r, s')" "replied_with t = Some (Inl r)"
    using passwords.alone_rest [OF _ run] by (cases "run_state (store_new_password E m u args) s") auto
  then have "r = success" using store_new_password_up [OF assms(1), of m u args s] by simp
  moreover from r(2) have "t = Changed r" by (cases t) auto
  ultimately show ?thesis using that run store_new_password_result [OF assms(3,2) r(1)] by auto
qed

text \<open>
  C19: Two password changes at the same time: with Redis up and both current passwords right, they can be
  interleaved so that both are answered with success and the table holds only the second one; another
  user's password, which the first call replaced with success, is the old one.
\<close>

theorem concurrent_change_lost:
  assumes "services_up E" "password_world E db" "store_valid E db s"
    and "store_contents db s MiddlewareAuth = Marshal_users m0" "users_ok m0"
    and "map_of m0 (cp_Username a) = Some ua" "bcrypt_compare E (BCryptedPassword ua) (cp_Password a) = None"
    and "map_of m0 (cp_Username b) = Some ub" "bcrypt_compare E (BCryptedPassword ub) (cp_Password b) = None"
    and "8 \<le> length (cp_NewPassword a)" "8 \<le> length (cp_NewPassword b)"
  shows "\<exists>s' m' h w. (interleaved (\<lambda>i t. run_state (password_step E t)) (\<lambda>t. t \<in> {Changing a, Changing b}))\<^sup>*\<^sup>*
      ([], s) ([Changed success, Changed success], s') \<and>
    Unmarshal_users (store_contents db s' MiddlewareAuth) = Some m' \<and>
    fst (bcrypt_generate E (cp_NewPassword b) 12 w) = Inr h \<and>
    map_of m' = (map_of m0)(cp_Username b \<mapsto> ub\<lparr>BCryptedPassword := h, Role := ''admin''\<rparr>) \<and>
    (cp_Username a \<noteq> cp_Username b \<longrightarrow>
      (\<forall>pw. password_matches E m' (cp_Username a) pw = password_matches E m0 (cp_Username a) pw))"
proof -
  let ?m = "sort_key fst m0" and ?step = "\<lambda>i :: nat. \<lambda>t. run_state (password_step E t)"
  let ?new = "\<lambda>t. t \<in> {Changing a, Changing b}"
  have loc: "local_computation E db" and lib: "bcrypt_library E" using assms(2) by (simp_all add: password_world_def)
  obtain s1 where s1: "run_state (password_step E (Changing a)) s = (Matched a ?m ua, s1)"
    "store_valid E db s1" "store_contents db s1 = store_contents db s"
    using change_step_up [OF assms(1,3-7,10)] .
  obtain s2 where s2: "run_state (password_step E (Changing b)) s1 = (Matched b ?m ub, s2)" "store_valid E db s2"
    using change_step_up [OF assms(1) s1(2) _ assms(5,8,9,11)] s1(3) assms(4) by metis
  obtain s3 where s3: "run_state (alone (password_step E) 5 (Matched a ?m ua)) s2 = (Changed success, s3)"
    "store_valid E db s3" using finish_change [OF assms(1) loc s2(2)] by metis
  obtain s4 h w where s4: "run_state (alone (password_step E) 5 (Matched b ?m ub)) s3 = (Changed success, s4)"
    "fst (bcrypt_generate E (cp_NewPassword b) 12 w) = Inr h"
    "store_contents db s4 MiddlewareAuth = Marshal_users (with_password (cp_Username b) ub h ?m)"
    using finish_change [OF assms(1) loc s3(2)] by metis
  let ?order = "[0, 1] @ replicate 5 0 @ replicate 5 1"
  have "schedule ?step ?order ([Changing a, Changing b], s) = ([Changed success, Changed success], s4)"
    unfolding schedule_append using s1(1) s2(1) s3(1) s4(1)
    by (simp add: schedule_alone del: replicate.simps alone.simps password_step.simps)
  moreover have "list_all (\<lambda>i. i < length (fst ([Changing a, Changing b], s))) ?order"
    by (simp add: list_all_iff)
  ultimately have "(interleaved ?step ?new)\<^sup>*\<^sup>* ([Changing a, Changing b], s) ([Changed success, Changed success], s4)"
    using schedule_reached by metis
  moreover have "(interleaved ?step ?new)\<^sup>*\<^sup>* ([], s) ([Changing a, Changing b], s)"
    using spawned_reached [of "[Changing a, Changing b]" ?new ?step "[]" s] by simp
  ultimately have run: "(interleaved ?step ?new)\<^sup>*\<^sup>* ([], s) ([Changed success, Changed success], s4)" by simp
  let ?m' = "with_password (cp_Username b) ub h ?m"
  have sorted: "users_ok ?m" "map_of ?m = map_of m0"
    using assms(5) sort_key_users by (auto simp: users_ok_def distinct_map)
  have "valid_utf8 (cp_Username b)" using assms(5,8) by (auto simp: users_ok_def dest!: map_of_SomeD)
  moreover have "valid_utf8 h" using lib s4(2) unfolding bcrypt_library_def by blast
  ultimately have ok: "users_ok ?m'" using sorted(1) by (simp add: users_ok_with_password)
  then have table: "Unmarshal_users (store_contents db s4 MiddlewareAuth) = Some (sort_key fst ?m')"
    "map_of (sort_key fst ?m') = (map_of m0)(cp_Username b \<mapsto> ub\<lparr>BCryptedPassword := h, Role := ''admin''\<rparr>)"
    using s4(3) Unmarshal_Marshal_sorted sort_key_users sorted(2) by (simp_all add: map_of_with_password)
  then have "cp_Username a \<noteq> cp_Username b \<longrightarrow>
      (\<forall>pw. password_matches E (sort_key fst ?m') (cp_Username a) pw = password_matches E m0 (cp_Username a) pw)"
    by (simp add: password_matches_def)
  with run table s4(2) show ?thesis by blast
qed

text \<open>The properties on the simulated world, with a second user beside \<open>admin\<close>.\<close>

lemma sim_atomic_set [simp]: "atomic_set sim_env sim_db"
  by (simp add: atomic_set_def sim_redis_def)

lemma sim_password_world [simp]: "password_world sim_env sim_db"
  by (simp add: password_world_def)

lemma sim_services_up [simp]: "services_up sim_env"
  by (simp add: services_up_def sim_redis_def)

lemma alone_are_password_calls_witness:
  "replied_with (fst (run_state (alone (password_step sim_env) 6 (Changing demo_change)) (demo demo_users_db))) =
     Some (Inl (fst (run_state (UserChangePassword sim_env demo_change) (demo demo_users_db))))"
  using alone_are_password_calls [of 6 sim_env demo_change "demo demo_users_db" demo_old_login]
  by (auto simp: prod_eq_iff)

definition demo_two_users :: users_map where
  "demo_two_users = [(''admin'', \<lparr>BCryptedPassword = sim_hash initialAdminPassword, Role = ''admin''\<rparr>),
     (''satoshi'', \<lparr>BCryptedPassword = sim_hash ''nakamoto'', Role = ''admin''\<rparr>)]"

definition demo_two_db :: mock_map where
  "demo_two_db = [key_string MiddlewareAuth \<mapsto> Marshal_users demo_two_users]"

definition demo_change2 :: UserChangePasswordArgs where
  "demo_change2 = \<lparr>cp_Username = ''satoshi'', cp_Password = ''nakamoto'', cp_NewPassword = ''21 million'', cp_Token = []\<rparr>"

lemma demo_two [simp]:
  "go_lookup demo_two_db ''middleware:auth'' = Marshal_users demo_two_users" "users_ok demo_two_users"
  "map_of demo_two_users ''admin'' = Some \<lparr>BCryptedPassword = sim_hash initialAdminPassword, Role = ''admin''\<rparr>"
  "map_of demo_two_users ''satoshi'' = Some \<lparr>BCryptedPassword = sim_hash ''nakamoto'', Role = ''admin''\<rparr>"
proof -
  have "valid_utf8 ''satoshi''" by (rule valid_utf8_ascii) (auto simp: of_char_Char)
  then show "go_lookup demo_two_db ''middleware:auth'' = Marshal_users demo_two_users" "users_ok demo_two_users"
    "map_of demo_two_users ''admin'' = Some \<lparr>BCryptedPassword = sim_hash initialAdminPassword, Role = ''admin''\<rparr>"
    "map_of demo_two_users ''satoshi'' = Some \<lparr>BCryptedPassword = sim_hash ''nakamoto'', Role = ''admin''\<rparr>"
    by (simp_all add: demo_two_db_def demo_two_users_def users_ok_def go_lookup_def)
qed

lemma concurrent_change_lost_witness:
  "\<exists>s' m'. (interleaved (\<lambda>i t. run_state (password_step sim_env t))
      (\<lambda>t. t \<in> {Changing demo_change2, Changing demo_change}))\<^sup>*\<^sup>*
      ([], demo demo_two_db) ([Changed success, Changed success], s') \<and>
    Unmarshal_users (store_contents sim_db s' MiddlewareAuth) = Some m' \<and>
    password_matches sim_env m' ''satoshi'' ''nakamoto''"
proof -
  have b: "map_of demo_two_users (cp_Username demo_change2) = Some \<lparr>BCryptedPassword = sim_hash ''nakamoto'', Role = ''admin''\<rparr>"
    "cp_Username demo_change2 = ''satoshi''" "cp_Password demo_change2 = ''nakamoto''" "8 \<le> length (cp_NewPassword demo_change2)"
    by (simp_all add: demo_change2_def)
  have old: "bcrypt_compare sim_env (sim_hash pw) pw = None" for pw by simp
  have m: "store_contents sim_db (demo demo_two_db) MiddlewareAuth = Marshal_users demo_two_users" by simp
  obtain s' m' where "(interleaved (\<lambda>i t. run_state (password_step sim_env t))
      (\<lambda>t. t \<in> {Changing demo_change2, Changing demo_change}))\<^sup>*\<^sup>*
      ([], demo demo_two_db) ([Changed success, Changed success], s')"
    "Unmarshal_users (store_contents sim_db s' MiddlewareAuth) = Some m'"
    "\<forall>pw. password_matches sim_env m' ''satoshi'' pw = password_matches sim_env demo_two_users ''satoshi'' pw"
    using concurrent_change_lost [OF sim_services_up sim_password_world _ m demo_two(2) b(1) _ _ _ b(4), of demo_change] b
    by (auto simp del: sim_env_simps simp: old)
  then show ?thesis by (auto simp: password_matches_def)
qed

lemma passwords_are_earned_witness:
  "\<exists>ts s' m. (interleaved (\<lambda>i t. run_state (password_step sim_env t)) (password_call (\<lambda>args. args = demo_change)))\<^sup>*\<^sup>*
      ([], demo demo_two_db) (ts, s') \<and> length ts = 2 \<and>
    Unmarshal_users (store_contents sim_db s' MiddlewareAuth) = Some m \<and>
    password_matches sim_env m ''satoshi'' ''nakamoto''"
proof -
  let ?c = "([Changing demo_change, Login demo_old_login], demo demo_two_db)"
  let ?step = "\<lambda>i :: nat. \<lambda>t. run_state (password_step sim_env t)" and ?new = "password_call (\<lambda>args. args = demo_change)"
  obtain ts s' where c': "schedule ?step [0, 1, 0, 0] ?c = (ts, s')" by fastforce
  have "(interleaved ?step ?new)\<^sup>*\<^sup>* ([], demo demo_two_db) ?c"
    using spawned_reached [of "fst ?c" ?new ?step "[]" "demo demo_two_db"] by force
  also have "(interleaved ?step ?new)\<^sup>*\<^sup>* ?c (ts, s')" using schedule_reached [of ?c "[0, 1, 0, 0]" ?step] c' by simp
  finally have run: "(interleaved ?step ?new)\<^sup>*\<^sup>* ([], demo demo_two_db) (ts, s')" .
  have len: "length ts = 2" using schedule_length [of ?step "[0, 1, 0, 0]" ?c] c' by simp
  have "\<forall>args. args = demo_change \<longrightarrow> cp_Username args \<noteq> ''satoshi''" by simp
  with passwords_are_earned [OF sim_password_world _ _ _ run, of demo_two_users] obtain m where
      "Unmarshal_users (store_contents sim_db s' MiddlewareAuth) = Some m"
      "\<forall>pw. password_matches sim_env m ''satoshi'' pw = password_matches sim_env demo_two_users ''satoshi'' pw"
    by auto
  moreover have "password_matches sim_env demo_two_users ''satoshi'' ''nakamoto''"
    by (simp add: password_matches_def)
  ultimately show ?thesis using run len by blast
qed

end
