(* ===== verification/Noise_Config.thy ===== *)
theory Noise_Config
  imports Go_JSON
begin

text \<open>
  The file in which the middleware keeps its noise key pair and the keys of paired clients
  (middleware/src/noise/noise.go, from \<open>configuration\<close> on): its JSON form, with the conversions
  of \<open>encoding/json\<close> for byte slices, and reading, adding to and writing it.

  A byte slice is an option, \<open>None\<close> for nil; the same holds of the slice of client keys.  The
  file system is a record of functions, of which \<open>file_system\<close> states that what was written is
  read back.

  Lemma groups: base64 decodes what it encodes, the configuration is read back as it was
  written, adding a key.
\<close>

subsection \<open>base64.StdEncoding\<close>

text \<open>The alphabet: capital letters, small letters, digits, plus and slash.\<close>

definition std_char :: "nat \<Rightarrow> char" where
  "std_char d = char_of (if d < 26 then d + 65 else if d < 52 then d + 71
     else if d < 62 then d - 4 else if d = 62 then 43 else 47)"

definition std_value :: "char \<Rightarrow> nat option" where
  "std_value c = (let b = byte c in
     if 65 \<le> b \<and> b \<le> 90 then Some (b - 65)
     else if 97 \<le> b \<and> b \<le> 122 then Some (b - 71)
     else if 48 \<le> b \<and> b \<le> 57 then Some (b + 4)
     else if b = 43 then Some 62
     else if b = 47 then Some 63
     else None)"

fun StdEncoding :: "string \<Rightarrow> string" where
  "StdEncoding (a # b # c # rest) =
     [std_char (byte a div 4), std_char (byte a mod 4 * 16 + byte b div 16),
      std_char (byte b mod 16 * 4 + byte c div 64), std_char (byte c mod 64)] @ StdEncoding rest"
| "StdEncoding [a, b] =
     [std_char (byte a div 4), std_char (byte a mod 4 * 16 + byte b div 16),
      std_char (byte b mod 16 * 4), CHR ''='']"
| "StdEncoding [a] = [std_char (byte a div 4), std_char (byte a mod 4 * 16), CHR ''='', CHR ''='']"
| "StdEncoding [] = []"

text \<open>Padding is required and ends the text; the bits it leaves over are not looked at.\<close>

fun decode_quanta :: "string \<Rightarrow> string option" where
  "decode_quanta [] = Some []"
| "decode_quanta (a # b # c # d # rest) =
     (case (std_value a, std_value b) of
        (Some v, Some w) \<Rightarrow>
          if d = CHR ''='' then
            (if rest \<noteq> [] then None
             else if c = CHR ''='' then Some [char_of (v * 4 + w div 16)]
             else (case std_value c of
                 None \<Rightarrow> None
               | Some x \<Rightarrow> Some [char_of (v * 4 + w div 16), char_of (w mod 16 * 16 + x div 4)]))
          else (case (std_value c, std_value d) of
              (Some x, Some y) \<Rightarrow> map_option (\<lambda>s. [char_of (v * 4 + w div 16),
                char_of (w mod 16 * 16 + x div 4), char_of (x mod 4 * 64 + y)] @ s) (decode_quanta rest)
            | _ \<Rightarrow> None)
      | _ \<Rightarrow> None)"
| "decode_quanta _ = None"

text \<open>Line breaks are skipped.\<close>

definition DecodeString :: "string \<Rightarrow> string option" where
  "DecodeString s = decode_quanta (filter (\<lambda>c. c \<noteq> CHR 0x0A \<and> c \<noteq> CHR 0x0D) s)"

subsection \<open>The configuration and its JSON\<close>

type_synonym bytes = "string option"

definition bytes_of :: "bytes \<Rightarrow> string" where
  "bytes_of b = (case b of None \<Rightarrow> [] | Some s \<Rightarrow> s)"

record noiseKeypair =
  Private :: bytes
  Public :: bytes

record noise_configuration =
  MiddlewareNoiseStaticKeypair :: "noiseKeypair option"
  ClientNoiseStaticPubkeys :: "bytes list option"

definition empty_configuration :: noise_configuration where
  "empty_configuration = \<lparr>MiddlewareNoiseStaticKeypair = None, ClientNoiseStaticPubkeys = None\<rparr>"

definition bytes_json :: "bytes \<Rightarrow> json" where
  "bytes_json b = (case b of None \<Rightarrow> JNull | Some s \<Rightarrow> JString (StdEncoding s))"

definition keypair_json :: "noiseKeypair option \<Rightarrow> json" where
  "keypair_json k = (case k of None \<Rightarrow> JNull
   | Some kp \<Rightarrow> JObject [(''private'', bytes_json (Private kp)), (''public'', bytes_json (Public kp))])"

definition pubkeys_json :: "bytes list option \<Rightarrow> json" where
  "pubkeys_json ks = (case ks of None \<Rightarrow> JNull | Some bs \<Rightarrow> JArray (map bytes_json bs))"

definition configuration_json :: "noise_configuration \<Rightarrow> json" where
  "configuration_json conf = JObject
     [(''appNoiseStaticKeypair'', keypair_json (MiddlewareNoiseStaticKeypair conf)),
      (''deviceNoiseStaticPubkeys'', pubkeys_json (ClientNoiseStaticPubkeys conf))]"

definition Marshal_configuration :: "noise_configuration \<Rightarrow> string" where
  "Marshal_configuration conf = json_text (configuration_json conf)"

text \<open>
  Decoding.  An array of numbers is accepted for a byte slice too; a field that occurs twice is
  decoded twice, into the same key pair.
\<close>

fun decode_uint8 :: "json \<Rightarrow> char option" where
  "decode_uint8 (JNumber lit) = (if lit \<noteq> [] \<and> list_all is_digit lit \<and> digits_value lit \<le> 255
     then Some (char_of (digits_value lit)) else None)"
| "decode_uint8 JNull = Some (CHR 0x00)"
| "decode_uint8 _ = None"

fun decode_all :: "('a \<Rightarrow> 'b option) \<Rightarrow> 'a list \<Rightarrow> 'b list option" where
  "decode_all f [] = Some []"
| "decode_all f (x # xs) = (case f x of None \<Rightarrow> None | Some y \<Rightarrow> map_option ((#) y) (decode_all f xs))"

fun decode_bytes :: "json \<Rightarrow> bytes option" where
  "decode_bytes (JString s) = map_option Some (DecodeString s)"
| "decode_bytes JNull = Some None"
| "decode_bytes (JArray vs) = map_option Some (decode_all decode_uint8 vs)"
| "decode_bytes _ = None"

fun decode_pubkeys :: "json \<Rightarrow> bytes list option option" where
  "decode_pubkeys JNull = Some None"
| "decode_pubkeys (JArray vs) = map_option Some (decode_all decode_bytes vs)"
| "decode_pubkeys _ = None"

definition decode_keypair_field :: "string \<times> json \<Rightarrow> noiseKeypair \<Rightarrow> noiseKeypair option" where
  "decode_keypair_field kv kp = (case kv of (k, v) \<Rightarrow>
     if EqualFold k ''private'' then map_option (\<lambda>b. kp\<lparr>Private := b\<rparr>) (decode_bytes v)
     else if EqualFold k ''public'' then map_option (\<lambda>b. kp\<lparr>Public := b\<rparr>) (decode_bytes v)
     else Some kp)"

fun decode_keypair_fields :: "(string \<times> json) list \<Rightarrow> noiseKeypair \<Rightarrow> noiseKeypair option" where
  "decode_keypair_fields [] kp = Some kp"
| "decode_keypair_fields (kv # kvs) kp =
     (case decode_keypair_field kv kp of None \<Rightarrow> None | Some kp' \<Rightarrow> decode_keypair_fields kvs kp')"

fun decode_keypair :: "json \<Rightarrow> noiseKeypair option \<Rightarrow> noiseKeypair option option" where
  "decode_keypair JNull old = Some None"
| "decode_keypair (JObject kvs) old = map_option Some (decode_keypair_fields kvs
     (case old of None \<Rightarrow> \<lparr>Private = None, Public = None\<rparr> | Some kp \<Rightarrow> kp))"
| "decode_keypair _ old = None"

definition decode_configuration_field ::
  "string \<times> json \<Rightarrow> noise_configuration \<Rightarrow> noise_configuration option" where
  "decode_configuration_field kv conf = (case kv of (k, v) \<Rightarrow>
     if EqualFold k ''appNoiseStaticKeypair'' then
       map_option (\<lambda>kp. conf\<lparr>MiddlewareNoiseStaticKeypair := kp\<rparr>)
         (decode_keypair v (MiddlewareNoiseStaticKeypair conf))
     else if EqualFold k ''deviceNoiseStaticPubkeys'' then
       map_option (\<lambda>ks. conf\<lparr>ClientNoiseStaticPubkeys := ks\<rparr>) (decode_pubkeys v)
     else Some conf)"

fun decode_configuration_fields ::
  "(string \<times> json) list \<Rightarrow> noise_configuration \<Rightarrow> noise_configuration option" where
  "decode_configuration_fields [] conf = Some conf"
| "decode_configuration_fields (kv # kvs) conf =
     (case decode_configuration_field kv conf of
        None \<Rightarrow> None | Some conf' \<Rightarrow> decode_configuration_fields kvs conf')"

definition Unmarshal_configuration :: "string \<Rightarrow> noise_configuration option" where
  "Unmarshal_configuration s = (case json_parse s of
     Some (JObject kvs) \<Rightarrow> decode_configuration_fields kvs empty_configuration
   | Some JNull \<Rightarrow> Some empty_configuration
   | _ \<Rightarrow> None)"

subsection \<open>The file\<close>

text \<open>
  What the code uses of the file system.  \<open>file_path\<close> is \<open>filepath.Join\<close>, \<open>stat_file\<close> tells
  whether there is a file (and not a directory) at a path.
\<close>

record 'w files =
  file_path :: "string \<Rightarrow> string \<Rightarrow> string"
  stat_file :: "string \<Rightarrow> 'w \<Rightarrow> bool"
  read_file :: "string \<Rightarrow> 'w \<Rightarrow> goerr + string"
  mkdir_all :: "string \<Rightarrow> 'w \<Rightarrow> goerr option \<times> 'w"
  write_file :: "string \<Rightarrow> string \<Rightarrow> 'w \<Rightarrow> goerr option \<times> 'w"

definition file_system :: "('w, 'r) files_scheme \<Rightarrow> bool" where
  "file_system F \<longleftrightarrow> (\<forall>p d w w'. write_file F p d w = (None, w') \<longrightarrow>
     stat_file F p w' \<and> read_file F p w' = Inr d)"

definition configFilename :: string where
  "configFilename = ''base.json''"

definition File_write :: "('w, 'r) files_scheme \<Rightarrow> string \<Rightarrow> string \<Rightarrow> 'w \<Rightarrow> goerr option \<times> 'w" where
  "File_write F dir data w = (case mkdir_all F dir w of
     (Some e, w') \<Rightarrow> (Some e, w')
   | (None, w') \<Rightarrow> write_file F (file_path F dir configFilename) data w')"

definition readConfig :: "('w, 'r) files_scheme \<Rightarrow> string \<Rightarrow> 'w \<Rightarrow> noise_configuration" where
  "readConfig F dir w =
     (if \<not> stat_file F (file_path F dir configFilename) w then empty_configuration
      else (case read_file F (file_path F dir configFilename) w of
          Inl e \<Rightarrow> empty_configuration
        | Inr data \<Rightarrow> (case Unmarshal_configuration data of
              None \<Rightarrow> empty_configuration
            | Some conf \<Rightarrow> conf)))"

definition storeConfig ::
  "('w, 'r) files_scheme \<Rightarrow> string \<Rightarrow> noise_configuration \<Rightarrow> 'w \<Rightarrow> goerr option \<times> 'w" where
  "storeConfig F dir conf w = File_write F dir (Marshal_configuration conf) w"

definition pubkey_list :: "noise_configuration \<Rightarrow> bytes list" where
  "pubkey_list conf = (case ClientNoiseStaticPubkeys conf of None \<Rightarrow> [] | Some ks \<Rightarrow> ks)"

definition containsClientStaticPubkey :: "('w, 'r) files_scheme \<Rightarrow> string \<Rightarrow> string \<Rightarrow> 'w \<Rightarrow> bool" where
  "containsClientStaticPubkey F dir pubkey w =
     list_ex (\<lambda>k. bytes_of k = pubkey) (pubkey_list (readConfig F dir w))"

definition addClientStaticPubkey ::
  "('w, 'r) files_scheme \<Rightarrow> string \<Rightarrow> string \<Rightarrow> 'w \<Rightarrow> goerr option \<times> 'w" where
  "addClientStaticPubkey F dir pubkey w =
     (if containsClientStaticPubkey F dir pubkey w then (None, w)
      else (let conf = readConfig F dir w
        in storeConfig F dir
             (conf\<lparr>ClientNoiseStaticPubkeys := Some (pubkey_list conf @ [Some pubkey])\<rparr>) w))"

definition getMiddlewareNoiseStaticKeypair ::
  "('w, 'r) files_scheme \<Rightarrow> string \<Rightarrow> 'w \<Rightarrow> noiseKeypair option" where
  "getMiddlewareNoiseStaticKeypair F dir w = MiddlewareNoiseStaticKeypair (readConfig F dir w)"

definition setMiddlewareNoiseStaticKeypair ::
  "('w, 'r) files_scheme \<Rightarrow> string \<Rightarrow> noiseKeypair \<Rightarrow> 'w \<Rightarrow> goerr option \<times> 'w" where
  "setMiddlewareNoiseStaticKeypair F dir key w =
     storeConfig F dir ((readConfig F dir w)\<lparr>MiddlewareNoiseStaticKeypair := Some key\<rparr>) w"

subsection \<open>base64 decodes what it encodes\<close>

lemma byte_lt: "byte c < 256"
  by (cases c) (simp add: of_char_def)

lemma byte_std_char:
  "d < 64 \<Longrightarrow> byte (std_char d) = (if d < 26 then d + 65 else if d < 52 then d + 71
     else if d < 62 then d - 4 else if d = 62 then 43 else 47)"
  by (simp add: std_char_def take_bit_eq_mod)

lemma std_value_char: "d < 64 \<Longrightarrow> std_value (std_char d) = Some d"
  by (auto simp: std_value_def byte_std_char Let_def)

lemma std_char_plain:
  assumes "d < 64"
  shows "std_char d \<noteq> CHR ''=''" "std_char d \<noteq> CHR 0x0A" "std_char d \<noteq> CHR 0x0D" "byte (std_char d) < 128"
    "43 \<le> byte (std_char d)"
proof -
  have "byte (std_char d) \<notin> {61, 10, 13}" "byte (std_char d) < 128" "43 \<le> byte (std_char d)"
    using assms by (auto simp: byte_std_char)
  then show "std_char d \<noteq> CHR ''=''" "std_char d \<noteq> CHR 0x0A" "std_char d \<noteq> CHR 0x0D" "byte (std_char d) < 128"
    "43 \<le> byte (std_char d)"
    by auto
qed

lemma sextets:
  "byte a div 4 < 64" "byte a mod 4 * 16 + byte b div 16 < 64" "byte b mod 16 * 4 + byte c div 64 < 64"
  "byte c mod 64 < 64" "byte b mod 16 * 4 < 64" "byte a mod 4 * 16 < 64"
proof -
  have "x mod 4 < 4" "y mod 16 < 16" "byte d div 16 < 16" "byte d div 64 < 4" "byte d div 4 < 64" for x y :: nat and d
    using byte_lt [of d] by (auto simp: less_mult_imp_div_less)
  note m = this(1) [of "byte a"] this(2) [of "byte b"] this(3) [of b] this(4) [of c] this(5) [of a]
  from m show "byte a mod 4 * 16 + byte b div 16 < 64" "byte b mod 16 * 4 + byte c div 64 < 64"
    "byte b mod 16 * 4 < 64" "byte a mod 4 * 16 < 64" "byte a div 4 < 64" "byte c mod 64 < 64"
    by linarith+
qed

lemma pack: "y < n \<Longrightarrow> (x * n + y) div n = (x :: nat)" "y < n \<Longrightarrow> (x * n + y) mod n = y"
  by simp_all

lemma byte_split:
  "byte a div 4 * 4 + (byte a mod 4 * 16 + byte b div 16) div 16 = byte a"
  "(byte a mod 4 * 16 + byte b div 16) mod 16 * 16 + (byte b mod 16 * 4 + byte c div 64) div 4 = byte b"
  "(byte b mod 16 * 4 + byte c div 64) mod 4 * 64 + byte c mod 64 = byte c"
  "byte a div 4 * 4 + (byte a mod 4 * 16) div 16 = byte a"
  "(byte a mod 4 * 16 + byte b div 16) mod 16 * 16 + (byte b mod 16 * 4) div 4 = byte b"
proof -
  have "byte b div 16 < 16" "byte c div 64 < 4" using byte_lt [of b] byte_lt [of c] by (auto simp: less_mult_imp_div_less)
  note p = pack [OF this(1)] pack [OF this(2)]
  show "byte a div 4 * 4 + (byte a mod 4 * 16 + byte b div 16) div 16 = byte a"
    "(byte a mod 4 * 16 + byte b div 16) mod 16 * 16 + (byte b mod 16 * 4 + byte c div 64) div 4 = byte b"
    "(byte b mod 16 * 4 + byte c div 64) mod 4 * 64 + byte c mod 64 = byte c"
    "byte a div 4 * 4 + (byte a mod 4 * 16) div 16 = byte a"
    "(byte a mod 4 * 16 + byte b div 16) mod 16 * 16 + (byte b mod 16 * 4) div 4 = byte b"
    unfolding p by simp_all
qed

lemma decode_quantum:
  assumes "v < 64" "w < 64"
  shows "x < 64 \<Longrightarrow> y < 64 \<Longrightarrow> decode_quanta (std_char v # std_char w # std_char x # std_char y # rest) =
      map_option ((@) [char_of (v * 4 + w div 16), char_of (w mod 16 * 16 + x div 4),
        char_of (x mod 4 * 64 + y)]) (decode_quanta rest)"
    and "x < 64 \<Longrightarrow> decode_quanta [std_char v, std_char w, std_char x, CHR ''=''] =
      Some [char_of (v * 4 + w div 16), char_of (w mod 16 * 16 + x div 4)]"
    and "decode_quanta [std_char v, std_char w, CHR ''='', CHR ''=''] = Some [char_of (v * 4 + w div 16)]"
  using assms by (simp_all add: std_value_char std_char_plain cong: option.map_cong)

lemma decode_quanta_encode: "decode_quanta (StdEncoding s) = Some s"
proof (induction s rule: StdEncoding.induct)
  case (1 a b c rest)
  then show ?case
    unfolding StdEncoding.simps append.simps decode_quantum(1) [OF sextets(1,2,3,4)] byte_split by simp
next
  case (2 a b)
  show ?case unfolding StdEncoding.simps decode_quantum(2) [OF sextets(1,2,5)] byte_split by simp
next
  case (3 a)
  show ?case unfolding StdEncoding.simps decode_quantum(3) [OF sextets(1,6)] byte_split by simp
qed simp

lemma StdEncoding_chars: "c \<in> set (StdEncoding s) \<Longrightarrow> c \<noteq> CHR 0x0A \<and> c \<noteq> CHR 0x0D \<and> byte c < 128"
  by (induction s rule: StdEncoding.induct) (auto simp: std_char_plain sextets)

lemma DecodeString_StdEncoding [simp]: "DecodeString (StdEncoding s) = Some s"
proof -
  have "filter (\<lambda>c. c \<noteq> CHR 0x0A \<and> c \<noteq> CHR 0x0D) (StdEncoding s) = StdEncoding s"
    using StdEncoding_chars by (auto intro: filter_True)
  then show ?thesis by (simp add: DecodeString_def decode_quanta_encode)
qed

subsection \<open>The configuration is read back\<close>

lemma EqualFold_fields [simp]:
  "EqualFold ''private'' ''private''" "EqualFold ''public'' ''public''" "\<not> EqualFold ''public'' ''private''"
  "EqualFold ''appNoiseStaticKeypair'' ''appNoiseStaticKeypair''"
  "EqualFold ''deviceNoiseStaticPubkeys'' ''deviceNoiseStaticPubkeys''"
  "\<not> EqualFold ''deviceNoiseStaticPubkeys'' ''appNoiseStaticKeypair''"
  by (simp_all add: EqualFold_def fold_rune_def)

lemma decode_bytes_json [simp]: "decode_bytes (bytes_json b) = Some b"
  by (cases b) (simp_all add: bytes_json_def)

lemma decode_all_map [simp]: "(\<And>x. x \<in> set xs \<Longrightarrow> f (g x) = Some x) \<Longrightarrow> decode_all f (map g xs) = Some xs"
  by (induction xs) simp_all

lemma decode_keypair_json [simp]: "decode_keypair (keypair_json k) None = Some k"
  by (cases k) (simp_all add: keypair_json_def decode_keypair_field_def)

lemma decode_pubkeys_json [simp]: "decode_pubkeys (pubkeys_json ks) = Some ks"
  by (cases ks) (simp_all add: pubkeys_json_def)

lemma sanitize_StdEncoding [simp]: "sanitize (StdEncoding s) = StdEncoding s"
  using StdEncoding_chars by (intro sanitize_valid valid_utf8_ascii) blast

lemma sanitize_bytes_json [simp]: "sanitize_json (bytes_json b) = bytes_json b" "no_numbers (bytes_json b)"
  by (simp_all add: bytes_json_def split: option.split)

lemma sanitize_words [simp]:
  "sanitize ''private'' = ''private''" "sanitize ''public'' = ''public''"
  "sanitize ''appNoiseStaticKeypair'' = ''appNoiseStaticKeypair''"
  "sanitize ''deviceNoiseStaticPubkeys'' = ''deviceNoiseStaticPubkeys''"
  by (rule sanitize_valid [OF valid_utf8_ascii]; auto)+

lemma configuration_json_plain:
  "sanitize_json (configuration_json conf) = configuration_json conf" "no_numbers (configuration_json conf)"
  by (auto simp: configuration_json_def keypair_json_def pubkeys_json_def list_all_iff split: option.split)

lemma Unmarshal_Marshal_configuration:
  "Unmarshal_configuration (Marshal_configuration conf) = Some conf"
proof -
  have "json_parse (Marshal_configuration conf) = Some (configuration_json conf)"
    unfolding Marshal_configuration_def using json_parse_text [OF configuration_json_plain(2)]
    by (simp only: configuration_json_plain(1))
  then show ?thesis
    by (simp add: Unmarshal_configuration_def configuration_json_def decode_configuration_field_def
        empty_configuration_def)
qed

lemma storeConfig_read:
  assumes "file_system F" "storeConfig F dir conf w = (None, w')"
  shows "readConfig F dir w' = conf"
  using assms Unmarshal_Marshal_configuration
  by (auto simp: storeConfig_def File_write_def readConfig_def file_system_def split: prod.splits option.splits)

subsection \<open>Properties\<close>

text \<open>
  C32: The configuration file is read back as it was written: nil and empty slices apart, with
  any bytes in the keys.
\<close>

theorem noise_config_roundtrip:
  assumes "file_system F" "storeConfig F dir conf w = (None, w')"
  shows "readConfig F dir w' = conf"
  using storeConfig_read [OF assms] .

text \<open>
  Adding a client's key to the configuration, if it could be written, adds exactly that key:
  the client is recognised from then on, every other client as before, and the key pair of the
  middleware is the same.
\<close>

theorem paired_key_remembered:
  assumes "file_system F" "addClientStaticPubkey F dir k w = (None, w')"
  shows "(containsClientStaticPubkey F dir k' w' \<longleftrightarrow> k' = k \<or> containsClientStaticPubkey F dir k' w) \<and>
    getMiddlewareNoiseStaticKeypair F dir w' = getMiddlewareNoiseStaticKeypair F dir w"
proof (cases "containsClientStaticPubkey F dir k w")
  case True
  with assms(2) show ?thesis by (auto simp: addClientStaticPubkey_def)
next
  case False
  let ?c = "readConfig F dir w"
  have "readConfig F dir w' = ?c\<lparr>ClientNoiseStaticPubkeys := Some (pubkey_list ?c @ [Some k])\<rparr>"
    using False assms(2) storeConfig_read [OF assms(1)] by (simp add: addClientStaticPubkey_def Let_def)
  then show ?thesis
    by (auto simp: containsClientStaticPubkey_def getMiddlewareNoiseStaticKeypair_def pubkey_list_def bytes_of_def)
qed

text \<open>A file system that is a map from paths to contents.\<close>

type_synonym file_map = "string \<Rightarrow> string option"

definition map_files :: "file_map files" where
  "map_files = \<lparr>file_path = (\<lambda>d n. d @ ''/'' @ n),
     stat_file = (\<lambda>p w. w p \<noteq> None),
     read_file = (\<lambda>p w. case w p of None \<Rightarrow> Inl (ErrorString ''no such file or directory'') | Some d \<Rightarrow> Inr d),
     mkdir_all = (\<lambda>d w. (None, w)),
     write_file = (\<lambda>p d w. (None, w(p \<mapsto> d)))\<rparr>"

lemma map_files_system [simp]: "file_system map_files"
  by (auto simp: file_system_def map_files_def)

lemma map_files_store: "storeConfig map_files d c w = (None, w(d @ ''/'' @ configFilename \<mapsto> Marshal_configuration c))"
  by (simp add: storeConfig_def File_write_def map_files_def)

lemma noise_config_roundtrip_witness:
  "\<exists>w'. storeConfig map_files ''.base'' (empty_configuration\<lparr>ClientNoiseStaticPubkeys := Some [Some ''key'', None]\<rparr>)
     Map.empty = (None, w') \<and>
   readConfig map_files ''.base'' w' = empty_configuration\<lparr>ClientNoiseStaticPubkeys := Some [Some ''key'', None]\<rparr>"
  using noise_config_roundtrip [OF map_files_system map_files_store] map_files_store by blast

lemma paired_key_remembered_witness:
  "containsClientStaticPubkey map_files ''.base'' ''client''
     (snd (addClientStaticPubkey map_files ''.base'' ''client'' Map.empty))"
proof -
  have "\<exists>w'. addClientStaticPubkey map_files ''.base'' ''client'' Map.empty = (None, w')"
    by (auto simp: addClientStaticPubkey_def map_files_store Let_def)
  then obtain w' where add: "addClientStaticPubkey map_files ''.base'' ''client'' Map.empty = (None, w')" ..
  from paired_key_remembered [OF map_files_system add, of "''client''"] show ?thesis by (simp add: add)
qed

end
