(* ===== verification/Ipcnotification.thy ===== *)
theory Ipcnotification
  imports Go_JSON
begin

text \<open>
  Package \<open>ipcnotification\<close> (middleware/src/ipcnotification): notifications arrive as lines of JSON
  on a named pipe.  \<open>scan_pipe\<close> is the reading goroutine over the bytes written to the pipe so
  far: the notifications it has delivered and whether it is still reading (the theory Pipe_Reader has it
  in steps).  The line scanner is
  \<open>bufio.Scanner\<close> with its default buffer of 64 KiB; \<open>NewReader\<close> opens the pipe through the functions of \<open>pipe_env\<close>.

  A payload is kept as a JSON value (\<open>interface{}\<close>); a number in it must be in the range of
  \<open>float64\<close>.  Of a repeated field the last one counts.
\<close>

record Notification =
  Version :: int
  Topic :: string
  Payload :: json

subsection \<open>Decoding\<close>

text \<open>
  The value of a number literal, and whether it rounds to a finite \<open>float64\<close>: below the
  midpoint between the largest finite value and \<open>2 ^ 1024\<close>.
\<close>

definition literal_value :: "string \<Rightarrow> rat" where
  "literal_value s =
     (let t = (if HasPrefix s ''-'' then tl s else s);
          mant = takeWhile (\<lambda>c. c \<noteq> CHR ''e'' \<and> c \<noteq> CHR ''E'') t;
          ex = tl (dropWhile (\<lambda>c. c \<noteq> CHR ''e'' \<and> c \<noteq> CHR ''E'') t);
          ip = takeWhile (\<lambda>c. c \<noteq> CHR ''.'') mant;
          fp = tl (dropWhile (\<lambda>c. c \<noteq> CHR ''.'') mant);
          m = of_nat (digits_value (ip @ fp)) / 10 ^ length fp;
          e = digits_value (filter is_digit ex)
      in if HasPrefix ex ''-'' then m / 10 ^ e else m * 10 ^ e)"

definition fits_float64 :: "string \<Rightarrow> bool" where
  "fits_float64 s \<longleftrightarrow> literal_value s < 2 ^ 1024 - 2 ^ 970"

fun interface_ok :: "json \<Rightarrow> bool" where
  "interface_ok (JNumber s) = fits_float64 s"
| "interface_ok (JArray vs) = list_all interface_ok vs"
| "interface_ok (JObject ms) = list_all (\<lambda>kv. interface_ok (snd kv)) ms"
| "interface_ok _ = True"

definition decode_notification_field :: "string \<times> json \<Rightarrow> Notification \<Rightarrow> Notification option" where
  "decode_notification_field kv n = (case kv of (k, v) \<Rightarrow>
     if EqualFold k ''version'' then
       (case v of
          JNumber s \<Rightarrow> (case ParseInt s of Inl e \<Rightarrow> None | Inr i \<Rightarrow> Some (n\<lparr>Version := i\<rparr>))
        | JNull \<Rightarrow> Some n | _ \<Rightarrow> None)
     else if EqualFold k ''topic'' then
       (case v of JString s \<Rightarrow> Some (n\<lparr>Topic := s\<rparr>) | JNull \<Rightarrow> Some n | _ \<Rightarrow> None)
     else if EqualFold k ''payload'' then
       (if interface_ok v then Some (n\<lparr>Payload := v\<rparr>) else None)
     else Some n)"

fun decode_notification_fields :: "(string \<times> json) list \<Rightarrow> Notification \<Rightarrow> Notification option" where
  "decode_notification_fields [] n = Some n"
| "decode_notification_fields (kv # kvs) n =
     (case decode_notification_field kv n of None \<Rightarrow> None | Some n' \<Rightarrow> decode_notification_fields kvs n')"

definition zero_notification :: Notification where
  "zero_notification = \<lparr>Version = 0, Topic = [], Payload = JNull\<rparr>"

definition Unmarshal_notification :: "string \<Rightarrow> Notification option" where
  "Unmarshal_notification s = (case json_parse s of
     Some (JObject kvs) \<Rightarrow> decode_notification_fields kvs zero_notification
   | Some JNull \<Rightarrow> Some zero_notification
   | _ \<Rightarrow> None)"

subsection \<open>Reading the pipe\<close>

text \<open>One line: dropped if it is 4096 bytes or longer, or not a notification.\<close>

definition read_line :: "string \<Rightarrow> Notification list" where
  "read_line notificationBytes =
     (if 4096 \<le> length notificationBytes then []
      else (case Unmarshal_notification notificationBytes of
              None \<Rightarrow> []
            | Some notification \<Rightarrow> [notification]))"

text \<open>
  The scanner finds a line only if it ends within its buffer; otherwise \<open>Scan\<close> fails and the
  loop is left.  An unfinished line is waited for.
\<close>

function scan_pipe :: "string \<Rightarrow> Notification list \<times> bool" where
  "scan_pipe s = (let l = takeWhile (\<lambda>c. c \<noteq> newline_char) s in
     if max_scan_token \<le> length l then ([], False)
     else if length l = length s then ([], True)
     else (case scan_pipe (drop (length l + 1) s) of (ns, alive) \<Rightarrow> (read_line (drop_cr l) @ ns, alive)))"
  by pat_completeness auto
termination
proof (relation "measure length", goal_cases)
  case 1
  show ?case by simp
next
  case prems: (2 s l)
  have "length l \<le> length s" unfolding prems(1) by (rule length_takeWhile_le)
  with prems(3) show ?case by simp
qed

declare scan_pipe.simps [simp del]

text \<open>\<open>ParseMenderUpdatePayload\<close>: the value and whether the payload has the expected form.\<close>

definition ParseMenderUpdatePayload :: "json \<Rightarrow> bool \<times> bool" where
  "ParseMenderUpdatePayload payload = (case payload of
     JObject ms \<Rightarrow> (case map_of (rev ms) ''success'' of
         Some (JBool success) \<Rightarrow> (success, True)
       | _ \<Rightarrow> (False, False))
   | _ \<Rightarrow> (False, False))"

subsection \<open>Opening the pipe\<close>

datatype stat_result = Exists | NotExist | StatError goerr

record 'w pipe_env =
  stat_pipe :: "string \<Rightarrow> 'w \<Rightarrow> stat_result"
  Mkfifo :: "string \<Rightarrow> 'w \<Rightarrow> goerr option \<times> 'w"
  open_pipe :: "string \<Rightarrow> 'w \<Rightarrow> goerr option \<times> 'w"

definition quoted_path :: "string \<Rightarrow> string" where
  "quoted_path p = [CHR 0x27] @ p @ [CHR 0x27]"

text \<open>A pipe that is not there is created; the result is the path the reader reads from.\<close>

definition NewReader :: "'w pipe_env \<Rightarrow> string \<Rightarrow> 'w \<Rightarrow> (goerr + string) \<times> 'w" where
  "NewReader P filepath w =
     (let finish = (\<lambda>w. case open_pipe P filepath w of
          (Some e, w') \<Rightarrow> (Inl (Errorf (''could not open the named pipe in '' @ quoted_path filepath @ '': '') e []), w')
        | (None, w') \<Rightarrow> (Inr filepath, w'))
      in case stat_pipe P filepath w of
        StatError e \<Rightarrow> (Inl (Errorf (''could not stat the named pipe '' @ quoted_path filepath @ '': '') e []), w)
      | NotExist \<Rightarrow> (case Mkfifo P filepath w of
            (Some e, w') \<Rightarrow>
              (Inl (Errorf (''could not create a new named pipe '' @ quoted_path filepath @ '': '') e []), w')
          | (None, w') \<Rightarrow> finish w')
      | Exists \<Rightarrow> finish w)"

text \<open>A reader is returned exactly if the pipe is there, or can be created, and opens.\<close>

lemma NewReader_ok:
  "(\<exists>r. fst (NewReader P path w) = Inr r) \<longleftrightarrow>
   (stat_pipe P path w = Exists \<and> fst (open_pipe P path w) = None \<or>
    stat_pipe P path w = NotExist \<and> fst (Mkfifo P path w) = None \<and>
      fst (open_pipe P path (snd (Mkfifo P path w))) = None)"
  by (auto simp: NewReader_def Let_def case_prod_beta split: stat_result.split option.split)

subsection \<open>Streams of lines\<close>

lemma scan_pipe_line:
  assumes "newline_char \<notin> set l"
  shows "scan_pipe (l @ newline_char # s) =
    (if max_scan_token \<le> length l then ([], False)
     else (read_line (drop_cr l) @ fst (scan_pipe s), snd (scan_pipe s)))"
  by (simp add: scan_pipe.simps [of "l @ newline_char # s"] takeWhile_line [OF assms] Let_def case_prod_beta)

lemma scan_pipe_rest:
  "newline_char \<notin> set l \<Longrightarrow> scan_pipe l = ([], length l < max_scan_token)"
  by (auto simp: scan_pipe.simps [of l] takeWhile_no_line Let_def)

lemma scan_stream:
  assumes "\<And>l. l \<in> set ls \<Longrightarrow> newline_char \<notin> set l \<and> length l < max_scan_token"
  shows "scan_pipe (stream ls rest) =
    (concat (map (read_line \<circ> drop_cr) ls) @ fst (scan_pipe rest), snd (scan_pipe rest))"
  using assms
proof (induction ls)
  case Nil
  then show ?case by (simp add: stream_def)
next
  case (Cons l ls)
  have "stream (l # ls) rest = l @ newline_char # stream ls rest" by (simp add: stream_def)
  with Cons show ?case by (simp add: scan_pipe_line linorder_not_le [symmetric])
qed

text \<open>
  Lines are handled one by one, in order: what the reader has delivered of a stream of
  lines below the scanner's limit is what each line delivers by itself, a line of 4096 bytes or
  more or without a decodable notification delivering nothing; and the reader keeps reading.
\<close>

theorem pipe_lines_delivered:
  assumes "\<forall>l \<in> set ls. newline_char \<notin> set l \<and> length l < max_scan_token"
    and "newline_char \<notin> set rest" "length rest < max_scan_token"
  shows "scan_pipe (stream ls rest) = (concat (map (read_line \<circ> drop_cr) ls), True) \<and>
    (\<forall>l n. n \<in> set (read_line l) \<longrightarrow> length l < 4096 \<and> Unmarshal_notification l = Some n)"
  using assms scan_stream [of ls rest] scan_pipe_rest [of rest]
  by (auto simp: read_line_def split: if_splits option.splits)

lemma pipe_lines_delivered_witness:
  "scan_pipe (stream [''null''] ''nu'') = ([zero_notification], True)"
proof -
  have "json_parse ''null'' = Some JNull" using json_parse_text [of JNull] by simp
  then have "read_line ''null'' = [zero_notification]"
    by (simp add: read_line_def Unmarshal_notification_def)
  then show ?thesis
    using pipe_lines_delivered [of "[''null'']" "''nu''"]
    by (simp add: newline_char_def max_scan_token_def drop_cr_def)
qed

text \<open>
  A line that fills the scanner's buffer ends the reader: no notification after it is ever
  delivered, whatever is written later.
\<close>

theorem overlong_line_stops_reader:
  assumes "\<forall>l \<in> set ls. newline_char \<notin> set l \<and> length l < max_scan_token"
    and "newline_char \<notin> set big" "max_scan_token \<le> length big"
  shows "scan_pipe (stream ls (big @ later)) = (concat (map (read_line \<circ> drop_cr) ls), False)"
proof -
  have "scan_pipe (big @ later) = ([], False)"
  proof -
    have "takeWhile (\<lambda>c. c \<noteq> newline_char) (big @ later) = big @ takeWhile (\<lambda>c. c \<noteq> newline_char) later"
      using assms(2) by (intro takeWhile_append2) auto
    then have "length big \<le> length (takeWhile (\<lambda>c. c \<noteq> newline_char) (big @ later))" by simp
    with assms(3) show ?thesis by (simp add: scan_pipe.simps [of "big @ later"] Let_def)
  qed
  with assms(1) scan_stream [of ls "big @ later"] show ?thesis by simp
qed

lemma overlong_line_stops_reader_witness:
  "scan_pipe (stream [''null''] (replicate 65536 (CHR ''x'') @ stream [''null''] [])) = ([zero_notification], False)"
proof -
  have "json_parse ''null'' = Some JNull" using json_parse_text [of JNull] by simp
  then have "read_line ''null'' = [zero_notification]"
    by (simp add: read_line_def Unmarshal_notification_def)
  then show ?thesis
    using overlong_line_stops_reader [of "[''null'']" "replicate 65536 (CHR ''x'')" "stream [''null''] []"]
    by (simp add: newline_char_def max_scan_token_def drop_cr_def in_set_replicate)
qed

end
