(* ===== verification/Middleware_Info.thy ===== *)
theory Middleware_Info
  imports Middleware_Update Middleware_Auth Ipcnotification
begin

text \<open>
  What the middleware reports and its background work: service information and its change
  notification (util.go \<open>getServiceInfo\<close>, \<open>didServiceInfoChange\<close>; middleware.go \<open>rpcLoop\<close>), base
  information and service status, the HSM heartbeat and pairing confirmation, the notifications
  from other processes (\<open>ipcNotificationLoop\<close>), and \<open>Start\<close>.

  Each endless loop is one definition for a round of it; the loop repeats the round.  \<open>Start\<close>
  returns which loops it started.
\<close>

subsection \<open>Service information\<close>

definition service_info_error :: "ErrorResponse \<Rightarrow> GetServiceInfoResponse" where
  "service_info_error e = \<lparr>si_ErrorResponse = Some e, BitcoindBlocks = 0, BitcoindHeaders = 0,
     BitcoindVerificationProgress = Fin 0, BitcoindPeers = 0, BitcoindIBD = False,
     LightningdBlocks = 0, si_LightningActiveChannels = 0, si_ElectrsBlocks = 0\<rparr>"

definition int_or_zero :: "goerr + int \<Rightarrow> int" where
  "int_or_zero r = (case r of Inl e \<Rightarrow> 0 | Inr i \<Rightarrow> i)"

definition getServiceInfo :: "'w env \<Rightarrow> ('w, GetServiceInfoResponse) mw" where
  "getServiceInfo E = do {
     a \<leftarrow> gets prometheusClient;
     bitcoindBlocks \<leftarrow> prom_GetInt E a BitcoinBlockCount;
     bitcoindHeaders \<leftarrow> prom_GetInt E a BitcoinHeaderCount;
     bitcoindVerificationProgress \<leftarrow> prom_GetFloat E a BitcoinVerificationProgress;
     (case bitcoindVerificationProgress of
        Inl e \<Rightarrow> State_Monad.return (service_info_error (prom_ConvertErrorToErrorResponse E e))
      | Inr progress \<Rightarrow> do {
          bitcoindPeers \<leftarrow> prom_GetInt E a BitcoinPeers;
          (case bitcoindPeers of
             Inl e \<Rightarrow> State_Monad.return (service_info_error (prom_ConvertErrorToErrorResponse E e))
           | Inr peers \<Rightarrow> do {
               bitcoindIBDAsInt \<leftarrow> prom_GetInt E a BitcoinIBD;
               (case bitcoindIBDAsInt of
                  Inl e \<Rightarrow> State_Monad.return (service_info_error (prom_ConvertErrorToErrorResponse E e))
                | Inr ibd \<Rightarrow> do {
                    lightningdBlocks \<leftarrow> prom_GetInt E a LightningBlocks;
                    lightningActiveChannels \<leftarrow> prom_GetInt E a LightningActiveChannels;
                    electrsBlocks \<leftarrow> prom_GetInt E a ElectrsBlocks;
                    State_Monad.return \<lparr>si_ErrorResponse = Some success,
                      BitcoindBlocks = int_or_zero bitcoindBlocks,
                      BitcoindHeaders = int_or_zero bitcoindHeaders,
                      BitcoindVerificationProgress = progress,
                      BitcoindPeers = peers,
                      BitcoindIBD = (ibd = 1),
                      LightningdBlocks = int_or_zero lightningdBlocks,
                      si_LightningActiveChannels = int_or_zero lightningActiveChannels,
                      si_ElectrsBlocks = int_or_zero electrsBlocks\<rparr> }) }) })
   }"

text \<open>\<open>reflect.DeepEqual\<close>: pointers by what they point to, \<open>float64\<close> by \<open>==\<close> (so NaN differs).\<close>

definition DeepEqual :: "GetServiceInfoResponse \<Rightarrow> GetServiceInfoResponse \<Rightarrow> bool" where
  "DeepEqual x y \<longleftrightarrow>
     float_eq (BitcoindVerificationProgress x) (BitcoindVerificationProgress y) \<and>
     x\<lparr>BitcoindVerificationProgress := Fin 0\<rparr> = y\<lparr>BitcoindVerificationProgress := Fin 0\<rparr>"

definition didServiceInfoChange :: "'w env \<Rightarrow> ('w, bool) mw" where
  "didServiceInfoChange E = do {
     upToDateServiceInfo \<leftarrow> getServiceInfo E;
     current \<leftarrow> gets serviceInfo;
     if \<not> DeepEqual upToDateServiceInfo current then do {
       _ \<leftarrow> modify (\<lambda>s. s\<lparr>serviceInfo := upToDateServiceInfo\<rparr>);
       State_Monad.return True
     } else State_Monad.return False
   }"

text \<open>A round of \<open>rpcLoop\<close>.\<close>

definition rpcLoop_round :: "'w env \<Rightarrow> ('w, unit) mw" where
  "rpcLoop_round E = do {
     changed \<leftarrow> didServiceInfoChange E;
     _ \<leftarrow> (if changed then emit \<lparr>Identifier = OpServiceInfoChanged, QueueIfNoClient = False\<rparr>
           else State_Monad.return ());
     sleep 5000
   }"

definition GetServiceInfo :: "('w, GetServiceInfoResponse) mw" where
  "GetServiceInfo = gets serviceInfo"

subsection \<open>Base information and service status\<close>

definition base_info_error :: "ErrorResponse \<Rightarrow> GetBaseInfoResponse" where
  "base_info_error e = \<lparr>bi_ErrorResponse = Some e, MiddlewareLocalIP = [], bi_MiddlewarePort = [],
     MiddlewareTorOnion = [], IsSSHPasswordLoginEnabled = False, FreeDiskspace = 0, TotalDiskspace = 0,
     bi_BaseVersion = [], bi_BitcoindVersion = [], bi_LightningdVersion = [], bi_ElectrsVersion = []\<rparr>"

text \<open>A Redis or Prometheus read of \<open>GetBaseInfo\<close>, with its early return on an error.\<close>

definition read_redis_string ::
  "'w env \<Rightarrow> BaseRedisKey \<Rightarrow> (string \<Rightarrow> ('w, GetBaseInfoResponse) mw) \<Rightarrow> ('w, GetBaseInfoResponse) mw" where
  "read_redis_string E key k = do {
     (v, err) \<leftarrow> redis_GetString E key;
     (case err of
        Some e \<Rightarrow> State_Monad.return (base_info_error (redis_ConvertErrorToErrorResponse E e))
      | None \<Rightarrow> k v)
   }"

definition or_prometheus_error ::
  "'w env \<Rightarrow> goerr + 'a \<Rightarrow> ('a \<Rightarrow> ('w, GetBaseInfoResponse) mw) \<Rightarrow> ('w, GetBaseInfoResponse) mw" where
  "or_prometheus_error E r k = (case r of
     Inl e \<Rightarrow> State_Monad.return (base_info_error (prom_ConvertErrorToErrorResponse E e))
   | Inr v \<Rightarrow> k v)"

definition GetBaseInfo :: "'w env \<Rightarrow> ('w, GetBaseInfoResponse) mw" where
  "GetBaseInfo E = do {
     a \<leftarrow> gets prometheusClient;
     ip \<leftarrow> prom_GetMetricString E a BaseSystemInfo ''base_ipaddress'';
     or_prometheus_error E ip (\<lambda>middlewareIP. do {
       c \<leftarrow> gets config;
       (isTorEnabled, err) \<leftarrow> redis_GetBool E TorEnabled;
       (case err of
          Some e \<Rightarrow> State_Monad.return (base_info_error (redis_ConvertErrorToErrorResponse E e))
        | None \<Rightarrow>
          (if isTorEnabled then read_redis_string E MiddlewareOnion else (\<lambda>k. k []))
          (\<lambda>middlewareTorOnion.
            read_redis_string E BaseSSHDPasswordLogin (\<lambda>isSSHPasswordLoginEnabledSetting. do {
              free \<leftarrow> prom_GetInt E a BaseFreeDiskspace;
              or_prometheus_error E free (\<lambda>freeDiskspace. do {
                total \<leftarrow> prom_GetInt E a BaseTotalDiskspace;
                or_prometheus_error E total (\<lambda>totalDiskspace.
                  read_redis_string E BaseVersion (\<lambda>baseVersion.
                  read_redis_string E BitcoindVersion (\<lambda>bitcoindVersion.
                  read_redis_string E LightningdVersion (\<lambda>lightningdVersion.
                  read_redis_string E ElectrsVersion (\<lambda>electrsVersion.
                    State_Monad.return \<lparr>bi_ErrorResponse = Some success,
                      MiddlewareLocalIP = middlewareIP,
                      bi_MiddlewarePort = GetMiddlewarePort c,
                      MiddlewareTorOnion = middlewareTorOnion,
                      IsSSHPasswordLoginEnabled = (isSSHPasswordLoginEnabledSetting = ''yes''),
                      FreeDiskspace = freeDiskspace,
                      TotalDiskspace = totalDiskspace,
                      bi_BaseVersion = baseVersion,
                      bi_BitcoindVersion = bitcoindVersion,
                      bi_LightningdVersion = lightningdVersion,
                      bi_ElectrsVersion = electrsVersion\<rparr>)))))})})))})
   }"

definition service_status_error :: "ErrorResponse \<Rightarrow> GetServiceStatusResponse" where
  "service_status_error e = \<lparr>st_ErrorResponse = Some e, st_Hostname = [], st_Status = [],
     st_IsTorEnabled = False, BitcoindStatus = False, LightningdStatus = False, ElectrsStatus = False\<rparr>"

definition GetServiceStatus :: "'w env \<Rightarrow> ('w, GetServiceStatusResponse) mw" where
  "GetServiceStatus E = do {
     (hostname, err) \<leftarrow> redis_GetString E BaseHostname;
     (case err of
        Some e \<Rightarrow> State_Monad.return (service_status_error (redis_ConvertErrorToErrorResponse E e))
      | None \<Rightarrow> do {
          (isTorEnabled, err) \<leftarrow> redis_GetBool E TorEnabled;
          (case err of
             Some e \<Rightarrow> State_Monad.return (service_status_error (redis_ConvertErrorToErrorResponse E e))
           | None \<Rightarrow> do {
               (bitcoindActive, _) \<leftarrow> checkSystemdServiceStatus E ''bitcoind'';
               (lightningdActive, _) \<leftarrow> checkSystemdServiceStatus E ''lightningd'';
               (electrsActive, _) \<leftarrow> checkSystemdServiceStatus E ''electrs'';
               State_Monad.return \<lparr>st_ErrorResponse = Some success,
                 st_Hostname = hostname,
                 st_Status = ''-PLACEHOLDER-'',
                 st_IsTorEnabled = isTorEnabled,
                 BitcoindStatus = bitcoindActive,
                 LightningdStatus = lightningdActive,
                 ElectrsStatus = electrsActive\<rparr> }) })
   }"

definition SystemEnv :: "('w, GetEnvResponse) mw" where
  "SystemEnv = gets (\<lambda>s. \<lparr>env_Network = GetNetwork (config s),
     env_ElectrsRPCPort = GetElectrsRPCPort (config s)\<rparr>)"

definition mw_GetMiddlewareVersion :: "('w, string) mw" where
  "mw_GetMiddlewareVersion = gets (\<lambda>s. GetMiddlewareVersion (config s))"

subsection \<open>HSM\<close>

definition VerifyAppMiddlewarePairing :: "'w env \<Rightarrow> string \<Rightarrow> ('w, bool \<times> goerr option) mw" where
  "VerifyAppMiddlewarePairing E channelHash = do {
     hsm \<leftarrow> gets hsmPresent;
     if \<not> hsm then State_Monad.return (True, None)
     else do {
       err \<leftarrow> ext (HsmConfirmPairing channelHash) (hsm_confirm_pairing E channelHash);
       State_Monad.return
         (if is_error_abort E err then (False, None)
          else (case err of Some e \<Rightarrow> (False, Some e) | None \<Rightarrow> (True, None)))
     }
   }"

definition hsmHeartbeat_round :: "'w env \<Rightarrow> ('w, unit) mw" where
  "hsmHeartbeat_round E = do {
     err \<leftarrow> ext HsmHeartbeat (hsm_heartbeat E);
     (case err of Some e \<Rightarrow> sleep 1000 | None \<Rightarrow> sleep 5000)
   }"

subsection \<open>Notifications of other processes\<close>

text \<open>A round of \<open>ipcNotificationLoop\<close>; the version test only logs.\<close>

definition ipcNotification_round :: "Notification \<Rightarrow> ('w, unit) mw" where
  "ipcNotification_round notification =
     (if Topic notification = ''mender-update'' then
        (case ParseMenderUpdatePayload (Payload notification) of (ok_success, ok) \<Rightarrow>
           if ok then
             (if ok_success then emit \<lparr>Identifier = OpBaseUpdateSuccess, QueueIfNoClient = True\<rparr>
              else emit \<lparr>Identifier = OpBaseUpdateFailure, QueueIfNoClient = True\<rparr>)
           else State_Monad.return ())
      else State_Monad.return ())"

subsection \<open>Start\<close>

datatype loop = HsmHeartbeatLoop | RpcLoop | UpdateCheckLoop | IpcNotificationLoop

text \<open>\<open>reader\<close>: whether \<open>ipcnotification.NewReader\<close> could set up the named pipe.\<close>

definition Start :: "'w env \<Rightarrow> bool \<Rightarrow> ('w, loop list go) mw" where
  "Start E reader = do {
     hsm \<leftarrow> gets hsmPresent;
     hsmConfig \<leftarrow> setHSMConfig E;
     (case hsmConfig of
        Panic \<Rightarrow> State_Monad.return Panic
      | Ret _ \<Rightarrow> do {
          (version, _) \<leftarrow> redis_GetString E BaseVersion;
          (case semver_parse E version of (baseSemVersion, _) \<Rightarrow> do {
             _ \<leftarrow> modify (\<lambda>s. s\<lparr>baseVersion := baseSemVersion\<rparr>);
             State_Monad.return
               (case semver_string E baseSemVersion of
                  Panic \<Rightarrow> Panic
                | Ret _ \<Rightarrow> Ret ((if hsm then [HsmHeartbeatLoop] else []) @ [RpcLoop, UpdateCheckLoop]
                    @ (if reader then [IpcNotificationLoop] else []))) }) })
   }"

subsection \<open>Reading the store\<close>

text \<open>
  \<open>sees E db c m Q\<close>: run in a state whose store is valid and holds \<open>c\<close>, the operation leaves
  both so and returns a value with \<open>Q\<close>.
\<close>

definition sees ::
  "'w env \<Rightarrow> ('w \<Rightarrow> mock_map) \<Rightarrow> (BaseRedisKey \<Rightarrow> string) \<Rightarrow> ('w, 'a) mw \<Rightarrow> ('a \<Rightarrow> bool) \<Rightarrow> bool" where
  "sees E db c m Q \<longleftrightarrow> triple (\<lambda>s. store_valid E db s \<and> store_contents db s = c) m
     (\<lambda>r s. store_valid E db s \<and> store_contents db s = c \<and> Q r)"

lemma seesI:
  assumes "\<And>s r s'. store_valid E db s \<Longrightarrow> store_contents db s = c \<Longrightarrow> run_state m s = (r, s') \<Longrightarrow>
    store_valid E db s' \<and> store_contents db s' = c \<and> Q r"
  shows "sees E db c m Q"
  unfolding sees_def by (intro tripleI) (use assms in blast)

lemma seesD:
  assumes "sees E db c m Q" "store_valid E db s" "store_contents db s = c" "run_state m s = (r, s')"
  shows "store_valid E db s'" "store_contents db s' = c" "Q r"
  using tripleD [OF assms(1) [unfolded sees_def] _ assms(4)] assms(2,3) by blast+

lemma sees_return: "Q x \<Longrightarrow> sees E db c (State_Monad.return x) Q"
  unfolding sees_def by (intro triple_return) simp

lemma sees_bind:
  assumes m: "sees E db c m R" and f: "\<And>x. R x \<Longrightarrow> sees E db c (f x) Q"
  shows "sees E db c (m \<bind> f) Q"
proof (rule seesI)
  fix s r s'
  assume s: "store_valid E db s" "store_contents db s = c" and run: "run_state (m \<bind> f) s = (r, s')"
  obtain x s1 where x: "run_state m s = (x, s1)" by fastforce
  with run have "run_state (f x) s1 = (r, s')" by simp
  from seesD [OF f [OF seesD(3) [OF m s x]] seesD(1,2) [OF m s x] this]
  show "store_valid E db s' \<and> store_contents db s' = c \<and> Q r" by blast
qed

lemma sees_gets: "sees E db c (gets f) (\<lambda>_. True)"
  by (simp add: sees_def triple_def)

lemma sees_GetString: "sees E db c (redis_GetString E k) (\<lambda>(v, e). e = None \<longrightarrow> v = c k)"
  unfolding sees_def by (rule tripleI) (use store.get_string_law in fastforce)

lemma sees_GetBool:
  "sees E db c (redis_GetBool E k) (\<lambda>(b, e). e = None \<longrightarrow> (\<exists>i. ParseInt (c k) = Inr i \<and> b = (i = 1)))"
  unfolding sees_def by (rule tripleI) (use store.get_bool_law in fastforce)

lemma sees_http: "local_computation E db \<Longrightarrow> sees E db c (http_Get E url) (\<lambda>_. True)"
  by (simp add: sees_def triple_def http_Get_def local_computation_def)

lemma sees_prom:
  assumes "local_computation E db"
  shows "sees E db c (prom_GetInt E a q) (\<lambda>_. True)" "sees E db c (prom_GetMetricString E a q m) (\<lambda>_. True)"
  unfolding prom_GetInt_def prom_GetMetricString_def query_value_def prom_query_def
  by (intro sees_bind [where R = "\<lambda>_. True"] sees_http [OF assms] sees_return TrueI)+

text \<open>What a successful answer says, for given contents of the store.\<close>

definition base_info_agrees :: "(BaseRedisKey \<Rightarrow> string) \<Rightarrow> GetBaseInfoResponse \<Rightarrow> bool" where
  "base_info_agrees c r \<longleftrightarrow> (\<exists>e. bi_ErrorResponse r = Some e \<and> (Success e \<longrightarrow>
     MiddlewareTorOnion r = (if ParseInt (c TorEnabled) = Inr 1 then c MiddlewareOnion else []) \<and>
     IsSSHPasswordLoginEnabled r = (c BaseSSHDPasswordLogin = ''yes'') \<and>
     bi_BaseVersion r = c BaseVersion \<and> bi_BitcoindVersion r = c BitcoindVersion \<and>
     bi_LightningdVersion r = c LightningdVersion \<and> bi_ElectrsVersion r = c ElectrsVersion))"

lemma base_info_error_agrees [simp]:
  "base_info_agrees c (base_info_error (redis_ConvertErrorToErrorResponse E e))"
  "base_info_agrees c (base_info_error (prom_ConvertErrorToErrorResponse E e))"
  by (simp_all add: base_info_agrees_def base_info_error_def redis_ConvertErrorToErrorResponse_def
      prom_ConvertErrorToErrorResponse_def)

lemma sees_errors [intro]:
  "sees E db c (State_Monad.return (base_info_error (redis_ConvertErrorToErrorResponse E' e))) (base_info_agrees c)"
  "sees E db c (State_Monad.return (base_info_error (prom_ConvertErrorToErrorResponse E' e))) (base_info_agrees c)"
  by (rule sees_return, simp)+

lemma sees_read_redis_string:
  assumes "sees E db c (k (c key)) (base_info_agrees c)"
  shows "sees E db c (read_redis_string E key k) (base_info_agrees c)"
  unfolding read_redis_string_def
  by (rule sees_bind [OF sees_GetString]) (use assms in \<open>auto split: option.splits\<close>)

lemma sees_or_prometheus_error:
  assumes "\<And>v. sees E db c (k v) (base_info_agrees c)"
  shows "sees E db c (or_prometheus_error E r k) (base_info_agrees c)"
  using assms by (auto simp: or_prometheus_error_def split: sum.splits)

lemma sees_GetBaseInfo:
  assumes loc: "local_computation E db"
  shows "sees E db c (GetBaseInfo E) (base_info_agrees c)"
proof -
  note steps = sees_bind [OF sees_gets] sees_bind [OF sees_prom(1) [OF loc]] sees_bind [OF sees_prom(2) [OF loc]]
    sees_or_prometheus_error sees_read_redis_string sees_return
  show ?thesis
    unfolding GetBaseInfo_def
    apply (intro steps)
    apply (rule sees_bind [OF sees_GetBool])
    apply (clarsimp split: option.splits prod.splits)
    apply (intro conjI impI allI sees_errors(1))
     apply (auto intro!: steps)
    apply (auto simp: base_info_agrees_def)
    done
qed

subsection \<open>Properties\<close>

text \<open>
  Whatever the notification's version field says, it is handled the same: a mender-update
  notification with a Boolean success sends the matching event, to be queued if no client is
  connected, and any other notification sends nothing.
\<close>

theorem ipc_version_ignored:
  "trace (snd (run_state (ipcNotification_round (n\<lparr>Version := v\<rparr>)) s)) = trace s @
    (if Topic n = ''mender-update'' then
       (case ParseMenderUpdatePayload (Payload n) of
          (True, True) \<Rightarrow> [Emit \<lparr>Identifier = OpBaseUpdateSuccess, QueueIfNoClient = True\<rparr>]
        | (False, True) \<Rightarrow> [Emit \<lparr>Identifier = OpBaseUpdateFailure, QueueIfNoClient = True\<rparr>]
        | _ \<Rightarrow> [])
     else [])"
  by (auto simp: ipcNotification_round_def split: prod.splits bool.splits)

text \<open>
  A round of the service loop notifies the clients exactly if the information it read
  differs from the recorded one, and records what it read in that case; so what an RPC returns
  afterwards is what was last read, up to Go's comparison.
\<close>

theorem service_info_notified:
  "(case run_state (getServiceInfo E) s of (fresh, s1) \<Rightarrow>
    case run_state (rpcLoop_round E) s of (_, s') \<Rightarrow>
      if DeepEqual fresh (serviceInfo s)
      then serviceInfo s' = serviceInfo s \<and> trace s' = trace s1 @ [Sleep 5000]
      else serviceInfo s' = fresh \<and>
        trace s' = trace s1 @ [Emit \<lparr>Identifier = OpServiceInfoChanged, QueueIfNoClient = False\<rparr>, Sleep 5000])"
proof -
  obtain fresh s1 where g: "run_state (getServiceInfo E) s = (fresh, s1)" by fastforce
  have "keeps serviceInfo (getServiceInfo E)"
    unfolding getServiceInfo_def by (intro keeps_intros) simp_all
  then have "serviceInfo s1 = serviceInfo s" using g by (rule keepsD)
  with g show ?thesis by (simp add: rpcLoop_round_def didServiceInfoChange_def)
qed

text \<open>
  A successful answer of \<open>GetBaseInfo\<close> agrees with the Redis store it was computed from:
  the onion address is reported exactly if Tor is enabled, and the login setting and the four
  versions are the stored ones; every answer, also an error, says whether it is a success.
\<close>

theorem GetBaseInfo_agrees:
  assumes "local_computation E db" "store_valid E db s"
  shows "base_info_agrees (store_contents db s) (fst (run_state (GetBaseInfo E) s))"
  using seesD(3) [OF sees_GetBaseInfo [OF assms(1)] assms(2) refl prod.collapse [symmetric]] .

lemma GetBaseInfo_agrees_witness:
  "base_info_agrees (store_contents sim_db (demo setupTestData))
     (fst (run_state (GetBaseInfo sim_env) (demo setupTestData)))"
  by (rule GetBaseInfo_agrees) simp_all

text \<open>
  The drive check never yields an empty list of lines, so the error for a missing drive name
  is never reported: if the check succeeds without printing anything, the mount command is run
  with an empty name.
\<close>

theorem mount_with_empty_name:
  assumes "fst (exec_combined E (bbbCmdScript (config s)) [''flashdrive'', ''check''] (world s)) = ([], None)"
  shows "trace (snd (run_state (mountFlashdrive E) s)) = trace s @
    [Exec (bbbCmdScript (config s)) [''flashdrive'', ''check''],
     Exec (bbbCmdScript (config s)) [''flashdrive'', ''mount'', []]]"
  using assms
  by (simp add: mountFlashdrive_def runBBBCmdScript_def runCommand_def GetBBBCmdScript_def TrimSuffix_def
      HasSuffix_def Let_def case_prod_beta)

lemma mount_with_empty_name_witness:
  "trace (snd (run_state (mountFlashdrive sim_env) (demo Map.empty))) =
    [Exec ''bbb-cmd.sh'' [''flashdrive'', ''check''], Exec ''bbb-cmd.sh'' [''flashdrive'', ''mount'', []]]"
  using mount_with_empty_name [of sim_env "demo Map.empty"] by (simp add: sim_exec_def)

end
