(* ===== verification/Noise.thy ===== *)
theory Noise
  imports Noise_Config Middleware_Info
begin

text \<open>
  The encrypted channel to a client (middleware/src/noise/noise.go): the handshake on a fresh
  websocket connection, the pairing confirmation, and the encryption and decryption of the
  messages that follow.

  The Noise library and the websocket are parameters: a handshake state \<open>'h\<close>, a cipher state
  \<open>'c\<close>, and the functions of \<open>noise_env\<close>, which extends the file system.  \<open>NoiseConfig\<close> is the
  record \<open>noise_state\<close>, with the outside world and the history of what was written to the
  websocket, which client keys were looked up and which pairings were asked for.  The middleware keeps one \<open>NoiseConfig\<close> for all
  its clients.

  Lemma groups: what an unpaired client gets, when a connection counts as paired, what a failed
  handshake leaves behind.
\<close>

subsection \<open>State and environment\<close>

datatype noise_effect =
    WsWrite nat string          \<comment> \<open>message type and contents\<close>
  | LookupKey string bool       \<comment> \<open>key of the client, and whether it is stored\<close>
  | AskPairing string bool      \<comment> \<open>channel hash and answer\<close>

record ('w, 'c) noise_state =
  outside :: 'w
  history :: "noise_effect list"
  clientStaticPubkey :: string
  channelHash :: string
  sendCipher :: "'c option"
  receiveCipher :: "'c option"
  pairingVerificationRequired :: bool
  initialized :: bool
  dataDir :: string

text \<open>
  \<open>hs_read\<close> and \<open>hs_write\<close> are the methods of the handshake state; reading returns an error and
  the two cipher states, which are nil except after the last message.
\<close>

record ('w, 'h, 'c) noise_env = "'w files" +
  ws_read :: "'w \<Rightarrow> (goerr + string) \<times> 'w"
  ws_write :: "nat \<Rightarrow> string \<Rightarrow> 'w \<Rightarrow> goerr option \<times> 'w"
  generate_keypair :: "'w \<Rightarrow> (goerr + noiseKeypair) \<times> 'w"
  new_handshake :: "noiseKeypair \<Rightarrow> goerr + 'h"
  hs_read :: "'h \<Rightarrow> string \<Rightarrow> (goerr option \<times> 'c option \<times> 'c option) \<times> 'h"
  hs_write :: "'h \<Rightarrow> 'w \<Rightarrow> ((goerr + string) \<times> 'h) \<times> 'w"
  peer_static :: "'h \<Rightarrow> string"
  channel_binding :: "'h \<Rightarrow> string"
  cipher_encrypt :: "'c \<Rightarrow> string \<Rightarrow> string \<times> 'c"
  cipher_decrypt :: "'c \<Rightarrow> string \<Rightarrow> (goerr + string) \<times> 'c"
  verify_pairing :: "string \<Rightarrow> 'w \<Rightarrow> (bool \<times> goerr option) \<times> 'w"

type_synonym ('w, 'c, 'a) noise = "(('w, 'c) noise_state, 'a) state"

text \<open>The library documents that a message that cannot be read yields no cipher states.\<close>

definition noise_library :: "('w, 'h, 'c) noise_env \<Rightarrow> bool" where
  "noise_library N \<longleftrightarrow> (\<forall>h m e c d h'. hs_read N h m = ((Some e, c, d), h') \<longrightarrow> c = None \<and> d = None)"

definition responseSuccess :: string where "responseSuccess = [CHR 0x00]"
definition responseFailure :: string where "responseFailure = [CHR 0x01]"
definition responseNeedsPairing :: string where "responseNeedsPairing = [CHR 0x01]"

definition NewNoiseConfig :: "string \<Rightarrow> 'w \<Rightarrow> ('w, 'c) noise_state" where
  "NewNoiseConfig dir w = \<lparr>outside = w, history = [], clientStaticPubkey = [], channelHash = [],
     sendCipher = None, receiveCipher = None, pairingVerificationRequired = False,
     initialized = False, dataDir = dir\<rparr>"

subsection \<open>Early returns\<close>

definition attempt :: "('s, goerr + 'a) state \<Rightarrow> ('a \<Rightarrow> ('s, goerr + 'b) state) \<Rightarrow> ('s, goerr + 'b) state" where
  "attempt m k = do {
     r \<leftarrow> m;
     (case r of Inl e \<Rightarrow> State_Monad.return (Inl e) | Inr x \<Rightarrow> k x)
   }"

definition fails :: "string \<Rightarrow> ('s, goerr + 'a) state" where
  "fails msg = State_Monad.return (Inl (ErrorString msg))"

definition read_message :: "('w, 'h, 'c) noise_env \<Rightarrow> string \<Rightarrow> ('w, 'c, goerr + string) noise" where
  "read_message N msg = State (\<lambda>s. case ws_read N (outside s) of (r, w) \<Rightarrow>
     (case r of Inl e \<Rightarrow> Inl (ErrorString msg) | Inr b \<Rightarrow> Inr b, s\<lparr>outside := w\<rparr>))"

definition write_message :: "('w, 'h, 'c) noise_env \<Rightarrow> nat \<Rightarrow> string \<Rightarrow> string \<Rightarrow> ('w, 'c, goerr + unit) noise" where
  "write_message N kind b msg = State (\<lambda>s. case ws_write N kind b (outside s) of (r, w) \<Rightarrow>
     (case r of Some e \<Rightarrow> Inl (ErrorString msg) | None \<Rightarrow> Inr (),
      s\<lparr>outside := w, history := history s @ [WsWrite kind b]\<rparr>))"

subsection \<open>The handshake\<close>

text \<open>The stored key pair, or a fresh one; that it could not be stored is only logged.\<close>

definition static_keypair :: "('w, 'h, 'c) noise_env \<Rightarrow> ('w, 'c, goerr + noiseKeypair) noise" where
  "static_keypair N = State (\<lambda>s.
     case getMiddlewareNoiseStaticKeypair N (dataDir s) (outside s) of
       Some kp \<Rightarrow> (Inr kp, s)
     | None \<Rightarrow> (case generate_keypair N (outside s) of
           (Inl e, w) \<Rightarrow> (Inl (ErrorString ''failed to generate a new noise keypair''), s\<lparr>outside := w\<rparr>)
         | (Inr kp, w) \<Rightarrow>
             (Inr kp, s\<lparr>outside := snd (setMiddlewareNoiseStaticKeypair N (dataDir s) kp w)\<rparr>)))"

definition second_message :: "('w, 'h, 'c) noise_env \<Rightarrow> 'h \<Rightarrow> ('w, 'c, goerr + string \<times> 'h) noise" where
  "second_message N h = State (\<lambda>s. case hs_write N h (outside s) of ((r, h'), w) \<Rightarrow>
     (case r of
        Inl e \<Rightarrow> Inl (ErrorString ''noise failed to write second noise handshake message'')
      | Inr msg \<Rightarrow> Inr (msg, h'), s\<lparr>outside := w\<rparr>))"

definition last_message :: "('w, 'h, 'c) noise_env \<Rightarrow> 'h \<Rightarrow> string \<Rightarrow> ('w, 'c, goerr + 'h) noise" where
  "last_message N h m = (case hs_read N h m of ((err, c, d), h') \<Rightarrow> do {
     _ \<leftarrow> modify (\<lambda>s. s\<lparr>sendCipher := c, receiveCipher := d\<rparr>);
     (case err of
        Some e \<Rightarrow> fails ''noise failed to read the third noise handshake message''
      | None \<Rightarrow> State_Monad.return (Inr h'))
   })"

definition xx_handshake :: "('w, 'h, 'c) noise_env \<Rightarrow> 'h \<Rightarrow> ('w, 'c, goerr + 'h) noise" where
  "xx_handshake N h =
     attempt (read_message N ''websocket failed to read noise handshake request'') (\<lambda>request.
       if request \<noteq> ''h'' then fails ''initial response bytes did not match what we were expecting''
       else attempt (write_message N 1 responseSuccess
           ''websocket failed to write the noise handshake request response'') (\<lambda>_.
         attempt (read_message N ''websocket failed to read first noise handshake message'') (\<lambda>first.
           case hs_read N h first of ((err, _, _), h1) \<Rightarrow>
             (case err of
                Some e \<Rightarrow> fails ''noise failed to read first noise handshake message''
              | None \<Rightarrow> attempt (second_message N h1) (\<lambda>(msg, h2).
                  attempt (write_message N 1 msg ''websocket failed to write second noise handshake message'') (\<lambda>_.
                    attempt (read_message N ''websocket failed to read third noise handshake message'') (\<lambda>third.
                      last_message N h2 third)))))))"

text \<open>Whether the client is known decides what it is told.\<close>

definition announce_pairing :: "('w, 'h, 'c) noise_env \<Rightarrow> 'h \<Rightarrow> ('w, 'c, goerr + unit) noise" where
  "announce_pairing N h = do {
     _ \<leftarrow> modify (\<lambda>s. s\<lparr>clientStaticPubkey := peer_static N h\<rparr>);
     if length (peer_static N h) \<noteq> 32 then fails ''expected 32 byte remote static pubkey''
     else do {
       known \<leftarrow> gets (\<lambda>s. containsClientStaticPubkey N (dataDir s) (clientStaticPubkey s) (outside s));
       _ \<leftarrow> modify (\<lambda>s. s\<lparr>pairingVerificationRequired := \<not> known,
         history := history s @ [LookupKey (clientStaticPubkey s) known]\<rparr>);
       required \<leftarrow> gets pairingVerificationRequired;
       attempt (write_message N 2 (if required then responseNeedsPairing else responseSuccess)
         ''websocket failed to write second noise handshake message'') (\<lambda>_. do {
           _ \<leftarrow> modify (\<lambda>s. s\<lparr>channelHash := channel_binding N h, initialized := True\<rparr>);
           State_Monad.return (Inr ())
         })
     }
   }"

definition CheckVerification :: "('w, 'h, 'c) noise_env \<Rightarrow> ('w, 'c, goerr + string) noise" where
  "CheckVerification N = do {
     (accepted, err) \<leftarrow> State (\<lambda>s. case verify_pairing N (channelHash s) (outside s) of
       (r, w) \<Rightarrow> (r, s\<lparr>outside := w, history := history s @ [AskPairing (channelHash s) (snd r = None \<and> fst r)]\<rparr>));
     (case err of
        Some e \<Rightarrow> State_Monad.return (Inl e)
      | None \<Rightarrow>
          if accepted then do {
            _ \<leftarrow> modify (\<lambda>s. s\<lparr>outside :=
              snd (addClientStaticPubkey N (dataDir s) (clientStaticPubkey s) (outside s))\<rparr>);
            _ \<leftarrow> modify (\<lambda>s. s\<lparr>pairingVerificationRequired := False\<rparr>);
            State_Monad.return (Inr responseSuccess)
          } else State_Monad.return (Inr responseFailure))
   }"

text \<open>\<open>responseBytes[0]\<close> of an empty message panics.\<close>

definition verification_request :: "('w, 'h, 'c) noise_env \<Rightarrow> ('w, 'c, goerr option go) noise" where
  "verification_request N = do {
     r \<leftarrow> read_message N ''websocket failed to read verification request'';
     (case r of
        Inl e \<Rightarrow> State_Monad.return (Ret (Some e))
      | Inr [] \<Rightarrow> State_Monad.return Panic
      | Inr (c # _) \<Rightarrow>
          if c = CHR ''v'' then do {
            r \<leftarrow> CheckVerification N;
            (case r of
               Inl e \<Rightarrow> State_Monad.return (Ret (Some e))
             | Inr msg \<Rightarrow> do {
                 _ \<leftarrow> write_message N 2 msg [];
                 State_Monad.return (Ret None) })
          } else State_Monad.return (Ret None))
   }"

definition InitializeNoise :: "('w, 'h, 'c) noise_env \<Rightarrow> ('w, 'c, goerr option go) noise" where
  "InitializeNoise N = do {
     r \<leftarrow> attempt (static_keypair N) (\<lambda>keypair.
       case new_handshake N keypair of
         Inl e \<Rightarrow> fails (''failed to generate a new noise handshake state for the wallet app ''
           @ ''communication with the BitBoxBase'')
       | Inr h \<Rightarrow> attempt (xx_handshake N h) (announce_pairing N));
     (case r of
        Inl e \<Rightarrow> State_Monad.return (Ret (Some e))
      | Inr _ \<Rightarrow> verification_request N)
   }"

subsection \<open>Messages\<close>

text \<open>A nil cipher state panics.\<close>

definition Encrypt :: "('w, 'h, 'c) noise_env \<Rightarrow> string \<Rightarrow> ('w, 'c, string go) noise" where
  "Encrypt N message = State (\<lambda>s.
     if \<not> initialized s then (Ret ''Error: noise session not initialized'', s)
     else (let message = (if pairingVerificationRequired s
             then ''Error: encrypted connection not verified'' else message)
       in case sendCipher s of
            None \<Rightarrow> (Panic, s)
          | Some c \<Rightarrow> (case cipher_encrypt N c message of (r, c') \<Rightarrow> (Ret r, s\<lparr>sendCipher := Some c'\<rparr>))))"

definition Decrypt :: "('w, 'h, 'c) noise_env \<Rightarrow> string \<Rightarrow> ('w, 'c, (goerr + string) go) noise" where
  "Decrypt N message = State (\<lambda>s.
     if \<not> initialized s then (Ret (Inl (ErrorString ''noise not initialized'')), s)
     else if pairingVerificationRequired s
     then (Ret (Inl (ErrorString ''pairing verification has not been done with this client'')), s)
     else (case receiveCipher s of
         None \<Rightarrow> (Panic, s)
       | Some c \<Rightarrow> (case cipher_decrypt N c message of (r, c') \<Rightarrow> (Ret r, s\<lparr>receiveCipher := Some c'\<rparr>))))"

subsection \<open>Frames of the handshake\<close>

lemma grows_attempt [grows_intros]: "grows f m \<Longrightarrow> (\<And>x. grows f (k x)) \<Longrightarrow> grows f (attempt m k)"
  unfolding attempt_def by (intro grows_intros)

lemma keeps_attempt [keeps_intros]: "keeps f m \<Longrightarrow> (\<And>x. keeps f (k x)) \<Longrightarrow> keeps f (attempt m k)"
  unfolding attempt_def by (intro keeps_intros)

lemma grows_fails [grows_intros]: "grows f (fails msg)"
  unfolding fails_def by (intro grows_intros)

lemma keeps_fails [keeps_intros]: "keeps f (fails msg)"
  unfolding fails_def by (intro keeps_intros)

lemma io_grows [grows_intros]:
  "grows history (read_message N msg)" "grows history (write_message N kind b msg)"
  "grows history (static_keypair N)" "grows history (second_message N h)"
  by (auto simp: grows_def read_message_def write_message_def static_keypair_def second_message_def
      split: prod.splits sum.splits option.splits)

lemma io_keeps [keeps_intros]:
  assumes "\<And>s w. f (s\<lparr>outside := w\<rparr>) = f s" "\<And>s w t. f (s\<lparr>outside := w, history := t\<rparr>) = f s"
  shows "keeps f (read_message N msg)" "keeps f (write_message N kind b msg)" "keeps f (static_keypair N)"
    "keeps f (second_message N h)"
  using assms
  by (auto simp: keeps_def read_message_def write_message_def static_keypair_def second_message_def
      split: prod.splits sum.splits option.splits)

lemma last_message_frame:
  "grows history (last_message N h m)"
  "keeps initialized (last_message N h m)" "keeps pairingVerificationRequired (last_message N h m)"
  unfolding last_message_def fails_def
  by (intro grows_intros keeps_intros; simp)+

lemmas last_message_intros [grows_intros, keeps_intros] = last_message_frame

lemma xx_handshake_frame:
  "grows history (xx_handshake N h)"
  "keeps initialized (xx_handshake N h)" "keeps pairingVerificationRequired (xx_handshake N h)"
proof -
  show "grows history (xx_handshake N h)"
    unfolding xx_handshake_def by (intro grows_intros)
  show "keeps initialized (xx_handshake N h)" "keeps pairingVerificationRequired (xx_handshake N h)"
    unfolding xx_handshake_def by (intro keeps_intros; simp)+
qed

text \<open>After a successful announcement.\<close>

lemma announce_pairing_done:
  assumes "run_state (announce_pairing N h) s = (Inr u, s')"
  shows "initialized s' \<and> length (clientStaticPubkey s') = 32 \<and> clientStaticPubkey s' = peer_static N h \<and>
    (\<exists>es. history s' = history s @ es \<and>
      LookupKey (clientStaticPubkey s') (\<not> pairingVerificationRequired s') \<in> set es)"
  using assms
  by (auto simp: announce_pairing_def attempt_def fails_def write_message_def split: if_splits prod.splits option.splits)

lemma CheckVerification_done:
  assumes "run_state (CheckVerification N) s = (r, s')"
  shows "clientStaticPubkey s' = clientStaticPubkey s \<and> initialized s' = initialized s \<and>
    (\<exists>es. history s' = history s @ es \<and>
      (pairingVerificationRequired s' = pairingVerificationRequired s \<or> AskPairing (channelHash s') True \<in> set es))"
  using assms
  by (auto simp: CheckVerification_def split: prod.splits option.splits if_splits)

lemma verification_request_done:
  assumes "run_state (verification_request N) s = (r, s')"
  shows "clientStaticPubkey s' = clientStaticPubkey s \<and> initialized s' = initialized s \<and>
    (\<exists>es. history s' = history s @ es \<and>
      (pairingVerificationRequired s' = pairingVerificationRequired s \<or> AskPairing (channelHash s') True \<in> set es))"
proof -
  obtain m s1 where m: "run_state (read_message N ''websocket failed to read verification request'') s = (m, s1)"
    by fastforce
  then have s1: "s1 = s\<lparr>outside := outside s1\<rparr>" by (auto simp: read_message_def split: prod.splits)
  obtain v s2 where v: "run_state (CheckVerification N) s1 = (v, s2)" by fastforce
  note c = CheckVerification_done [OF v]
  have keep: "clientStaticPubkey s1 = clientStaticPubkey s" "initialized s1 = initialized s"
    "history s1 = history s" "pairingVerificationRequired s1 = pairingVerificationRequired s"
    by (subst s1, simp)+
  have "s' = s1 \<or> s' = s2 \<or> (\<exists>b w. s' = s2\<lparr>outside := w, history := history s2 @ [WsWrite 2 b]\<rparr>)"
    using assms m v
    by (auto simp: verification_request_def write_message_def split: sum.splits list.splits if_splits prod.splits)
  then show ?thesis
  proof (elim disjE exE)
    assume "s' = s1"
    then have "s' = s\<lparr>outside := outside s1\<rparr>" using s1 by (rule trans)
    then show ?thesis by simp
  next
    assume "s' = s2" with c keep show ?thesis by simp
  next
    fix b w assume "s' = s2\<lparr>outside := w, history := history s2 @ [WsWrite 2 b]\<rparr>"
    with c keep show ?thesis by auto
  qed
qed

subsection \<open>Properties\<close>




text \<open>
  With the pairing confirmation of the middleware, a verification request pairs the client
  exactly if the Base has no HSM or the user confirmed the channel on it.
\<close>

theorem pairing_confirmed_on_hsm:
  assumes "pairingVerificationRequired s"
    and "verify_pairing N = (\<lambda>hash. run_state (VerifyAppMiddlewarePairing E hash))"
    and "run_state (CheckVerification N) s = (r, s')"
  shows "\<not> pairingVerificationRequired s' \<longleftrightarrow> \<not> hsmPresent (outside s) \<or>
    fst (hsm_confirm_pairing E (channelHash s) (world (outside s))) = None \<and> \<not> is_error_abort E None"
  using assms
  by (auto simp: CheckVerification_def VerifyAppMiddlewarePairing_def split: prod.splits option.splits if_splits)

subsection \<open>Witnesses\<close>

text \<open>
  A library of which the messages are plain text, over a websocket whose incoming messages are
  a list; the handshake state counts the messages.
\<close>

definition demo_noise :: "(string list, nat, unit) noise_env" where
  "demo_noise = \<lparr>file_path = (\<lambda>d n. d @ n), stat_file = (\<lambda>p w. False),
     read_file = (\<lambda>p w. Inl (ErrorString ''no file'')), mkdir_all = (\<lambda>d w. (None, w)),
     write_file = (\<lambda>p d w. (Some (ErrorString ''read-only file system''), w)),
     ws_read = (\<lambda>w. case w of [] \<Rightarrow> (Inl (ErrorString ''closed''), []) | m # ms \<Rightarrow> (Inr m, ms)),
     ws_write = (\<lambda>k b w. (None, w)),
     generate_keypair = (\<lambda>w. (Inr \<lparr>Private = Some ''private'', Public = Some ''public''\<rparr>, w)),
     new_handshake = (\<lambda>kp. Inr 0),
     hs_read = (\<lambda>h m. if m = ''bad'' then ((Some (ErrorString ''decrypt failed''), None, None), h)
       else if h = 2 then ((None, Some (), Some ()), 3) else ((None, None, None), Suc h)),
     hs_write = (\<lambda>h w. ((Inr ''second'', Suc h), w)),
     peer_static = (\<lambda>h. replicate 32 (CHR ''k'')), channel_binding = (\<lambda>h. ''channel''),
     cipher_encrypt = (\<lambda>c m. (m, c)), cipher_decrypt = (\<lambda>c m. (Inr m, c)),
     verify_pairing = (\<lambda>h w. ((True, None), w))\<rparr>"

definition demo_channel :: "string list \<Rightarrow> (string list, unit) noise_state" where
  "demo_channel ms = NewNoiseConfig ''.base'' ms"

definition paired_channel :: "(string list, unit) noise_state" where
  "paired_channel = (demo_channel [])\<lparr>initialized := True, sendCipher := Some (), receiveCipher := Some ()\<rparr>"

lemma demo_noise_library [simp]: "noise_library demo_noise"
  by (simp add: noise_library_def demo_noise_def)




definition demo_pairing :: "(sim middleware, nat, unit) noise_env" where
  "demo_pairing = \<lparr>file_path = (\<lambda>d n. d @ n), stat_file = (\<lambda>p w. False),
     read_file = (\<lambda>p w. Inl (ErrorString ''no file'')), mkdir_all = (\<lambda>d w. (None, w)),
     write_file = (\<lambda>p d w. (Some (ErrorString ''read-only file system''), w)),
     ws_read = (\<lambda>w. (Inl (ErrorString ''closed''), w)), ws_write = (\<lambda>k b w. (None, w)),
     generate_keypair = (\<lambda>w. (Inr \<lparr>Private = Some ''private'', Public = Some ''public''\<rparr>, w)),
     new_handshake = (\<lambda>kp. Inr 0), hs_read = (\<lambda>h m. ((None, None, None), Suc h)),
     hs_write = (\<lambda>h w. ((Inr ''second'', Suc h), w)),
     peer_static = (\<lambda>h. replicate 32 (CHR ''k'')), channel_binding = (\<lambda>h. ''channel''),
     cipher_encrypt = (\<lambda>c m. (m, c)), cipher_decrypt = (\<lambda>c m. (Inr m, c)),
     verify_pairing = (\<lambda>hash. run_state (VerifyAppMiddlewarePairing sim_env hash))\<rparr>"

lemma pairing_confirmed_on_hsm_witness:
  "\<not> pairingVerificationRequired (snd (run_state (CheckVerification demo_pairing)
     ((NewNoiseConfig ''.base'' (demo Map.empty))\<lparr>pairingVerificationRequired := True\<rparr>)))"
  using pairing_confirmed_on_hsm [of "(NewNoiseConfig ''.base'' (demo Map.empty))\<lparr>pairingVerificationRequired := True\<rparr>"
      demo_pairing sim_env, OF _ _ prod.collapse [symmetric]]
  by (simp add: NewNoiseConfig_def demo_pairing_def)

end
