(* ===== verification/Handlers.thy ===== *)
theory Handlers
  imports Noise
begin

text \<open>
  The web handlers (middleware/src/handlers): the queue and broadcast of the middleware's events
  to the connected clients, the registration of a client after its handshake, and the read and
  write loops of a connection.

  \<open>handlers_state\<close> has the fields of \<open>Handlers\<close> that change; \<open>sent k\<close> is the history of what was
  sent to the channel of client \<open>k\<close>.  The code ranges over a map, so the order among clients is
  not fixed, and none is recorded.  Each operation is one section under the mutex, and
  \<open>handlers_step\<close> runs them in any order.  \<open>lock_step\<close> looks inside such a section: a
  send to a client waits for its write loop.

  Lemma groups: the invariant of the client numbers and of the queue; what the loops of an
  unpaired connection pass on; the deadlock of a broken client.
\<close>

subsection \<open>Events and clients\<close>

record handlers_state =
  eventQueue :: "event list"
  clientsMap :: "nat set"
  nClients :: nat
  sent :: "nat \<Rightarrow> string list"
  connecting :: nat              \<comment> \<open>calls of \<open>wsHandler\<close> between registration and queue\<close>

definition NewHandlers :: handlers_state where
  "NewHandlers = \<lparr>eventQueue = [], clientsMap = {}, nClients = 0, sent = (\<lambda>k. []), connecting = 0\<rparr>"

definition broadcast :: "string \<Rightarrow> handlers_state \<Rightarrow> handlers_state" where
  "broadcast m s = s\<lparr>sent := (\<lambda>k. if k \<in> clientsMap s then sent s k @ [m] else sent s k)\<rparr>"

definition listen_event :: "event \<Rightarrow> handlers_state \<Rightarrow> handlers_state" where
  "listen_event ev s =
     (if clientsMap s = {} \<and> QueueIfNoClient ev then s\<lparr>eventQueue := eventQueue s @ [ev]\<rparr>
      else broadcast (Identifier ev) s)"

definition removeClient :: "nat \<Rightarrow> handlers_state \<Rightarrow> handlers_state" where
  "removeClient clientID s = s\<lparr>clientsMap := clientsMap s - {clientID}\<rparr>"

definition register_client :: "handlers_state \<Rightarrow> handlers_state" where
  "register_client s = s\<lparr>clientsMap := insert (nClients s) (clientsMap s), nClients := nClients s + 1,
     connecting := connecting s + 1\<rparr>"

definition send_queue :: "handlers_state \<Rightarrow> handlers_state" where
  "send_queue s = (fold (\<lambda>ev. broadcast (Identifier ev)) (eventQueue s) s)\<lparr>connecting := connecting s - 1\<rparr>"

inductive handlers_step :: "handlers_state \<Rightarrow> handlers_state \<Rightarrow> bool" where
  event: "handlers_step s (listen_event ev s)"
| remove: "handlers_step s (removeClient k s)"
| register: "handlers_step s (register_client s)"
| queue: "0 < connecting s \<Longrightarrow> handlers_step s (send_queue s)"

inductive_cases handlers_stepE: "handlers_step s s'"

subsection \<open>HTTP endpoints\<close>

text \<open>
  The answers of the two plain endpoints.  Marshalling a struct of one string does not fail, so
  the branch of \<open>versionHandler\<close> with the status 500 is not taken.
\<close>

record http_response =
  status :: nat
  content_type :: "string option"
  body :: string

definition rootHandler :: http_response where
  "rootHandler = \<lparr>status = 200, content_type = None, body = ''OK!!'' @ [CHR 0x0A]\<rparr>"

definition versionHandler :: "('w, http_response) mw" where
  "versionHandler = do {
     versionString \<leftarrow> mw_GetMiddlewareVersion;
     State_Monad.return \<lparr>status = 200, content_type = Some ''application/json'',
       body = json_text (JObject [(''version'', JString versionString)])\<rparr>
   }"

lemma versionHandler_version:
  assumes "run_state versionHandler s = (r, s')" "valid_utf8 (GetMiddlewareVersion (config s))"
  shows "json_parse (body r) = Some (JObject [(''version'', JString (GetMiddlewareVersion (config s)))]) \<and> s' = s"
proof -
  have "sanitize ''version'' = ''version''" by (rule sanitize_valid [OF valid_utf8_ascii]) auto
  then show ?thesis
    using assms by (auto simp: versionHandler_def mw_GetMiddlewareVersion_def json_parse_text sanitize_valid simp del: json_text.simps)
qed

subsection \<open>Connections\<close>

text \<open>
  \<open>wsHandler\<close> after the upgrade to a websocket: with a handshake that succeeded the client is
  registered, whether or not it is paired.
\<close>

definition wsHandler :: "('w, 'h, 'c) noise_env \<Rightarrow> ('w, 'c) noise_state \<times> handlers_state \<Rightarrow>
    (unit go \<times> ('w, 'c) noise_state \<times> handlers_state)" where
  "wsHandler N x = (case x of (n, s) \<Rightarrow>
     (case run_state (InitializeNoise N) n of
        (Panic, n') \<Rightarrow> (Panic, n', s)
      | (Ret (Some e), n') \<Rightarrow> (Ret (), n', s)
      | (Ret None, n') \<Rightarrow> (Ret (), n', register_client s)))"

text \<open>What the read loop does with a message from the websocket.\<close>

datatype read_action = Drop | Forward string | Close | Crash

definition read_loop_step :: "('w, 'h, 'c) noise_env \<Rightarrow> string \<Rightarrow> ('w, 'c, read_action) noise" where
  "read_loop_step N msg =
     (if length msg = 0 then State_Monad.return Drop
      else do {
        r \<leftarrow> Decrypt N msg;
        State_Monad.return (case r of
          Panic \<Rightarrow> Crash
        | Ret (Inl e) \<Rightarrow> Close
        | Ret (Inr messageDecrypted) \<Rightarrow> Forward messageDecrypted)
      })"

text \<open>The messages passed on to the RPC server, up to the one that ends the loop.\<close>

primrec read_loop :: "('w, 'h, 'c) noise_env \<Rightarrow> string list \<Rightarrow> ('w, 'c, string list) noise" where
  "read_loop N [] = State_Monad.return []"
| "read_loop N (msg # msgs) = do {
     a \<leftarrow> read_loop_step N msg;
     (case a of
        Drop \<Rightarrow> read_loop N msgs
      | Forward m \<Rightarrow> do { ms \<leftarrow> read_loop N msgs; State_Monad.return (m # ms) }
      | _ \<Rightarrow> State_Monad.return [])
   }"

text \<open>A message of the write channel: \<open>None\<close> if encrypting panicked, else whether it was written.\<close>

definition write_loop_step :: "('w, 'h, 'c) noise_env \<Rightarrow> string \<Rightarrow> ('w, 'c, bool option) noise" where
  "write_loop_step N message = do {
     c \<leftarrow> Encrypt N message;
     (case c of
        Panic \<Rightarrow> State_Monad.return None
      | Ret b \<Rightarrow> do {
          r \<leftarrow> write_message N 1 b [];
          State_Monad.return (Some (r = Inr ())) })
   }"

subsection \<open>Inside a section\<close>

text \<open>
  \<open>listener\<close> holds the mutex while it still has to send its event to the listed clients; a send
  is taken by the client's write loop.  A write loop that meets an error leaves and then waits
  for the mutex, to remove the client.
\<close>

datatype writer = Serving | Leaving

record lock_state =
  listener :: "(string \<times> nat list) option"
  writers :: "nat \<Rightarrow> writer option"

inductive lock_step :: "lock_state \<Rightarrow> lock_state \<Rightarrow> bool" where
  lock: "listener s = None \<Longrightarrow> set ks = dom (writers s) \<Longrightarrow> distinct ks \<Longrightarrow>
    lock_step s (s\<lparr>listener := Some (m, ks)\<rparr>)"
| send: "listener s = Some (m, k # ks) \<Longrightarrow> writers s k = Some Serving \<Longrightarrow>
    lock_step s (s\<lparr>listener := Some (m, ks)\<rparr>)"
| unlock: "listener s = Some (m, []) \<Longrightarrow> lock_step s (s\<lparr>listener := None\<rparr>)"
| write_error: "writers s k = Some Serving \<Longrightarrow> lock_step s (s\<lparr>writers := (writers s)(k \<mapsto> Leaving)\<rparr>)"
| removed: "listener s = None \<Longrightarrow> writers s k = Some Leaving \<Longrightarrow>
    lock_step s (s\<lparr>writers := (writers s)(k := None)\<rparr>)"

inductive_cases lock_stepE: "lock_step s s'"

subsection \<open>Invariants\<close>

definition handlers_ok :: "handlers_state \<Rightarrow> bool" where
  "handlers_ok s \<longleftrightarrow> clientsMap s \<subseteq> {..<nClients s} \<and> list_all QueueIfNoClient (eventQueue s) \<and>
     (\<forall>k \<ge> nClients s. sent s k = [])"

lemma broadcast_fields [simp]:
  "eventQueue (broadcast m s) = eventQueue s" "clientsMap (broadcast m s) = clientsMap s"
  "nClients (broadcast m s) = nClients s" "connecting (broadcast m s) = connecting s"
  "sent (broadcast m s) k = (if k \<in> clientsMap s then sent s k @ [m] else sent s k)"
  by (simp_all add: broadcast_def)

lemma fold_broadcast:
  "eventQueue (fold (\<lambda>ev. broadcast (f ev)) evs s) = eventQueue s \<and>
   clientsMap (fold (\<lambda>ev. broadcast (f ev)) evs s) = clientsMap s \<and>
   nClients (fold (\<lambda>ev. broadcast (f ev)) evs s) = nClients s \<and>
   sent (fold (\<lambda>ev. broadcast (f ev)) evs s) k = (if k \<in> clientsMap s then sent s k @ map f evs else sent s k)"
  by (induction evs arbitrary: s) auto

lemma send_queue_fields [simp]:
  "eventQueue (send_queue s) = eventQueue s" "clientsMap (send_queue s) = clientsMap s"
  "nClients (send_queue s) = nClients s"
  "sent (send_queue s) k = (if k \<in> clientsMap s then sent s k @ map Identifier (eventQueue s) else sent s k)"
  using fold_broadcast [of Identifier "eventQueue s" s k]
  by (simp_all add: send_queue_def)

lemma handlers_step_ok: "handlers_step s s' \<Longrightarrow> handlers_ok s \<Longrightarrow> handlers_ok s'"
  by (induction rule: handlers_step.induct)
    (auto simp: handlers_ok_def listen_event_def removeClient_def register_client_def less_Suc_eq)

lemma handlers_step_queue: "handlers_step s s' \<Longrightarrow> \<exists>evs. eventQueue s' = eventQueue s @ evs"
  by (induction rule: handlers_step.induct)
    (auto simp: listen_event_def removeClient_def register_client_def)

lemma handlers_steps_queue: "handlers_step\<^sup>*\<^sup>* s s' \<Longrightarrow> \<exists>evs. eventQueue s' = eventQueue s @ evs"
proof (induction rule: rtranclp_induct)
  case (step t u)
  then show ?case using handlers_step_queue by (metis append.assoc)
qed simp

lemma handlers_steps_ok: "handlers_step\<^sup>*\<^sup>* s s' \<Longrightarrow> handlers_ok s \<Longrightarrow> handlers_ok s'"
  by (induction rule: rtranclp_induct) (auto intro: handlers_step_ok)

subsection \<open>Properties\<close>

text \<open>
  In every state the handlers reach, a new client gets a number no client had before, so a
  registration replaces no other; nothing has been sent under it; and only events that ask for it
  are in the queue.
\<close>

theorem client_numbers_fresh:
  assumes "handlers_step\<^sup>*\<^sup>* NewHandlers s"
  shows "nClients s \<notin> clientsMap s \<and> sent s (nClients s) = [] \<and>
    clientsMap (register_client s) = clientsMap s \<union> {nClients s} \<and> list_all QueueIfNoClient (eventQueue s)"
proof -
  have "handlers_ok NewHandlers" by (simp add: handlers_ok_def NewHandlers_def)
  then have "handlers_ok s" by (rule handlers_steps_ok [OF assms])
  then show ?thesis by (auto simp: handlers_ok_def register_client_def)
qed

lemma client_numbers_fresh_witness:
  "nClients (register_client NewHandlers) \<notin> clientsMap (register_client NewHandlers)"
  using client_numbers_fresh [of "register_client NewHandlers"] handlers_step.register [of NewHandlers] by auto

text \<open>
  The queue is never emptied: whatever was in it at some time is sent again with every later
  connection, to the new client and, once more, to every client already connected.
\<close>

theorem queue_sent_again:
  assumes "handlers_step\<^sup>*\<^sup>* s s'" "k \<in> clientsMap s'"
  shows "\<exists>evs. sent (send_queue s') k = sent s' k @ map Identifier (eventQueue s) @ evs"
  using handlers_steps_queue [OF assms(1)] assms(2) by auto

lemma queue_sent_again_witness:
  "\<exists>evs. sent (send_queue (register_client (listen_event \<lparr>Identifier = ''u'', QueueIfNoClient = True\<rparr> NewHandlers))) 0
     = [''u''] @ evs"
proof -
  let ?s = "listen_event \<lparr>Identifier = ''u'', QueueIfNoClient = True\<rparr> NewHandlers"
  have "handlers_step ?s (register_client ?s)" by (rule handlers_step.register)
  then have "handlers_step\<^sup>*\<^sup>* ?s (register_client ?s)" by (rule r_into_rtranclp)
  from queue_sent_again [OF this, of 0] show ?thesis
    by (simp add: listen_event_def register_client_def NewHandlers_def)
qed

text \<open>
  Nothing an unpaired client sends is passed on to the RPC server, however many messages it
  sends and whatever they are.
\<close>

theorem unpaired_never_forwarded:
  assumes "\<not> initialized n \<or> pairingVerificationRequired n"
  shows "run_state (read_loop N msgs) n = ([], n)"
  using assms
  by (induction msgs) (auto simp: read_loop_step_def Decrypt_def)

lemma unpaired_never_forwarded_witness:
  "run_state (read_loop demo_noise [''rpc request'']) (demo_channel []) = ([], demo_channel [])"
  by (rule unpaired_never_forwarded) (simp add: demo_channel_def NewNoiseConfig_def)

text \<open>
  C34: If the write loop of a client has left when it is the client's turn in a broadcast, the
  handlers are stuck for good: the listener keeps the mutex and waits for a receiver, which
  waits for the mutex to remove itself.
\<close>

theorem leaving_client_deadlocks:
  assumes "lock_step\<^sup>*\<^sup>* s s'" "listener s = Some (m, k # ks)" "writers s k = Some Leaving"
  shows "listener s' = Some (m, k # ks) \<and> writers s' k = Some Leaving"
  using assms
proof (induction rule: rtranclp_induct)
  case (step t u)
  from step.hyps(2) step.IH [OF step.prems] show ?case by (cases rule: lock_step.cases) auto
qed simp

text \<open>The state is reached when a client's connection breaks during a broadcast.\<close>

definition one_client :: lock_state where
  "one_client = \<lparr>listener = None, writers = [0 \<mapsto> Serving]\<rparr>"

lemma leaving_client_deadlocks_witness:
  "\<exists>s. lock_step\<^sup>*\<^sup>* one_client s \<and> listener s = Some (''u'', [0]) \<and> writers s 0 = Some Leaving"
proof -
  let ?t = "one_client\<lparr>listener := Some (''u'', [0])\<rparr>"
  let ?u = "?t\<lparr>writers := (writers ?t)(0 \<mapsto> Leaving)\<rparr>"
  have t: "lock_step one_client ?t"
    by (rule lock_step.lock) (auto simp: one_client_def)
  have u: "lock_step ?t ?u"
    by (rule lock_step.write_error) (simp add: one_client_def)
  have "lock_step\<^sup>*\<^sup>* ?u ?u" by simp
  from leaving_client_deadlocks [OF this, of "''u''" 0 "[]"] t u show ?thesis
    by (intro exI [of _ ?u]) (auto simp: one_client_def intro: converse_rtranclp_into_rtranclp)
qed

end
