(* ===== verification/Connections.thy ===== *)
theory Connections
  imports Handlers Threads
begin

text \<open>
  Several clients at once.  The HTTP server runs \<open>wsHandler\<close> (handlers.go) in a goroutine for every
  request, and all of them share the one \<open>NoiseConfig\<close> of the handlers (noise.go): the cipher states,
  the client's key, the channel hash and the flag that says whether pairing is required.

  \<open>connect_step\<close> cuts \<open>InitializeNoise\<close> at every access to these fields, to the configuration file
  and to the websocket; a value of \<open>connection\<close> is a place in that function with its local
  variables.  After a handshake that succeeded the read loop of the connection starts; write loops are
  threads of their own, which here may also go on after their read loop has ended (the code then
  stops them).  Every thread has its own websocket, so its own environment; the file
  system and the HSM in the environments may be shared.

  Lemma groups: a handshake that runs alone is \<open>InitializeNoise\<close>; what no interleaving can do;
  the client that is paired in place of another.
\<close>

subsection \<open>The handshake in steps\<close>

datatype 'h connection =
    Upgraded
  | NoKey
  | Generated noiseKeypair
  | StoringKey noiseKeypair noise_configuration
  | HaveKey noiseKeypair
  | Hello 'h
  | Greeted 'h
  | First 'h
  | Second 'h
  | Sending 'h string
  | Third 'h
  | Final 'h string
  | Ciphered 'h
  | KeySet 'h
  | LookedUp 'h bool
  | Deciding 'h
  | Told 'h
  | Hashed
  | Requesting
  | Verifying
  | Asking string
  | Approved
  | Adding string
  | Appending string
  | Storing string noise_configuration
  | Added
  | Answering string
  | Finished "goerr option go"

definition stop :: "string \<Rightarrow> 'h connection" where
  "stop msg = Finished (Ret (Some (ErrorString msg)))"

text \<open>An operation of the handshake that returns on an error, as the last call of a step.\<close>

definition proceed :: "('s, goerr + 'a) state \<Rightarrow> ('a \<Rightarrow> 'h connection) \<Rightarrow> ('s, 'h connection) state" where
  "proceed m k = do {
     r \<leftarrow> m;
     State_Monad.return (case r of Inl e \<Rightarrow> Finished (Ret (Some e)) | Inr x \<Rightarrow> k x)
   }"

fun connect_step :: "('w, 'h, 'c) noise_env \<Rightarrow> 'h connection \<Rightarrow> ('w, 'c, 'h connection) noise" where
  "connect_step N Upgraded = gets (\<lambda>s.
     case getMiddlewareNoiseStaticKeypair N (dataDir s) (outside s) of None \<Rightarrow> NoKey | Some kp \<Rightarrow> HaveKey kp)"
| "connect_step N NoKey = State (\<lambda>s. case generate_keypair N (outside s) of (r, w) \<Rightarrow>
     (case r of Inl e \<Rightarrow> stop ''failed to generate a new noise keypair'' | Inr kp \<Rightarrow> Generated kp, s\<lparr>outside := w\<rparr>))"
| "connect_step N (Generated kp) = gets (\<lambda>s. StoringKey kp (readConfig N (dataDir s) (outside s)))"
| "connect_step N (StoringKey kp conf) = do {
     _ \<leftarrow> modify (\<lambda>s. s\<lparr>outside :=
       snd (storeConfig N (dataDir s) (conf\<lparr>MiddlewareNoiseStaticKeypair := Some kp\<rparr>) (outside s))\<rparr>);
     State_Monad.return (HaveKey kp) }"
| "connect_step N (HaveKey kp) = State_Monad.return (case new_handshake N kp of
     Inl e \<Rightarrow> stop (''failed to generate a new noise handshake state for the wallet app ''
           @ ''communication with the BitBoxBase'')
   | Inr h \<Rightarrow> Hello h)"
| "connect_step N (Hello h) = proceed (read_message N ''websocket failed to read noise handshake request'')
     (\<lambda>request. if request \<noteq> ''h'' then stop ''initial response bytes did not match what we were expecting''
       else Greeted h)"
| "connect_step N (Greeted h) = proceed (write_message N 1 responseSuccess
     ''websocket failed to write the noise handshake request response'') (\<lambda>_. First h)"
| "connect_step N (First h) = proceed (read_message N ''websocket failed to read first noise handshake message'')
     (\<lambda>first. case hs_read N h first of ((err, _, _), h1) \<Rightarrow>
       (case err of
          Some e \<Rightarrow> stop ''noise failed to read first noise handshake message''
        | None \<Rightarrow> Second h1))"
| "connect_step N (Second h) = proceed (second_message N h) (\<lambda>(msg, h2). Sending h2 msg)"
| "connect_step N (Sending h msg) = proceed
     (write_message N 1 msg ''websocket failed to write second noise handshake message'') (\<lambda>_. Third h)"
| "connect_step N (Third h) = proceed
     (read_message N ''websocket failed to read third noise handshake message'') (Final h)"
| "connect_step N (Final h third) = proceed (last_message N h third) Ciphered"
| "connect_step N (Ciphered h) = do {
     _ \<leftarrow> modify (\<lambda>s. s\<lparr>clientStaticPubkey := peer_static N h\<rparr>);
     State_Monad.return (KeySet h) }"
| "connect_step N (KeySet h) = State (\<lambda>s.
     if length (clientStaticPubkey s) \<noteq> 32 then (stop ''expected 32 byte remote static pubkey'', s)
     else (let known = containsClientStaticPubkey N (dataDir s) (clientStaticPubkey s) (outside s)
       in (LookedUp h known, s\<lparr>history := history s @ [LookupKey (clientStaticPubkey s) known]\<rparr>)))"
| "connect_step N (LookedUp h known) = do {
     _ \<leftarrow> modify (\<lambda>s. s\<lparr>pairingVerificationRequired := \<not> known\<rparr>);
     State_Monad.return (Deciding h) }"
| "connect_step N (Deciding h) = do {
     required \<leftarrow> gets pairingVerificationRequired;
     proceed (write_message N 2 (if required then responseNeedsPairing else responseSuccess)
       ''websocket failed to write second noise handshake message'') (\<lambda>_. Told h) }"
| "connect_step N (Told h) = do {
     _ \<leftarrow> modify (\<lambda>s. s\<lparr>channelHash := channel_binding N h\<rparr>);
     State_Monad.return Hashed }"
| "connect_step N Hashed = do {
     _ \<leftarrow> modify (\<lambda>s. s\<lparr>initialized := True\<rparr>);
     State_Monad.return Requesting }"
| "connect_step N Requesting = do {
     r \<leftarrow> read_message N ''websocket failed to read verification request'';
     State_Monad.return (case r of
        Inl e \<Rightarrow> Finished (Ret (Some e))
      | Inr [] \<Rightarrow> Finished Panic
      | Inr (c # _) \<Rightarrow> if c = CHR ''v'' then Verifying else Finished (Ret None)) }"
| "connect_step N Verifying = gets (\<lambda>s. Asking (channelHash s))"
| "connect_step N (Asking hash) = State (\<lambda>s. case verify_pairing N hash (outside s) of ((accepted, err), w) \<Rightarrow>
     (case err of
        Some e \<Rightarrow> Finished (Ret (Some e))
      | None \<Rightarrow> if accepted then Approved else Answering responseFailure,
      s\<lparr>outside := w, history := history s @ [AskPairing hash (err = None \<and> accepted)]\<rparr>))"
| "connect_step N Approved = gets (\<lambda>s. Adding (clientStaticPubkey s))"
| "connect_step N (Adding pubkey) = gets (\<lambda>s.
     if containsClientStaticPubkey N (dataDir s) pubkey (outside s) then Added else Appending pubkey)"
| "connect_step N (Appending pubkey) = gets (\<lambda>s. Storing pubkey (readConfig N (dataDir s) (outside s)))"
| "connect_step N (Storing pubkey conf) = do {
     _ \<leftarrow> modify (\<lambda>s. s\<lparr>outside := snd (storeConfig N (dataDir s)
       (conf\<lparr>ClientNoiseStaticPubkeys := Some (pubkey_list conf @ [Some pubkey])\<rparr>) (outside s))\<rparr>);
     State_Monad.return Added }"
| "connect_step N Added = do {
     _ \<leftarrow> modify (\<lambda>s. s\<lparr>pairingVerificationRequired := False\<rparr>);
     State_Monad.return (Answering responseSuccess) }"
| "connect_step N (Answering msg) = do {
     _ \<leftarrow> write_message N 2 msg [];
     State_Monad.return (Finished (Ret None)) }"
| "connect_step N (Finished r) = State_Monad.return (Finished r)"

subsection \<open>A handshake alone\<close>

definition conclude :: "('w, 'h, 'c) noise_env \<Rightarrow> ('w, 'c, goerr + unit) noise \<Rightarrow> ('w, 'c, goerr option go) noise" where
  "conclude N m = do {
     r \<leftarrow> m;
     (case r of
        Inl e \<Rightarrow> State_Monad.return (Ret (Some e))
      | Inr _ \<Rightarrow> verification_request N)
   }"

definition answer :: "('w, 'h, 'c) noise_env \<Rightarrow> string \<Rightarrow> ('w, 'c, goerr option go) noise" where
  "answer N msg = do { _ \<leftarrow> write_message N 2 msg []; State_Monad.return (Ret None) }"

definition respond :: "('w, 'h, 'c) noise_env \<Rightarrow> goerr + string \<Rightarrow> ('w, 'c, goerr option go) noise" where
  "respond N r = (case r of Inl e \<Rightarrow> State_Monad.return (Ret (Some e)) | Inr msg \<Rightarrow> answer N msg)"

definition with_key :: "('w, 'h, 'c) noise_env \<Rightarrow> noiseKeypair \<Rightarrow> ('w, 'c, goerr + unit) noise" where
  "with_key N kp = (case new_handshake N kp of
     Inl e \<Rightarrow> fails (''failed to generate a new noise handshake state for the wallet app ''
           @ ''communication with the BitBoxBase'')
   | Inr h \<Rightarrow> attempt (xx_handshake N h) (announce_pairing N))"

text \<open>The last part of the handshake, from each of its messages on.\<close>

definition xx_third :: "('w, 'h, 'c) noise_env \<Rightarrow> 'h \<Rightarrow> ('w, 'c, goerr + 'h) noise" where
  "xx_third N h = attempt (read_message N ''websocket failed to read third noise handshake message'') (last_message N h)"

definition xx_sending :: "('w, 'h, 'c) noise_env \<Rightarrow> 'h \<Rightarrow> string \<Rightarrow> ('w, 'c, goerr + 'h) noise" where
  "xx_sending N h msg = attempt
     (write_message N 1 msg ''websocket failed to write second noise handshake message'') (\<lambda>_. xx_third N h)"

definition xx_second :: "('w, 'h, 'c) noise_env \<Rightarrow> 'h \<Rightarrow> ('w, 'c, goerr + 'h) noise" where
  "xx_second N h = attempt (second_message N h) (\<lambda>(msg, h2). xx_sending N h2 msg)"

definition xx_first :: "('w, 'h, 'c) noise_env \<Rightarrow> 'h \<Rightarrow> ('w, 'c, goerr + 'h) noise" where
  "xx_first N h = attempt (read_message N ''websocket failed to read first noise handshake message'') (\<lambda>first.
     case hs_read N h first of ((err, _, _), h1) \<Rightarrow>
       (case err of
          Some e \<Rightarrow> fails ''noise failed to read first noise handshake message''
        | None \<Rightarrow> xx_second N h1))"

definition xx_greeted :: "('w, 'h, 'c) noise_env \<Rightarrow> 'h \<Rightarrow> ('w, 'c, goerr + 'h) noise" where
  "xx_greeted N h = attempt (write_message N 1 responseSuccess
     ''websocket failed to write the noise handshake request response'') (\<lambda>_. xx_first N h)"

lemma xx_handshake_parts:
  "xx_handshake N h = attempt (read_message N ''websocket failed to read noise handshake request'') (\<lambda>request.
     if request \<noteq> ''h'' then fails ''initial response bytes did not match what we were expecting''
     else xx_greeted N h)"
  unfolding xx_handshake_def xx_greeted_def xx_first_def xx_second_def xx_sending_def xx_third_def ..

definition store_key :: "('w, 'h, 'c) noise_env \<Rightarrow> string \<Rightarrow> noise_configuration \<Rightarrow> ('w, 'c, unit) noise" where
  "store_key N k conf = modify (\<lambda>s. s\<lparr>outside := snd (storeConfig N (dataDir s)
       (conf\<lparr>ClientNoiseStaticPubkeys := Some (pubkey_list conf @ [Some k])\<rparr>) (outside s))\<rparr>)"

definition paired :: "('w, 'h, 'c) noise_env \<Rightarrow> ('w, 'c, goerr option go) noise" where
  "paired N = do {
     _ \<leftarrow> modify (\<lambda>s. s\<lparr>pairingVerificationRequired := False\<rparr>);
     answer N responseSuccess }"

definition add_key :: "('w, 'h, 'c) noise_env \<Rightarrow> string \<Rightarrow> ('w, 'c, goerr option go) noise" where
  "add_key N k = do {
     _ \<leftarrow> modify (\<lambda>s. s\<lparr>outside := snd (addClientStaticPubkey N (dataDir s) k (outside s))\<rparr>);
     paired N }"

definition ask :: "('w, 'h, 'c) noise_env \<Rightarrow> string \<Rightarrow> ('w, 'c, goerr option go) noise" where
  "ask N hash = do {
     (accepted, err) \<leftarrow> State (\<lambda>s. case verify_pairing N hash (outside s) of
       (r, w) \<Rightarrow> (r, s\<lparr>outside := w, history := history s @ [AskPairing hash (snd r = None \<and> fst r)]\<rparr>));
     (case err of
        Some e \<Rightarrow> State_Monad.return (Ret (Some e))
      | None \<Rightarrow> if accepted then gets clientStaticPubkey \<bind> add_key N else answer N responseFailure) }"

definition announce :: "('w, 'h, 'c) noise_env \<Rightarrow> 'h \<Rightarrow> ('w, 'c, goerr + unit) noise" where
  "announce N h = do {
     required \<leftarrow> gets pairingVerificationRequired;
     attempt (write_message N 2 (if required then responseNeedsPairing else responseSuccess)
         ''websocket failed to write second noise handshake message'') (\<lambda>_. do {
           _ \<leftarrow> modify (\<lambda>s. s\<lparr>channelHash := channel_binding N h, initialized := True\<rparr>);
           State_Monad.return (Inr ())
         }) }"

text \<open>What remains of \<open>InitializeNoise\<close> at each place.\<close>

fun remaining :: "('w, 'h, 'c) noise_env \<Rightarrow> 'h connection \<Rightarrow> ('w, 'c, goerr option go) noise" where
  "remaining N Upgraded = InitializeNoise N"
| "remaining N NoKey = conclude N (attempt (State (\<lambda>s. case generate_keypair N (outside s) of
       (Inl e, w) \<Rightarrow> (Inl (ErrorString ''failed to generate a new noise keypair''), s\<lparr>outside := w\<rparr>)
     | (Inr kp, w) \<Rightarrow> (Inr kp, s\<lparr>outside := snd (setMiddlewareNoiseStaticKeypair N (dataDir s) kp w)\<rparr>)))
     (with_key N))"
| "remaining N (Generated kp) = do {
     _ \<leftarrow> modify (\<lambda>s. s\<lparr>outside := snd (setMiddlewareNoiseStaticKeypair N (dataDir s) kp (outside s))\<rparr>);
     conclude N (with_key N kp) }"
| "remaining N (StoringKey kp conf) = do {
     _ \<leftarrow> modify (\<lambda>s. s\<lparr>outside :=
       snd (storeConfig N (dataDir s) (conf\<lparr>MiddlewareNoiseStaticKeypair := Some kp\<rparr>) (outside s))\<rparr>);
     conclude N (with_key N kp) }"
| "remaining N (HaveKey kp) = conclude N (with_key N kp)"
| "remaining N (Hello h) = conclude N (attempt (xx_handshake N h) (announce_pairing N))"
| "remaining N (Greeted h) = conclude N (attempt (xx_greeted N h) (announce_pairing N))"
| "remaining N (First h) = conclude N (attempt (xx_first N h) (announce_pairing N))"
| "remaining N (Second h) = conclude N (attempt (xx_second N h) (announce_pairing N))"
| "remaining N (Sending h msg) = conclude N (attempt (xx_sending N h msg) (announce_pairing N))"
| "remaining N (Third h) = conclude N (attempt (xx_third N h) (announce_pairing N))"
| "remaining N (Final h third) = conclude N (attempt (last_message N h third) (announce_pairing N))"
| "remaining N (Ciphered h) = conclude N (announce_pairing N h)"
| "remaining N (KeySet h) = conclude N (do {
     key \<leftarrow> gets clientStaticPubkey;
     if length key \<noteq> 32 then fails ''expected 32 byte remote static pubkey''
     else do {
       known \<leftarrow> gets (\<lambda>s. containsClientStaticPubkey N (dataDir s) (clientStaticPubkey s) (outside s));
       _ \<leftarrow> modify (\<lambda>s. s\<lparr>pairingVerificationRequired := \<not> known,
         history := history s @ [LookupKey (clientStaticPubkey s) known]\<rparr>);
       announce N h } })"
| "remaining N (LookedUp h known) = conclude N (do {
     _ \<leftarrow> modify (\<lambda>s. s\<lparr>pairingVerificationRequired := \<not> known\<rparr>);
     announce N h })"
| "remaining N (Deciding h) = conclude N (announce N h)"
| "remaining N (Told h) = do {
     _ \<leftarrow> modify (\<lambda>s. s\<lparr>channelHash := channel_binding N h, initialized := True\<rparr>);
     verification_request N }"
| "remaining N Hashed = do { _ \<leftarrow> modify (\<lambda>s. s\<lparr>initialized := True\<rparr>); verification_request N }"
| "remaining N Requesting = verification_request N"
| "remaining N Verifying = CheckVerification N \<bind> respond N"
| "remaining N (Asking hash) = ask N hash"
| "remaining N Approved = gets clientStaticPubkey \<bind> add_key N"
| "remaining N (Adding k) = add_key N k"
| "remaining N (Appending k) = do {
     conf \<leftarrow> gets (\<lambda>s. readConfig N (dataDir s) (outside s));
     _ \<leftarrow> store_key N k conf;
     paired N }"
| "remaining N (Storing k conf) = do { _ \<leftarrow> store_key N k conf; paired N }"
| "remaining N Added = paired N"
| "remaining N (Answering msg) = answer N msg"
| "remaining N (Finished r) = State_Monad.return r"

fun finished :: "'h connection \<Rightarrow> goerr option go option" where
  "finished (Finished r) = Some r"
| "finished _ = None"

fun places_left :: "'h connection \<Rightarrow> nat" where
  "places_left Upgraded = 27" | "places_left NoKey = 26" | "places_left (Generated _) = 25"
| "places_left (StoringKey _ _) = 24" | "places_left (HaveKey _) = 23" | "places_left (Hello _) = 22"
| "places_left (Greeted _) = 21" | "places_left (First _) = 20" | "places_left (Second _) = 19"
| "places_left (Sending _ _) = 18" | "places_left (Third _) = 17" | "places_left (Final _ _) = 16"
| "places_left (Ciphered _) = 15" | "places_left (KeySet _) = 14" | "places_left (LookedUp _ _) = 13"
| "places_left (Deciding _) = 12" | "places_left (Told _) = 11" | "places_left Hashed = 10"
| "places_left Requesting = 9" | "places_left Verifying = 8" | "places_left (Asking _) = 7"
| "places_left Approved = 6" | "places_left (Adding _) = 5" | "places_left (Appending _) = 4"
| "places_left (Storing _ _) = 3" | "places_left Added = 2" | "places_left (Answering _) = 1"
| "places_left (Finished _) = 0"

lemma run_conclude:
  "run_state (conclude N m) s = (case run_state m s of
     (Inl e, s') \<Rightarrow> (Ret (Some e), s') | (Inr _, s') \<Rightarrow> run_state (verification_request N) s')"
  by (simp add: conclude_def split: prod.splits sum.splits)

lemma run_attempt [simp]:
  "run_state (attempt m k) s = (case run_state m s of (Inl e, s') \<Rightarrow> (Inl e, s') | (Inr x, s') \<Rightarrow> run_state (k x) s')"
  by (simp add: attempt_def split: prod.splits sum.splits)

lemma run_fails [simp]: "run_state (fails msg) s = (Inl (ErrorString msg), s)"
  by (simp add: fails_def)

lemma finished_iff: "finished t = Some r \<longleftrightarrow> t = Finished r"
  by (cases t) auto

lemmas place_splits = prod.splits sum.splits option.splits if_splits

lemma update_order:
  "s\<lparr>pairingVerificationRequired := r, history := H\<rparr> = s\<lparr>history := H, pairingVerificationRequired := r\<rparr>"
  by simp

lemma remaining_step:
  assumes "run_state (connect_step N t) s = (t', s')"
  shows "run_state (remaining N t) s = run_state (remaining N t') s'"
proof (cases t)
  case Upgraded
  with assms show ?thesis
    by (auto simp: run_conclude InitializeNoise_def with_key_def static_keypair_def split: place_splits)
next
  case NoKey
  with assms show ?thesis by (auto simp: run_conclude stop_def with_key_def split: place_splits)
next
  case (HaveKey kp)
  with assms show ?thesis by (auto simp: run_conclude stop_def with_key_def split: place_splits)
next
  case (Hello h)
  with assms show ?thesis by (auto simp: run_conclude stop_def proceed_def xx_handshake_parts split: place_splits)
next
  case (First h)
  with assms show ?thesis by (auto simp: run_conclude stop_def proceed_def xx_first_def split: place_splits)
next
  case (Second h)
  with assms show ?thesis by (auto simp: run_conclude proceed_def xx_second_def split: place_splits)
next
  case (Ciphered h)
  with assms show ?thesis
    by (auto simp: run_conclude announce_pairing_def announce_def split: place_splits)
next
  case Requesting
  with assms show ?thesis
    by (auto simp: verification_request_def respond_def answer_def split: place_splits list.splits)
next
  case Verifying
  with assms show ?thesis
    by (auto simp: CheckVerification_def ask_def respond_def add_key_def paired_def split: place_splits)
next
  case (Generated kp)
  with assms show ?thesis by (auto simp: setMiddlewareNoiseStaticKeypair_def split: place_splits)
next
  case (StoringKey kp conf)
  with assms show ?thesis by (auto split: place_splits)
next
  case (Greeted h)
  with assms show ?thesis by (auto simp: run_conclude proceed_def xx_greeted_def split: place_splits)
next
  case (Sending h msg)
  with assms show ?thesis by (auto simp: run_conclude proceed_def xx_sending_def split: place_splits)
next
  case (Third h)
  with assms show ?thesis by (auto simp: run_conclude proceed_def xx_third_def split: place_splits)
next
  case (Final h m)
  with assms show ?thesis by (auto simp: run_conclude proceed_def split: place_splits)
next
  case (KeySet h)
  with assms show ?thesis by (auto simp: run_conclude stop_def Let_def update_order split: place_splits)
next
  case (LookedUp h known)
  with assms show ?thesis by (auto simp: run_conclude split: place_splits)
next
  case (Deciding h)
  with assms show ?thesis by (auto simp: run_conclude proceed_def announce_def split: place_splits)
next
  case (Told h)
  with assms show ?thesis by (auto split: place_splits)
next
  case Hashed
  with assms show ?thesis by (auto split: place_splits)
next
  case (Asking hash)
  with assms show ?thesis by (auto simp: ask_def split: place_splits)
next
  case Approved
  with assms show ?thesis by (auto split: place_splits)
next
  case (Adding k)
  with assms show ?thesis by (auto simp: add_key_def addClientStaticPubkey_def store_key_def Let_def split: place_splits)
next
  case (Appending k)
  with assms show ?thesis by (auto split: place_splits)
next
  case (Storing k conf)
  with assms show ?thesis by (auto simp: store_key_def split: place_splits)
next
  case Added
  with assms show ?thesis by (auto simp: paired_def split: place_splits)
next
  case (Answering msg)
  with assms show ?thesis by (auto simp: answer_def split: place_splits)
next
  case (Finished r)
  with assms show ?thesis by (auto split: place_splits)
qed

interpretation handshake: cut_operation "connect_step N" "remaining N" finished places_left for N
proof unfold_locales
  fix t s t' s' assume "run_state (connect_step N t) s = (t', s')" "finished t = None"
  then show "places_left t' < places_left t"
    by (cases t) (auto simp: stop_def proceed_def Let_def split: place_splits list.splits)
qed (auto simp: remaining_step finished_iff)

text \<open>
  C21: A handshake cut into steps that is not interrupted ends within 27 of them, with the result
  and the state of \<open>InitializeNoise\<close>.
\<close>

theorem alone_is_InitializeNoise:
  assumes "27 \<le> n"
  shows "run_state (alone (connect_step N) n Upgraded) s = map_prod Finished id (run_state (InitializeNoise N) s)"
proof -
  obtain t' s' where run: "run_state (alone (connect_step N) n Upgraded) s = (t', s')" by fastforce
  with handshake.alone_rest [of Upgraded n N s] assms show ?thesis by (auto simp: finished_iff)
qed

subsection \<open>Many clients\<close>

text \<open>
  A panic in a loop ends the program; one in the handler of a request is recovered by \<open>net/http\<close>
  and ends that request.  \<open>forwarded\<close> is what the read loops passed on to the RPC server.
\<close>

datatype 'h client_thread = Handshake "'h connection" | Reading | Writing "string list" | Over

record ('w, 'c) hub =
  noise :: "('w, 'c) noise_state"
  forwarded :: "(nat \<times> string) list"
  down :: bool

definition NewHub :: "string \<Rightarrow> 'w \<Rightarrow> ('w, 'c) hub" where
  "NewHub dir w = \<lparr>noise = NewNoiseConfig dir w, forwarded = [], down = False\<rparr>"

definition read_step ::
  "('w, 'h, 'c) noise_env \<Rightarrow> nat \<Rightarrow> ('w, 'c) hub \<Rightarrow> 'h client_thread \<times> ('w, 'c) hub" where
  "read_step N i H =
     (case run_state (read_message N []) (noise H) of
        (Inl e, n) \<Rightarrow> (Over, H\<lparr>noise := n\<rparr>)
      | (Inr msg, n) \<Rightarrow> (case run_state (read_loop_step N msg) n of
            (Drop, n') \<Rightarrow> (Reading, H\<lparr>noise := n'\<rparr>)
          | (Forward m, n') \<Rightarrow> (Reading, H\<lparr>noise := n', forwarded := forwarded H @ [(i, m)]\<rparr>)
          | (Close, n') \<Rightarrow> (Over, H\<lparr>noise := n'\<rparr>)
          | (Crash, n') \<Rightarrow> (Over, H\<lparr>noise := n', down := True\<rparr>)))"

fun client_step ::
  "(nat \<Rightarrow> ('w, 'h, 'c) noise_env) \<Rightarrow> nat \<Rightarrow> 'h client_thread \<Rightarrow> ('w, 'c) hub \<Rightarrow> 'h client_thread \<times> ('w, 'c) hub" where
  "client_step N i (Handshake t) H =
     (if down H then (Handshake t, H)
      else (case finished t of
          Some (Ret None) \<Rightarrow> (Reading, H)
        | Some _ \<Rightarrow> (Over, H)
        | None \<Rightarrow> (case run_state (connect_step (N i) t) (noise H) of (t', n) \<Rightarrow> (Handshake t', H\<lparr>noise := n\<rparr>))))"
| "client_step N i Reading H = (if down H then (Reading, H) else read_step (N i) i H)"
| "client_step N i (Writing (m # ms)) H =
     (if down H then (Writing (m # ms), H)
      else (case run_state (write_loop_step (N i) m) (noise H) of
          (None, n) \<Rightarrow> (Over, H\<lparr>noise := n, down := True\<rparr>)
        | (Some True, n) \<Rightarrow> (Writing ms, H\<lparr>noise := n\<rparr>)
        | (Some False, n) \<Rightarrow> (Over, H\<lparr>noise := n\<rparr>)))"
| "client_step N i (Writing []) H = (Writing [], H)"
| "client_step N i Over H = (Over, H)"

fun new_client :: "'h client_thread \<Rightarrow> bool" where
  "new_client (Handshake Upgraded) = True"
| "new_client (Writing ms) = True"
| "new_client _ = False"

subsection \<open>Nobody is let in without consent\<close>

fun gives_consent :: "noise_effect \<Rightarrow> bool" where
  "gives_consent (LookupKey k known) = known"
| "gives_consent (AskPairing c accepted) = accepted"
| "gives_consent (WsWrite k b) = False"

definition consented :: "('w, 'c) noise_state \<Rightarrow> bool" where
  "consented n \<longleftrightarrow> list_ex gives_consent (history n)"

definition guarded :: "('w, 'c) noise_state \<Rightarrow> bool" where
  "guarded n \<longleftrightarrow> pairingVerificationRequired n \<or> consented n"

definition hub_ok :: "('w, 'c) hub \<Rightarrow> bool" where
  "hub_ok H \<longleftrightarrow> (initialized (noise H) \<longrightarrow> guarded (noise H)) \<and> (forwarded H = [] \<or> consented (noise H))"

text \<open>What is known at a place of the handshake.\<close>

fun place_ok :: "'h connection \<Rightarrow> ('w, 'c) noise_state \<Rightarrow> bool" where
  "place_ok (LookedUp h known) n = (known \<longrightarrow> consented n)"
| "place_ok (Deciding h) n = guarded n"
| "place_ok (Told h) n = guarded n"
| "place_ok Hashed n = guarded n"
| "place_ok Approved n = consented n"
| "place_ok (Adding k) n = consented n"
| "place_ok (Appending k) n = consented n"
| "place_ok (Storing k conf) n = consented n"
| "place_ok Added n = consented n"
| "place_ok _ n = True"

fun thread_ok :: "'h client_thread \<Rightarrow> ('w, 'c) hub \<Rightarrow> bool" where
  "thread_ok (Handshake t) H = place_ok t (noise H)"
| "thread_ok _ H = True"

text \<open>A step that only adds to the history and leaves the two flags alone.\<close>

definition quiet :: "('w, 'c) noise_state \<Rightarrow> ('w, 'c) noise_state \<Rightarrow> bool" where
  "quiet n n' \<longleftrightarrow> (\<exists>es. history n' = history n @ es) \<and>
     pairingVerificationRequired n' = pairingVerificationRequired n \<and> initialized n' = initialized n"

lemma quietD:
  assumes "quiet n n'"
  shows "consented n \<Longrightarrow> consented n'" "guarded n \<Longrightarrow> guarded n'" "initialized n' = initialized n"
  using assms by (auto simp: quiet_def consented_def guarded_def)

lemma quiet_io:
  "run_state (read_message N msg) n = (a, n') \<Longrightarrow> quiet n n'"
  "run_state (write_message N k b msg) n = (c, n') \<Longrightarrow> quiet n n'"
  "run_state (second_message N h) n = (d, n') \<Longrightarrow> quiet n n'"
  "run_state (last_message N h m) n = (e, n') \<Longrightarrow> quiet n n'"
  by (auto simp: quiet_def read_message_def write_message_def second_message_def last_message_def
      split: prod.splits option.splits)

lemma quiet_step:
  assumes "run_state (connect_step N t) n = (t', n')" "\<And>h known. t \<noteq> LookedUp h known" "t \<noteq> Added" "t \<noteq> Hashed"
  shows "quiet n n'"
  using assms
  by (cases t) (auto simp: quiet_def proceed_def stop_def Let_def split: place_splits dest: quiet_io [unfolded quiet_def])

lemma place_ok_mono: "place_ok t n \<Longrightarrow> (consented n \<Longrightarrow> consented n') \<Longrightarrow> (guarded n \<Longrightarrow> guarded n') \<Longrightarrow> place_ok t n'"
  by (cases t) auto

text \<open>What a step does to the flags, given what is known at its place.\<close>

lemma step_keeps_facts:
  assumes "run_state (connect_step N t) n = (t', n')" "place_ok t n"
  shows "consented n \<longrightarrow> consented n'" "guarded n \<longrightarrow> guarded n'"
    "initialized n' \<longrightarrow> initialized n \<or> guarded n'"
proof -
  consider h known where "t = LookedUp h known" | "t = Added" | "t = Hashed" | "quiet n n'"
    using quiet_step [OF assms(1)] by blast
  then have "(consented n \<longrightarrow> consented n') \<and> (guarded n \<longrightarrow> guarded n') \<and> (initialized n' \<longrightarrow> initialized n \<or> guarded n')"
  proof cases
    case 4
    then show ?thesis using quietD by blast
  qed (use assms in \<open>auto simp: consented_def guarded_def\<close>)
  then show "consented n \<longrightarrow> consented n'" "guarded n \<longrightarrow> guarded n'" "initialized n' \<longrightarrow> initialized n \<or> guarded n'"
    by blast+
qed

lemma consented_outside [simp]: "consented (n\<lparr>outside := w\<rparr>) = consented n"
  by (simp add: consented_def)

lemma step_next_place:
  assumes "run_state (connect_step N t) n = (t', n')" "place_ok t n"
  shows "place_ok t' n'"
proof (cases t)
  case (KeySet h)
  with assms show ?thesis by (auto simp: stop_def Let_def consented_def split: if_splits)
next
  case (LookedUp h known)
  with assms show ?thesis by (auto simp: guarded_def consented_def)
next
  case (Deciding h)
  note facts = step_keeps_facts [OF assms]
  from assms Deciding have "(\<exists>e. t' = Finished e) \<or> t' = Told h" by (auto simp: proceed_def split: place_splits)
  with facts Deciding assms(2) show ?thesis by auto
next
  case (Asking c)
  with assms show ?thesis by (auto simp: consented_def split: place_splits)
next
  case (Told h)
  with assms show ?thesis by (auto simp: guarded_def consented_def)
qed (use assms in \<open>auto simp: proceed_def stop_def split: place_splits list.splits\<close>)

lemma quiet_read_loop:
  "run_state (read_loop_step N msg) n = (a, n') \<Longrightarrow> quiet n n' \<and> (\<forall>m. a = Forward m \<longrightarrow>
     initialized n \<and> \<not> pairingVerificationRequired n)"
  by (auto simp: quiet_def read_loop_step_def Decrypt_def split: if_splits option.splits prod.splits)

lemma quiet_write_loop: "run_state (write_loop_step N m) n = (r, n') \<Longrightarrow> quiet n n'"
  by (auto simp: quiet_def write_loop_step_def Encrypt_def write_message_def Let_def
      split: if_splits option.splits prod.splits)

lemma quiet_trans: "quiet n n' \<Longrightarrow> quiet n' n'' \<Longrightarrow> quiet n n''"
  by (auto simp: quiet_def)

lemma quiet_refl: "quiet n n"
  by (simp add: quiet_def)

lemma read_step_quiet:
  assumes "read_step N i H = (t, H')"
  shows "quiet (noise H) (noise H') \<and> (t = Reading \<or> t = Over) \<and>
    (forwarded H' = forwarded H \<or> initialized (noise H) \<and> \<not> pairingVerificationRequired (noise H))"
proof -
  obtain r n where r: "run_state (read_message N []) (noise H) = (r, n)" by fastforce
  note q = quiet_io(1) [OF r]
  show ?thesis
  proof (cases r)
    case (Inl e)
    with r q assms show ?thesis by (auto simp: read_step_def)
  next
    case (Inr msg)
    obtain a n' where a: "run_state (read_loop_step N msg) n = (a, n')" by fastforce
    note q' = quiet_read_loop [OF a]
    then have "quiet (noise H) n'" using q quiet_trans by blast
    then show ?thesis using assms r Inr a q q'
      by (cases a) (auto simp: read_step_def quiet_def)
  qed
qed

lemma client_step_cases:
  assumes "client_step N i t H = (t', H')"
  obtains (handshake) c c' n where "t = Handshake c" "t' = Handshake c'" "H' = H\<lparr>noise := n\<rparr>"
      "run_state (connect_step (N i) c) (noise H) = (c', n)"
  | (loop) "quiet (noise H) (noise H')" "t' = t \<or> (\<forall>c. t' \<noteq> Handshake c)"
      "forwarded H' = forwarded H \<or> initialized (noise H) \<and> \<not> pairingVerificationRequired (noise H)"
proof (cases "t' = t \<and> H' = H")
  case True
  then show thesis by (intro loop) (simp_all add: quiet_refl)
next
  case False
  show thesis
  proof (cases t)
    case (Handshake c)
    then show thesis using assms False
      by (auto simp: quiet_refl split: if_splits option.splits go.splits prod.splits
          intro: handshake [OF Handshake] loop)
  next
    case Reading
    then have "read_step (N i) i H = (t', H')" using assms False by (auto split: if_splits)
    from read_step_quiet [OF this] show thesis by (intro loop) auto
  next
    case (Writing ms)
    then show thesis using assms False
      by (cases ms) (auto split: if_splits prod.splits option.splits bool.splits
          dest!: quiet_write_loop intro!: loop)
  next
    case Over
    then show thesis using assms False by simp
  qed
qed

interpretation clients: thread_proof "client_step N" new_client hub_ok thread_ok
  for N :: "nat \<Rightarrow> ('w, 'h, 'c) noise_env"
proof
  fix t :: "'h client_thread" and s :: "('w, 'c) hub"
  assume "new_client t" then show "thread_ok t s" by (cases t rule: new_client.cases) auto
next
  fix H :: "('w, 'c) hub" and t t' :: "'h client_thread" and i H'
  assume ok: "hub_ok H" "thread_ok t H" and step: "client_step N i t H = (t', H')"
  from step show "hub_ok H' \<and> thread_ok t' H'"
  proof (cases rule: client_step_cases)
    case (handshake c c' n)
    with ok step_keeps_facts [OF handshake(4)] step_next_place [OF handshake(4)] show ?thesis
      by (auto simp: hub_ok_def)
  next
    case loop
    have "consented (noise H')" if "forwarded H' \<noteq> []"
      using that ok(1) loop quietD [OF loop(1)] by (auto simp: hub_ok_def guarded_def)
    then have "hub_ok H'" using ok(1) quietD [OF loop(1)] by (auto simp: hub_ok_def)
    moreover have "thread_ok t' H'"
      using ok(2) loop(2) quietD(1,2) [OF loop(1)] by (cases t') (auto elim!: place_ok_mono)
    ultimately show ?thesis ..
  qed
next
  fix H :: "('w, 'c) hub" and t u t' :: "'h client_thread" and i H'
  assume ok: "hub_ok H" "thread_ok t H" "thread_ok u H" and step: "client_step N i t H = (t', H')"
  from step have "(consented (noise H) \<longrightarrow> consented (noise H')) \<and> (guarded (noise H) \<longrightarrow> guarded (noise H'))"
  proof (cases rule: client_step_cases)
    case (handshake c c' n)
    with ok step_keeps_facts [OF handshake(4)] show ?thesis by auto
  next
    case loop
    with quietD show ?thesis by blast
  qed
  with ok(3) show "thread_ok u H'" by (cases u) (auto intro: place_ok_mono)
qed


subsection \<open>Paired in place of another\<close>

lemma run_write_message:
  "ws_write N k b (outside n) = (None, w) \<Longrightarrow>
    run_state (write_message N k b msg) n = (Inr (), n\<lparr>outside := w, history := history n @ [WsWrite k b]\<rparr>)"
  by (simp add: write_message_def)

text \<open>The handshake of an unknown client from its last message to the verification request.\<close>

lemma unknown_client_steps:
  assumes "\<not> down H" "n = noise H"
    and "hs_read (N 1) h third = ((None, Some c, Some d), h')" "length (peer_static (N 1) h') = 32"
    and "\<not> containsClientStaticPubkey (N 1) (dataDir n) (peer_static (N 1) h') (outside n)"
    and "ws_write (N 1) 2 responseNeedsPairing (outside n) = (None, w)"
  shows "schedule (client_step N) [1, 1, 1, 1, 1, 1, 1] ([t, Handshake (Final h third)], H) =
    ([t, Handshake Requesting], H\<lparr>noise := n\<lparr>sendCipher := Some c, receiveCipher := Some d,
       clientStaticPubkey := peer_static (N 1) h',
       history := history n @ [LookupKey (peer_static (N 1) h') False, WsWrite 2 responseNeedsPairing],
       pairingVerificationRequired := True, outside := w,
       channelHash := channel_binding (N 1) h', initialized := True\<rparr>\<rparr>)"
  using assms by (simp add: last_message_def proceed_def Let_def run_write_message)

text \<open>The confirmation of a pairing adds whatever key the shared field holds by then.\<close>

lemma confirmation_steps:
  assumes "\<not> down H" "verify_pairing (N 0) hash (outside n) = ((True, None), w)"
    and "file_system (N 0)" "\<And>conf v. fst (storeConfig (N 0) (dataDir n) conf v) = None"
  shows "\<exists>is v. set is = {0} \<and>
    schedule (client_step N) is ([Handshake (Asking hash), t], H\<lparr>noise := n\<rparr>) =
      ([Handshake (Answering responseSuccess), t], H\<lparr>noise := n\<lparr>outside := v,
        history := history n @ [AskPairing hash True], pairingVerificationRequired := False\<rparr>\<rparr>) \<and>
    containsClientStaticPubkey (N 0) (dataDir n) (clientStaticPubkey n) v"
proof (cases "containsClientStaticPubkey (N 0) (dataDir n) (clientStaticPubkey n) w")
  case True
  with assms(1,2) show ?thesis by (intro exI [of _ "[0, 0, 0, 0]"] exI [of _ w]) simp
next
  case False
  let ?k = "clientStaticPubkey n"
  obtain v where v: "addClientStaticPubkey (N 0) (dataDir n) ?k w = (None, v)"
    using assms(4) False by (metis addClientStaticPubkey_def prod.collapse)
  with False have s: "storeConfig (N 0) (dataDir n) ((readConfig (N 0) (dataDir n) w)\<lparr>ClientNoiseStaticPubkeys :=
      Some (pubkey_list (readConfig (N 0) (dataDir n) w) @ [Some ?k])\<rparr>) w = (None, v)"
    by (simp add: addClientStaticPubkey_def Let_def)
  have "containsClientStaticPubkey (N 0) (dataDir n) ?k v"
    using storeConfig_read [OF assms(3) s] by (simp add: containsClientStaticPubkey_def pubkey_list_def bytes_of_def)
  with False assms(1,2) s show ?thesis by (intro exI [of _ "[0, 0, 0, 0, 0, 0]"] exI [of _ v]) simp
qed

text \<open>
  C8: One client is paired in place of another.  While the user is asked to confirm the channel of a
  client, another one whose key is not known can finish its handshake, which replaces the key and
  the ciphers of the shared \<open>NoiseConfig\<close>; when the user then confirms the first channel, the key
  that is stored is that of the second client, its messages are decrypted from then on, and the
  user has never been asked about its channel.
\<close>

theorem paired_in_place_of_another:
  assumes "\<not> down H" "hs_read (N 1) h third = ((None, Some c, Some d), h')" "length (peer_static (N 1) h') = 32"
    and "\<not> containsClientStaticPubkey (N 1) (dataDir (noise H)) (peer_static (N 1) h') (outside (noise H))"
    and "ws_write (N 1) 2 responseNeedsPairing (outside (noise H)) = (None, w)"
    and "verify_pairing (N 0) hash w = ((True, None), w')"
    and "file_system (N 0)" "\<And>conf v. fst (storeConfig (N 0) (dataDir (noise H)) conf v) = None"
    and "hash \<noteq> channel_binding (N 1) h'"
  shows "\<exists>ts H' es. (interleaved (client_step N) new_client)\<^sup>*\<^sup>*
      ([Handshake (Asking hash), Handshake (Final h third)], H) (ts, H') \<and>
    dataDir (noise H') = dataDir (noise H) \<and>
    containsClientStaticPubkey (N 0) (dataDir (noise H')) (peer_static (N 1) h') (outside (noise H')) \<and>
    (\<forall>msg. fst (run_state (Decrypt (N 1) msg) (noise H')) = Ret (fst (cipher_decrypt (N 1) d msg))) \<and>
    channelHash (noise H') = channel_binding (N 1) h' \<and>
    history (noise H') = history (noise H) @ es \<and> (\<forall>b. AskPairing (channelHash (noise H')) b \<notin> set es)"
proof -
  let ?ts = "[Handshake (Asking hash), Handshake (Final h third)]"
  let ?n = "(noise H)\<lparr>sendCipher := Some c, receiveCipher := Some d, clientStaticPubkey := peer_static (N 1) h',
       history := history (noise H) @ [LookupKey (peer_static (N 1) h') False, WsWrite 2 responseNeedsPairing],
       pairingVerificationRequired := True, outside := w,
       channelHash := channel_binding (N 1) h', initialized := True\<rparr>"
  note first = unknown_client_steps [where N = N and n = "noise H" and t = "Handshake (Asking hash)", OF assms(1) refl assms(2-5)]
  have "\<exists>is v. set is = {0} \<and>
    schedule (client_step N) is ([Handshake (Asking hash), Handshake Requesting], H\<lparr>noise := ?n\<rparr>) =
      ([Handshake (Answering responseSuccess), Handshake Requesting], H\<lparr>noise := ?n\<lparr>outside := v,
        history := history ?n @ [AskPairing hash True], pairingVerificationRequired := False\<rparr>\<rparr>) \<and>
    containsClientStaticPubkey (N 0) (dataDir ?n) (clientStaticPubkey ?n) v"
    by (rule confirmation_steps) (use assms(1,6-8) in simp_all)
  then obtain "is" v where sched: "set is = {0}"
    "schedule (client_step N) is ([Handshake (Asking hash), Handshake Requesting], H\<lparr>noise := ?n\<rparr>) =
      ([Handshake (Answering responseSuccess), Handshake Requesting], H\<lparr>noise := ?n\<lparr>outside := v,
        history := history ?n @ [AskPairing hash True], pairingVerificationRequired := False\<rparr>\<rparr>)"
    and stored: "containsClientStaticPubkey (N 0) (dataDir ?n) (clientStaticPubkey ?n) v" by blast
  let ?H = "H\<lparr>noise := ?n\<lparr>outside := v, history := history ?n @ [AskPairing hash True],
      pairingVerificationRequired := False\<rparr>\<rparr>"
  have "schedule (client_step N) ([1, 1, 1, 1, 1, 1, 1] @ is) (?ts, H) =
      ([Handshake (Answering responseSuccess), Handshake Requesting], ?H)"
    unfolding schedule_append first sched(2) ..
  moreover have "list_all (\<lambda>i. i < length (fst (?ts, H))) ([1, 1, 1, 1, 1, 1, 1] @ is)"
    using sched(1) by (auto simp: list_all_iff)
  ultimately have "(interleaved (client_step N) new_client)\<^sup>*\<^sup>* (?ts, H)
      ([Handshake (Answering responseSuccess), Handshake Requesting], ?H)"
    using schedule_reached [of "(?ts, H)" "[1, 1, 1, 1, 1, 1, 1] @ is" "client_step N" new_client] by metis
  then show ?thesis using stored assms(9)
    by (intro exI [of _ "[Handshake (Answering responseSuccess), Handshake Requesting]"] exI [of _ ?H]
        exI [of _ "[LookupKey (peer_static (N 1) h') False, WsWrite 2 responseNeedsPairing, AskPairing hash True]"] conjI)
      (auto simp: Decrypt_def split: prod.splits)
qed

subsection \<open>Witnesses\<close>

text \<open>Two clients with the messages they will send, over the files of a map.\<close>

type_synonym net = "file_map \<times> (nat \<Rightarrow> string list)"

definition demo_net :: "nat \<Rightarrow> (net, nat, unit) noise_env" where
  "demo_net i = \<lparr>file_path = (\<lambda>d n. d @ ''/'' @ n), stat_file = (\<lambda>p w. fst w p \<noteq> None),
     read_file = (\<lambda>p w. case fst w p of None \<Rightarrow> Inl (ErrorString ''no such file or directory'') | Some d \<Rightarrow> Inr d),
     mkdir_all = (\<lambda>d w. (None, w)), write_file = (\<lambda>p d w. (None, ((fst w)(p \<mapsto> d), snd w))),
     ws_read = (\<lambda>w. case snd w i of [] \<Rightarrow> (Inl (ErrorString ''closed''), w)
       | m # ms \<Rightarrow> (Inr m, (fst w, (snd w)(i := ms)))),
     ws_write = (\<lambda>k b w. (None, w)),
     generate_keypair = (\<lambda>w. (Inr \<lparr>Private = Some ''private'', Public = Some ''public''\<rparr>, w)),
     new_handshake = (\<lambda>kp. Inr 0),
     hs_read = (\<lambda>h m. if h = 2 then ((None, Some (), Some ()), 3) else ((None, None, None), Suc h)),
     hs_write = (\<lambda>h w. ((Inr ''second'', Suc h), w)),
     peer_static = (\<lambda>h. replicate 32 (if i = 0 then CHR ''a'' else CHR ''b'')),
     channel_binding = (\<lambda>h. if i = 0 then ''channel a'' else ''channel b''),
     cipher_encrypt = (\<lambda>c m. (m, c)), cipher_decrypt = (\<lambda>c m. (Inr m, c)),
     verify_pairing = (\<lambda>h w. ((True, None), w))\<rparr>"

definition demo_inbox :: "nat \<Rightarrow> string list" where
  "demo_inbox i = [''h'', ''first'', ''third'', ''v'']"

definition demo_file :: "noise_configuration \<Rightarrow> file_map" where
  "demo_file conf = [''.base/'' @ configFilename \<mapsto> Marshal_configuration conf]"

lemma demo_net_file_system [simp]: "file_system (demo_net i)"
  by (auto simp: file_system_def demo_net_def)

lemma demo_net_store:
  "storeConfig (demo_net i) d c w = (None, ((fst w)(d @ ''/'' @ configFilename \<mapsto> Marshal_configuration c), snd w))"
  by (simp add: storeConfig_def File_write_def demo_net_def)

lemma demo_net_files [simp]:
  "readConfig (demo_net i) ''.base'' (Map.empty, q) = empty_configuration"
  "storeConfig (demo_net i) ''.base'' c (Map.empty, q) = (None, (demo_file c, q))"
  "readConfig (demo_net i) ''.base'' (demo_file c, q) = c"
proof -
  show "readConfig (demo_net i) ''.base'' (Map.empty, q) = empty_configuration"
    by (simp add: readConfig_def demo_net_def)
  show store: "storeConfig (demo_net i) ''.base'' c (Map.empty, q) = (None, (demo_file c, q))"
    by (simp add: demo_net_store demo_file_def)
  show "readConfig (demo_net i) ''.base'' (demo_file c, q) = c"
    using storeConfig_read [OF demo_net_file_system store] .
qed

lemma demo_net_calls [simp]:
  "ws_read (demo_net i) w = (case snd w i of [] \<Rightarrow> (Inl (ErrorString ''closed''), w)
     | m # ms \<Rightarrow> (Inr m, (fst w, (snd w)(i := ms))))"
  "ws_write (demo_net i) k b w = (None, w)"
  "generate_keypair (demo_net i) w = (Inr \<lparr>Private = Some ''private'', Public = Some ''public''\<rparr>, w)"
  "new_handshake (demo_net i) kp = Inr 0"
  "hs_read (demo_net i) h m = (if h = 2 then ((None, Some (), Some ()), 3) else ((None, None, None), Suc h))"
  "hs_write (demo_net i) h w = ((Inr ''second'', Suc h), w)"
  "peer_static (demo_net i) h = replicate 32 (if i = 0 then CHR ''a'' else CHR ''b'')"
  "channel_binding (demo_net i) h = (if i = 0 then ''channel a'' else ''channel b'')"
  "verify_pairing (demo_net i) hash w = ((True, None), w)"
  by (simp_all add: demo_net_def)

lemma alone_is_InitializeNoise_witness:
  "run_state (alone (connect_step demo_noise) 27 Upgraded) (demo_channel []) =
     map_prod Finished id (run_state (InitializeNoise demo_noise) (demo_channel []))"
  by (rule alone_is_InitializeNoise) simp


text \<open>The state the property starts from is reached by two new clients of a fresh middleware.\<close>

lemma demo_both_waiting:
  "\<exists>H. (interleaved (client_step demo_net) new_client)\<^sup>*\<^sup>* ([], NewHub ''.base'' (Map.empty, demo_inbox))
      ([Handshake (Asking ''channel a''), Handshake (Final 2 ''third'')], H) \<and> \<not> down H \<and>
    dataDir (noise H) = ''.base'' \<and>
    (\<exists>q. outside (noise H) = (demo_file (empty_configuration\<lparr>MiddlewareNoiseStaticKeypair :=
       Some \<lparr>Private = Some ''private'', Public = Some ''public''\<rparr>\<rparr>), q))"
proof -
  let ?H = "NewHub ''.base'' (Map.empty, demo_inbox) :: (net, unit) hub"
  let ?is = "replicate 20 0 @ replicate 8 (1::nat)"
  have start: "(interleaved (client_step demo_net) new_client)\<^sup>*\<^sup>* ([], ?H)
      ([] @ [Handshake Upgraded, Handshake Upgraded], ?H)"
    by (rule spawned_reached) auto
  have run: "(interleaved (client_step demo_net) new_client)\<^sup>*\<^sup>* ([Handshake Upgraded, Handshake Upgraded], ?H)
      (schedule (client_step demo_net) ?is ([Handshake Upgraded, Handshake Upgraded], ?H))"
    by (rule schedule_reached) (simp add: list_all_iff)
  let ?S = "schedule (client_step demo_net) ?is ([Handshake Upgraded, Handshake Upgraded], ?H)"
  have S: "fst ?S = [Handshake (Asking ''channel a''), Handshake (Final 2 ''third'')] \<and> \<not> down (snd ?S) \<and>
      dataDir (noise (snd ?S)) = ''.base'' \<and>
      fst (outside (noise (snd ?S))) = demo_file (empty_configuration\<lparr>MiddlewareNoiseStaticKeypair :=
        Some \<lparr>Private = Some ''private'', Public = Some ''public''\<rparr>\<rparr>)"
    by (simp add: numeral_eq_Suc NewHub_def NewNoiseConfig_def getMiddlewareNoiseStaticKeypair_def proceed_def
        read_message_def write_message_def second_message_def last_message_def demo_inbox_def empty_configuration_def
        containsClientStaticPubkey_def pubkey_list_def Let_def)
  have "(interleaved (client_step demo_net) new_client)\<^sup>*\<^sup>* ([], ?H) (fst ?S, snd ?S)"
    using rtranclp_trans [OF start [unfolded append_Nil] run] by simp
  with S show ?thesis by (metis prod.collapse)
qed

lemma paired_in_place_of_another_witness:
  "\<exists>ts H. (interleaved (client_step demo_net) new_client)\<^sup>*\<^sup>* ([], NewHub ''.base'' (Map.empty, demo_inbox)) (ts, H) \<and>
    containsClientStaticPubkey (demo_net 0) ''.base'' (replicate 32 (CHR ''b'')) (outside (noise H)) \<and>
    fst (run_state (Decrypt (demo_net 1) ''call'') (noise H)) = Ret (Inr ''call'')"
proof -
  obtain H q where H: "(interleaved (client_step demo_net) new_client)\<^sup>*\<^sup>* ([], NewHub ''.base'' (Map.empty, demo_inbox))
      ([Handshake (Asking ''channel a''), Handshake (Final 2 ''third'')], H)" "\<not> down H"
    "dataDir (noise H) = ''.base''" "outside (noise H) = (demo_file (empty_configuration\<lparr>MiddlewareNoiseStaticKeypair :=
       Some \<lparr>Private = Some ''private'', Public = Some ''public''\<rparr>\<rparr>), q)"
    using demo_both_waiting by blast
  have "\<exists>ts H' es. (interleaved (client_step demo_net) new_client)\<^sup>*\<^sup>*
      ([Handshake (Asking ''channel a''), Handshake (Final 2 ''third'')], H) (ts, H') \<and>
    dataDir (noise H') = dataDir (noise H) \<and>
    containsClientStaticPubkey (demo_net 0) (dataDir (noise H')) (peer_static (demo_net 1) (3 :: nat)) (outside (noise H')) \<and>
    (\<forall>msg. fst (run_state (Decrypt (demo_net 1) msg) (noise H')) = Ret (fst (cipher_decrypt (demo_net 1) () msg))) \<and>
    channelHash (noise H') = channel_binding (demo_net 1) (3 :: nat) \<and>
    history (noise H') = history (noise H) @ es \<and> (\<forall>b. AskPairing (channelHash (noise H')) b \<notin> set es)"
    by (rule paired_in_place_of_another [of H demo_net 2 "''third''" "()" "()" 3 "outside (noise H)" "''channel a''"])
      (use H in \<open>simp_all add: containsClientStaticPubkey_def pubkey_list_def empty_configuration_def demo_net_store\<close>)
  then obtain ts H' where H': "(interleaved (client_step demo_net) new_client)\<^sup>*\<^sup>*
      ([Handshake (Asking ''channel a''), Handshake (Final 2 ''third'')], H) (ts, H')"
    "containsClientStaticPubkey (demo_net 0) (dataDir (noise H')) (replicate 32 (CHR ''b'')) (outside (noise H'))"
    "fst (run_state (Decrypt (demo_net 1) ''call'') (noise H')) = Ret (Inr ''call'')"
    "dataDir (noise H') = dataDir (noise H)"
    by (auto simp: demo_net_def)
  from rtranclp_trans [OF H(1) H'(1)] H'(2-4) H(3) show ?thesis by (intro exI conjI) auto
qed

end
