(* ===== verification/Go_Flag.thy ===== *)
theory Go_Flag
  imports Go_Strings
begin

text \<open>
  Package \<open>flag\<close> of the standard library, as the programs use it: a table of named flags, each with
  what setting it does to a record of the values, and the parser of the command line.  A parse
  error ends the program (\<open>flag.ExitOnError\<close>).  A whole number is read with its prefix: \<open>0x\<close>, \<open>0b\<close>,
  \<open>0o\<close> or just \<open>0\<close>, for octal.

  Lemma groups: numbers in decimal; how one argument of the form \<open>-name=value\<close> is parsed.
\<close>

datatype 'a flag = Flag_Bool "bool \<Rightarrow> 'a \<Rightarrow> 'a" | Flag_String "string \<Rightarrow> 'a \<Rightarrow> 'a"
  | Flag_Int "int \<Rightarrow> 'a \<Rightarrow> 'a"

type_synonym 'a flags = "(string \<times> 'a flag) list"

datatype flag_error =
    BadSyntax string
  | HelpRequested
  | NotDefined string
  | InvalidBool string string
  | InvalidInt string string
  | NeedsArgument string

definition ParseBool :: "string \<Rightarrow> bool option" where
  "ParseBool s =
     (if s \<in> set [''1'', ''t'', ''T'', ''true'', ''TRUE'', ''True''] then Some True
      else if s \<in> set [''0'', ''f'', ''F'', ''false'', ''FALSE'', ''False''] then Some False
      else None)"

text \<open>\<open>strconv.ParseInt(s, 0, 64)\<close>, without the reason for a failure.\<close>

definition digit_of :: "char \<Rightarrow> nat option" where
  "digit_of c =
     (if is_digit c then Some (byte c - 48)
      else if 97 \<le> byte c \<and> byte c \<le> 122 then Some (byte c - 87)
      else if 65 \<le> byte c \<and> byte c \<le> 90 then Some (byte c - 55)
      else None)"

definition base_prefix :: "string \<Rightarrow> nat \<times> string" where
  "base_prefix s =
     (if hd s \<noteq> CHR ''0'' then (10, s)
      else if 3 \<le> length s \<and> s ! 1 \<in> {CHR ''b'', CHR ''B''} then (2, drop 2 s)
      else if 3 \<le> length s \<and> s ! 1 \<in> {CHR ''o'', CHR ''O''} then (8, drop 2 s)
      else if 3 \<le> length s \<and> s ! 1 \<in> {CHR ''x'', CHR ''X''} then (16, drop 2 s)
      else (8, tl s))"

fun digits_in :: "nat \<Rightarrow> string \<Rightarrow> nat \<Rightarrow> nat option" where
  "digits_in b [] n = Some n"
| "digits_in b (c # cs) n =
     (if c = CHR ''_'' then digits_in b cs n
      else (case digit_of c of
          Some d \<Rightarrow> if d < b then digits_in b cs (n * b + d) else None
        | None \<Rightarrow> None))"

text \<open>An underscore stands between digits; a prefix counts as a digit.\<close>

datatype last_seen = Start_Of_Text | Digit | Underscore | Other

fun underscores :: "bool \<Rightarrow> last_seen \<Rightarrow> string \<Rightarrow> bool" where
  "underscores hex saw [] = (saw \<noteq> Underscore)"
| "underscores hex saw (c # cs) =
     (if is_digit c \<or> hex \<and> (\<exists>d \<in> {10..<16}. digit_of c = Some d) then underscores hex Digit cs
      else if c = CHR ''_'' then saw = Digit \<and> underscores hex Underscore cs
      else saw \<noteq> Underscore \<and> underscores hex Other cs)"

definition underscoreOK :: "string \<Rightarrow> bool" where
  "underscoreOK s =
     (if 2 \<le> length s \<and> hd s = CHR ''0'' \<and> s ! 1 \<in> set ''bBoOxX''
      then underscores (s ! 1 \<in> set ''xX'') Digit (drop 2 s)
      else underscores False Start_Of_Text s)"

definition ParseInt0 :: "string \<Rightarrow> int option" where
  "ParseInt0 s =
     (let neg = HasPrefix s ''-'';
          u = (if neg \<or> HasPrefix s ''+'' then tl s else s)
      in if u = [] then None
         else (case base_prefix u of (b, ds) \<Rightarrow> (case digits_in b ds 0 of
             None \<Rightarrow> None
           | Some n \<Rightarrow>
               if CHR ''_'' \<in> set ds \<and> \<not> underscoreOK u then None
               else (let i = (if neg then - int n else int n)
                 in if int_min \<le> i \<and> i \<le> int_max then Some i else None))))"

text \<open>The name and the value behind the first equals sign, which cannot come first.\<close>

fun cut_equals :: "string \<Rightarrow> string \<times> string option" where
  "cut_equals [] = ([], None)"
| "cut_equals (c # cs) =
     (c # takeWhile (\<lambda>x. x \<noteq> CHR ''='') cs,
      (case dropWhile (\<lambda>x. x \<noteq> CHR ''='') cs of [] \<Rightarrow> None | _ # v \<Rightarrow> Some v))"

text \<open>The name of the flag an argument starts with one or two dashes, without them.\<close>

definition strip_dashes :: "string \<Rightarrow> string" where
  "strip_dashes s = (if take 2 s = ''--'' then drop 2 s else drop 1 s)"

fun parse_flags :: "'a flags \<Rightarrow> string list \<Rightarrow> 'a \<Rightarrow> flag_error + 'a \<times> string list" where
  "parse_flags F [] x = Inr (x, [])"
| "parse_flags F (s # args) x =
     (if length s < 2 \<or> hd s \<noteq> CHR ''-'' then Inr (x, s # args)
      else if s = ''--'' then Inr (x, args)
      else if strip_dashes s = [] \<or> hd (strip_dashes s) \<in> {CHR ''-'', CHR ''=''} then Inl (BadSyntax s)
      else (case cut_equals (strip_dashes s) of (name, value) \<Rightarrow>
        (case map_of F name of
           None \<Rightarrow> Inl (if name = ''help'' \<or> name = ''h'' then HelpRequested else NotDefined name)
         | Some (Flag_Bool upd) \<Rightarrow>
             (case ParseBool (case value of None \<Rightarrow> ''true'' | Some v \<Rightarrow> v) of
                None \<Rightarrow> Inl (InvalidBool (case value of None \<Rightarrow> ''true'' | Some v \<Rightarrow> v) name)
              | Some b \<Rightarrow> parse_flags F args (upd b x))
         | Some (Flag_String upd) \<Rightarrow>
             (case value of
                Some v \<Rightarrow> parse_flags F args (upd v x)
              | None \<Rightarrow> (case args of
                    [] \<Rightarrow> Inl (NeedsArgument name)
                  | v # rest \<Rightarrow> parse_flags F rest (upd v x)))
         | Some (Flag_Int upd) \<Rightarrow>
             (case value of
                Some v \<Rightarrow> (case ParseInt0 v of
                    None \<Rightarrow> Inl (InvalidInt v name)
                  | Some i \<Rightarrow> parse_flags F args (upd i x))
              | None \<Rightarrow> (case args of
                    [] \<Rightarrow> Inl (NeedsArgument name)
                  | v # rest \<Rightarrow> (case ParseInt0 v of
                        None \<Rightarrow> Inl (InvalidInt v name)
                      | Some i \<Rightarrow> parse_flags F rest (upd i x)))))))"

definition flag_name :: "string \<Rightarrow> bool" where
  "flag_name n \<longleftrightarrow> n \<noteq> [] \<and> hd n \<noteq> CHR ''-'' \<and> CHR ''='' \<notin> set n"

definition setting :: "string \<Rightarrow> string \<Rightarrow> string" where
  "setting n v = CHR ''-'' # n @ CHR ''='' # v"

definition bool_text :: "bool \<Rightarrow> string" where
  "bool_text b = (if b then ''true'' else ''false'')"

lemma ParseBool_text [simp]: "ParseBool (bool_text b) = Some b"
  by (simp add: ParseBool_def bool_text_def)

subsection \<open>Numbers\<close>

lemma itoa_nat_hd: "0 < n \<Longrightarrow> hd (itoa_nat n) \<noteq> CHR ''0''"
proof (induction n rule: itoa_nat.induct)
  case (1 n)
  show ?case
  proof (cases "n < 10")
    case True
    have "digit_char n \<noteq> CHR ''0''" using byte_digit_char [OF True] \<open>0 < n\<close> by auto
    with True show ?thesis by (simp add: itoa_nat.simps [of n])
  next
    case False
    with 1 show ?thesis by (simp add: itoa_nat.simps [of n])
  qed
qed

lemma digits_in_digits:
  "list_all is_digit ds \<Longrightarrow> digits_in 10 ds n = Some (foldl (\<lambda>n c. 10 * n + (byte c - 48)) n ds)"
  by (induction ds arbitrary: n) (auto simp: digit_of_def is_digit_def mult.commute)

lemma no_underscore: "list_all is_digit ds \<Longrightarrow> CHR ''_'' \<notin> set ds"
  by (auto simp: list_all_iff is_digit_def)

lemma ParseInt0_Itoa:
  assumes "int_min \<le> i" "i \<le> int_max"
  shows "ParseInt0 (Itoa i) = Some i"
proof -
  have digits: "list_all is_digit (itoa_nat n)" for n by (rule itoa_nat_digits)
  have pos: "base_prefix (itoa_nat n) = (10, itoa_nat n)" if "0 < n" for n
    using itoa_nat_hd [OF that] by (simp add: base_prefix_def)
  have number: "digits_in 10 (itoa_nat n) 0 = Some n" for n
    using digits_in_digits [OF digits] digits_value_itoa_nat [of n] by (simp add: digits_value_def)
  have sign: "\<not> HasPrefix (itoa_nat n) ''-''" "\<not> HasPrefix (itoa_nat n) ''+''" for n
    using hd_itoa_nat_digit [of n] by (cases "itoa_nat n"; auto simp: is_digit_def)+
  have plain: "CHR ''_'' \<notin> set (itoa_nat n)" for n by (rule no_underscore [OF digits])
  consider "i < 0" | "i = 0" | "0 < i" by linarith
  then show ?thesis
  proof cases
    case 1
    with assms show ?thesis
      by (simp add: ParseInt0_def Itoa_def pos number plain)
  next
    case 2
    then show ?thesis
      by (simp add: ParseInt0_def Itoa_def itoa_nat.simps digit_char_def base_prefix_def int_min_def int_max_def)
  next
    case 3
    with assms show ?thesis
      by (simp add: ParseInt0_def Itoa_def pos number plain sign)
  qed
qed

subsection \<open>Settings\<close>

lemma cut_equals_setting:
  assumes "flag_name n"
  shows "cut_equals (n @ CHR ''='' # v) = (n, Some v)"
proof -
  obtain c cs where n: "n = c # cs" using assms by (cases n) (auto simp: flag_name_def)
  have cs: "\<And>x. x \<in> set cs \<Longrightarrow> x \<noteq> CHR ''=''" using assms n by (auto simp: flag_name_def)
  show ?thesis
    using takeWhile_append2 [of cs "\<lambda>x. x \<noteq> CHR ''=''" "CHR ''='' # v", OF cs]
      dropWhile_append2 [of cs "\<lambda>x. x \<noteq> CHR ''=''" "CHR ''='' # v", OF cs] n by simp
qed

lemma strip_setting: "flag_name n \<Longrightarrow> strip_dashes (setting n v) = n @ CHR ''='' # v"
  by (cases n) (auto simp: strip_dashes_def setting_def flag_name_def)

lemma parse_setting:
  assumes "flag_name n"
  shows "map_of F n = Some (Flag_String upd) \<Longrightarrow>
      parse_flags F (setting n v # args) x = parse_flags F args (upd v x)"
    and "map_of F n = Some (Flag_Bool upd') \<Longrightarrow>
      parse_flags F (setting n (bool_text b) # args) x = parse_flags F args (upd' b x)"
    and "map_of F n = Some (Flag_Int upd'') \<Longrightarrow> int_min \<le> i \<Longrightarrow> i \<le> int_max \<Longrightarrow>
      parse_flags F (setting n (Itoa i) # args) x = parse_flags F args (upd'' i x)"
proof -
  have [simp]: "\<not> length (setting n v) < 2" "hd (setting n v) = CHR ''-''" "setting n v \<noteq> ''--''" for v
    using assms by (cases n; auto simp: setting_def flag_name_def)+
  have [simp]: "n @ CHR ''='' # v \<noteq> []" "hd (n @ CHR ''='' # v) \<noteq> CHR ''-''"
      "hd (n @ CHR ''='' # v) \<noteq> CHR ''=''" for v
    using assms by (cases n; auto simp: flag_name_def)+
  show "map_of F n = Some (Flag_String upd) \<Longrightarrow>
      parse_flags F (setting n v # args) x = parse_flags F args (upd v x)"
    by (simp add: strip_setting [OF assms] cut_equals_setting [OF assms])
  show "map_of F n = Some (Flag_Bool upd') \<Longrightarrow>
      parse_flags F (setting n (bool_text b) # args) x = parse_flags F args (upd' b x)"
    by (simp add: strip_setting [OF assms] cut_equals_setting [OF assms])
  show "map_of F n = Some (Flag_Int upd'') \<Longrightarrow> int_min \<le> i \<Longrightarrow> i \<le> int_max \<Longrightarrow>
      parse_flags F (setting n (Itoa i) # args) x = parse_flags F args (upd'' i x)"
    by (simp add: strip_setting [OF assms] cut_equals_setting [OF assms] ParseInt0_Itoa)
qed

end
