(* ===== verification/Rpcserver.thy ===== *)
theory Rpcserver
  imports Middleware_Info
begin

text \<open>
  The RPC server (middleware/src/rpcserver/rpcserver.go): the interface \<open>Middleware\<close> it calls,
  as a record of operations over any state; one definition per RPC, which checks the token and
  passes the call on; and the implementation of the interface by the middleware of this
  development.

  \<open>rpc_dispatch\<close> is what \<open>net/rpc\<close> does with a request after decoding it: the constructor of
  \<open>rpc_call\<close> is the method's name with its argument.  The \<open>error\<close> the methods return is always
  nil and is left out.  The RPC \<open>Serve\<close>, which re-enters \<open>net/rpc\<close> on the same connection, is
  not a call of this type; it is in the theory Net_Rpc.

  Lemma groups: the locale \<open>rpc_backend\<close> states what the server relies on, that validating a
  token changes nothing, and proves the gate for every RPC at once; its interpretation on
  \<open>middleware_backend\<close> gives the properties.
\<close>

subsection \<open>The interface\<close>

record 's Middleware =
  mw_BackupHSMSecret :: "('s, ErrorResponse) state"
  mw_BackupSysconfig :: "('s, ErrorResponse) state"
  mw_EnableClearnetIBD :: "ToggleSettingArgs \<Rightarrow> ('s, ErrorResponse) state"
  mw_EnableRootLogin :: "ToggleSettingArgs \<Rightarrow> ('s, ErrorResponse) state"
  mw_EnableSSHPasswordLogin :: "ToggleSettingArgs \<Rightarrow> ('s, ErrorResponse) state"
  mw_EnableTor :: "ToggleSettingArgs \<Rightarrow> ('s, ErrorResponse) state"
  mw_EnableTorElectrs :: "ToggleSettingArgs \<Rightarrow> ('s, ErrorResponse) state"
  mw_EnableTorMiddleware :: "ToggleSettingArgs \<Rightarrow> ('s, ErrorResponse) state"
  mw_EnableTorSSH :: "ToggleSettingArgs \<Rightarrow> ('s, ErrorResponse) state"
  mw_FinalizeSetupWizard :: "('s, ErrorResponse) state"
  mw_GetBaseInfo :: "('s, GetBaseInfoResponse) state"
  mw_GetBaseUpdateProgress :: "('s, GetBaseUpdateProgressResponse) state"
  mw_GetServiceInfo :: "('s, GetServiceInfoResponse) state"
  mw_GetServiceStatus :: "('s, GetServiceStatusResponse) state"
  mw_IsBaseUpdateAvailable :: "('s, IsBaseUpdateAvailableResponse) state"
  mw_RebootBase :: "('s, ErrorResponse) state"
  mw_ReindexBitcoin :: "('s, ErrorResponse) state"
  mw_RestoreHSMSecret :: "('s, ErrorResponse) state"
  mw_RestoreSysconfig :: "('s, ErrorResponse) state"
  mw_ResyncBitcoin :: "('s, ErrorResponse) state"
  mw_SetHostname :: "SetHostnameArgs \<Rightarrow> ('s, ErrorResponse go) state"
  mw_SetLoginPassword :: "SetLoginPasswordArgs \<Rightarrow> ('s, ErrorResponse) state"
  mw_SetupStatus :: "('s, SetupStatusResponse) state"
  mw_ShutdownBase :: "('s, ErrorResponse) state"
  mw_SystemEnv :: "('s, GetEnvResponse) state"
  mw_UpdateBase :: "UpdateBaseArgs \<Rightarrow> ('s, ErrorResponse) state"
  mw_UserAuthenticate :: "UserAuthenticateArgs \<Rightarrow> ('s, UserAuthenticateResponse) state"
  mw_UserChangePassword :: "UserChangePasswordArgs \<Rightarrow> ('s, ErrorResponse) state"
  mw_ValidateToken :: "string \<Rightarrow> ('s, goerr option) state"

subsection \<open>The connection\<close>

text \<open>
  The two ends \<open>net/rpc\<close> reads from and writes to.  \<open>Read\<close> takes one message off the channel and
  copies what fits into a buffer of \<open>n\<close> bytes; the rest of the message is lost.
\<close>

definition rpcConn_Read :: "nat \<Rightarrow> string \<Rightarrow> string \<times> nat" where
  "rpcConn_Read n message = (take n message, min n (length message))"

definition rpcConn_Write :: "string \<Rightarrow> string \<times> nat" where
  "rpcConn_Write p = (OpRPCCall @ p, length p)"

lemma Read_whole: "length message \<le> n \<Longrightarrow> rpcConn_Read n message = (message, length message)"
  by (simp add: rpcConn_Read_def)

text \<open>On the client's side a reply is told from a notification by its first byte.\<close>

lemma Write_not_notification:
  "hd (fst (rpcConn_Write p)) \<notin> {hd OpServiceInfoChanged, hd OpBaseUpdateProgressChanged,
     hd OpBaseUpdateIsAvailable, hd OpBaseUpdateSuccess, hd OpBaseUpdateFailure}"
  by (simp add: rpcConn_Write_def op_defs)

subsection \<open>The RPCs\<close>

definition formulateJWTError :: ErrorResponse where
  "formulateJWTError = failure JSONWebTokenInvalid ''JSON web token validation failed''"

definition empty_env :: GetEnvResponse where
  "empty_env = \<lparr>env_Network = [], env_ElectrsRPCPort = []\<rparr>"

definition update_progress_error :: "ErrorResponse \<Rightarrow> GetBaseUpdateProgressResponse" where
  "update_progress_error e = \<lparr>pr_ErrorResponse = Some e, UpdateState = UpdateStateZero,
     ProgressPercentage = 0, ProgressDownloadedKiB = 0\<rparr>"

definition update_available_error :: "ErrorResponse \<Rightarrow> IsBaseUpdateAvailableResponse" where
  "update_available_error e = \<lparr>av_ErrorResponse = Some e, UpdateAvailable = False,
     av_UpdateInfo = \<lparr>ui_Description = [], ui_Version = [], ui_Severity = []\<rparr>\<rparr>"

text \<open>The body the authenticated RPCs share.\<close>

definition with_token :: "'s Middleware \<Rightarrow> string \<Rightarrow> 'a \<Rightarrow> ('s, 'a) state \<Rightarrow> ('s, 'a) state" where
  "with_token M token refusal m = do {
     err \<leftarrow> mw_ValidateToken M token;
     (case err of
        Some e \<Rightarrow> State_Monad.return refusal
      | None \<Rightarrow> m)
   }"

definition RPC_GetSetupStatus :: "'s Middleware \<Rightarrow> ('s, SetupStatusResponse) state" where
  "RPC_GetSetupStatus M = mw_SetupStatus M"

definition RPC_GetSystemEnv :: "'s Middleware \<Rightarrow> AuthGenericRequest \<Rightarrow> ('s, GetEnvResponse) state" where
  "RPC_GetSystemEnv M args = with_token M (ag_Token args) empty_env (mw_SystemEnv M)"

definition RPC_ReindexBitcoin :: "'s Middleware \<Rightarrow> AuthGenericRequest \<Rightarrow> ('s, ErrorResponse) state" where
  "RPC_ReindexBitcoin M args = with_token M (ag_Token args) formulateJWTError (mw_ReindexBitcoin M)"

definition RPC_ResyncBitcoin :: "'s Middleware \<Rightarrow> AuthGenericRequest \<Rightarrow> ('s, ErrorResponse) state" where
  "RPC_ResyncBitcoin M args = with_token M (ag_Token args) formulateJWTError (mw_ResyncBitcoin M)"

definition RPC_BackupSysconfig :: "'s Middleware \<Rightarrow> AuthGenericRequest \<Rightarrow> ('s, ErrorResponse) state" where
  "RPC_BackupSysconfig M args = with_token M (ag_Token args) formulateJWTError (mw_BackupSysconfig M)"

definition RPC_BackupHSMSecret :: "'s Middleware \<Rightarrow> AuthGenericRequest \<Rightarrow> ('s, ErrorResponse) state" where
  "RPC_BackupHSMSecret M args = with_token M (ag_Token args) formulateJWTError (mw_BackupHSMSecret M)"

definition RPC_RestoreSysconfig :: "'s Middleware \<Rightarrow> AuthGenericRequest \<Rightarrow> ('s, ErrorResponse) state" where
  "RPC_RestoreSysconfig M args = with_token M (ag_Token args) formulateJWTError (mw_RestoreSysconfig M)"

definition RPC_RestoreHSMSecret :: "'s Middleware \<Rightarrow> AuthGenericRequest \<Rightarrow> ('s, ErrorResponse) state" where
  "RPC_RestoreHSMSecret M args = with_token M (ag_Token args) formulateJWTError (mw_RestoreHSMSecret M)"

definition RPC_UserAuthenticate :: "'s Middleware \<Rightarrow> UserAuthenticateArgs \<Rightarrow> ('s, UserAuthenticateResponse) state" where
  "RPC_UserAuthenticate M args = mw_UserAuthenticate M args"

definition RPC_UserChangePassword :: "'s Middleware \<Rightarrow> UserChangePasswordArgs \<Rightarrow> ('s, ErrorResponse) state" where
  "RPC_UserChangePassword M args = with_token M (cp_Token args) formulateJWTError (mw_UserChangePassword M args)"

definition RPC_SetHostname :: "'s Middleware \<Rightarrow> SetHostnameArgs \<Rightarrow> ('s, ErrorResponse go) state" where
  "RPC_SetHostname M args = with_token M (sh_Token args) (Ret formulateJWTError) (mw_SetHostname M args)"

definition RPC_EnableTor :: "'s Middleware \<Rightarrow> ToggleSettingArgs \<Rightarrow> ('s, ErrorResponse) state" where
  "RPC_EnableTor M args = with_token M (ts_Token args) formulateJWTError (mw_EnableTor M args)"

definition RPC_EnableTorMiddleware :: "'s Middleware \<Rightarrow> ToggleSettingArgs \<Rightarrow> ('s, ErrorResponse) state" where
  "RPC_EnableTorMiddleware M args = with_token M (ts_Token args) formulateJWTError (mw_EnableTorMiddleware M args)"

definition RPC_EnableTorElectrs :: "'s Middleware \<Rightarrow> ToggleSettingArgs \<Rightarrow> ('s, ErrorResponse) state" where
  "RPC_EnableTorElectrs M args = with_token M (ts_Token args) formulateJWTError (mw_EnableTorElectrs M args)"

definition RPC_EnableTorSSH :: "'s Middleware \<Rightarrow> ToggleSettingArgs \<Rightarrow> ('s, ErrorResponse) state" where
  "RPC_EnableTorSSH M args = with_token M (ts_Token args) formulateJWTError (mw_EnableTorSSH M args)"

definition RPC_EnableClearnetIBD :: "'s Middleware \<Rightarrow> ToggleSettingArgs \<Rightarrow> ('s, ErrorResponse) state" where
  "RPC_EnableClearnetIBD M args = with_token M (ts_Token args) formulateJWTError (mw_EnableClearnetIBD M args)"

definition RPC_ShutdownBase :: "'s Middleware \<Rightarrow> AuthGenericRequest \<Rightarrow> ('s, ErrorResponse) state" where
  "RPC_ShutdownBase M args = with_token M (ag_Token args) formulateJWTError (mw_ShutdownBase M)"

definition RPC_RebootBase :: "'s Middleware \<Rightarrow> AuthGenericRequest \<Rightarrow> ('s, ErrorResponse) state" where
  "RPC_RebootBase M args = with_token M (ag_Token args) formulateJWTError (mw_RebootBase M)"

definition RPC_EnableRootLogin :: "'s Middleware \<Rightarrow> ToggleSettingArgs \<Rightarrow> ('s, ErrorResponse) state" where
  "RPC_EnableRootLogin M args = with_token M (ts_Token args) formulateJWTError (mw_EnableRootLogin M args)"

definition RPC_EnableSSHPasswordLogin :: "'s Middleware \<Rightarrow> ToggleSettingArgs \<Rightarrow> ('s, ErrorResponse) state" where
  "RPC_EnableSSHPasswordLogin M args = with_token M (ts_Token args) formulateJWTError (mw_EnableSSHPasswordLogin M args)"

definition RPC_SetLoginPassword :: "'s Middleware \<Rightarrow> SetLoginPasswordArgs \<Rightarrow> ('s, ErrorResponse) state" where
  "RPC_SetLoginPassword M args = with_token M (lp_Token args) formulateJWTError (mw_SetLoginPassword M args)"

definition RPC_GetBaseInfo :: "'s Middleware \<Rightarrow> AuthGenericRequest \<Rightarrow> ('s, GetBaseInfoResponse) state" where
  "RPC_GetBaseInfo M args = with_token M (ag_Token args) (base_info_error formulateJWTError) (mw_GetBaseInfo M)"

definition RPC_GetServiceInfo :: "'s Middleware \<Rightarrow> AuthGenericRequest \<Rightarrow> ('s, GetServiceInfoResponse) state" where
  "RPC_GetServiceInfo M args = with_token M (ag_Token args) (service_info_error formulateJWTError) (mw_GetServiceInfo M)"

definition RPC_GetServiceStatus :: "'s Middleware \<Rightarrow> ('s, GetServiceStatusResponse) state" where
  "RPC_GetServiceStatus M = mw_GetServiceStatus M"

definition RPC_UpdateBase :: "'s Middleware \<Rightarrow> UpdateBaseArgs \<Rightarrow> ('s, ErrorResponse) state" where
  "RPC_UpdateBase M args = with_token M (ub_Token args) formulateJWTError (mw_UpdateBase M args)"

definition RPC_GetBaseUpdateProgress :: "'s Middleware \<Rightarrow> AuthGenericRequest \<Rightarrow> ('s, GetBaseUpdateProgressResponse) state" where
  "RPC_GetBaseUpdateProgress M args = with_token M (ag_Token args) (update_progress_error formulateJWTError) (mw_GetBaseUpdateProgress M)"

definition RPC_IsBaseUpdateAvailable :: "'s Middleware \<Rightarrow> AuthGenericRequest \<Rightarrow> ('s, IsBaseUpdateAvailableResponse) state" where
  "RPC_IsBaseUpdateAvailable M args = with_token M (ag_Token args) (update_available_error formulateJWTError) (mw_IsBaseUpdateAvailable M)"

definition RPC_FinalizeSetupWizard :: "'s Middleware \<Rightarrow> AuthGenericRequest \<Rightarrow> ('s, ErrorResponse) state" where
  "RPC_FinalizeSetupWizard M args = with_token M (ag_Token args) formulateJWTError (mw_FinalizeSetupWizard M)"

subsection \<open>Dispatch\<close>

datatype rpc_call =
    Call_GetSetupStatus
  | Call_GetSystemEnv AuthGenericRequest
  | Call_ReindexBitcoin AuthGenericRequest
  | Call_ResyncBitcoin AuthGenericRequest
  | Call_BackupSysconfig AuthGenericRequest
  | Call_BackupHSMSecret AuthGenericRequest
  | Call_RestoreSysconfig AuthGenericRequest
  | Call_RestoreHSMSecret AuthGenericRequest
  | Call_UserAuthenticate UserAuthenticateArgs
  | Call_UserChangePassword UserChangePasswordArgs
  | Call_SetHostname SetHostnameArgs
  | Call_EnableTor ToggleSettingArgs
  | Call_EnableTorMiddleware ToggleSettingArgs
  | Call_EnableTorElectrs ToggleSettingArgs
  | Call_EnableTorSSH ToggleSettingArgs
  | Call_EnableClearnetIBD ToggleSettingArgs
  | Call_ShutdownBase AuthGenericRequest
  | Call_RebootBase AuthGenericRequest
  | Call_EnableRootLogin ToggleSettingArgs
  | Call_EnableSSHPasswordLogin ToggleSettingArgs
  | Call_SetLoginPassword SetLoginPasswordArgs
  | Call_GetBaseInfo AuthGenericRequest
  | Call_GetServiceInfo AuthGenericRequest
  | Call_GetServiceStatus
  | Call_UpdateBase UpdateBaseArgs
  | Call_GetBaseUpdateProgress AuthGenericRequest
  | Call_IsBaseUpdateAvailable AuthGenericRequest
  | Call_FinalizeSetupWizard AuthGenericRequest

datatype rpc_reply =
    ReplyError ErrorResponse
  | ReplyEnv GetEnvResponse
  | ReplyBaseInfo GetBaseInfoResponse
  | ReplyServiceInfo GetServiceInfoResponse
  | ReplyUpdateProgress GetBaseUpdateProgressResponse
  | ReplyUpdateAvailable IsBaseUpdateAvailableResponse
  | ReplySetupStatus SetupStatusResponse
  | ReplyUserAuthenticate UserAuthenticateResponse
  | ReplyServiceStatus GetServiceStatusResponse

definition replied :: "('a \<Rightarrow> rpc_reply) \<Rightarrow> ('s, 'a) state \<Rightarrow> ('s, rpc_reply go) state" where
  "replied c m = State_Monad.bind m (\<lambda>r. State_Monad.return (Ret (c r)))"

definition map_go :: "('a \<Rightarrow> 'b) \<Rightarrow> 'a go \<Rightarrow> 'b go" where
  "map_go f r = (case r of Ret x \<Rightarrow> Ret (f x) | Panic \<Rightarrow> Panic)"

fun rpc_dispatch :: "'s Middleware \<Rightarrow> rpc_call \<Rightarrow> ('s, rpc_reply go) state" where
  "rpc_dispatch M Call_GetSetupStatus = replied ReplySetupStatus (RPC_GetSetupStatus M)"
| "rpc_dispatch M (Call_GetSystemEnv args) = replied ReplyEnv (RPC_GetSystemEnv M args)"
| "rpc_dispatch M (Call_ReindexBitcoin args) = replied ReplyError (RPC_ReindexBitcoin M args)"
| "rpc_dispatch M (Call_ResyncBitcoin args) = replied ReplyError (RPC_ResyncBitcoin M args)"
| "rpc_dispatch M (Call_BackupSysconfig args) = replied ReplyError (RPC_BackupSysconfig M args)"
| "rpc_dispatch M (Call_BackupHSMSecret args) = replied ReplyError (RPC_BackupHSMSecret M args)"
| "rpc_dispatch M (Call_RestoreSysconfig args) = replied ReplyError (RPC_RestoreSysconfig M args)"
| "rpc_dispatch M (Call_RestoreHSMSecret args) = replied ReplyError (RPC_RestoreHSMSecret M args)"
| "rpc_dispatch M (Call_UserAuthenticate args) = replied ReplyUserAuthenticate (RPC_UserAuthenticate M args)"
| "rpc_dispatch M (Call_UserChangePassword args) = replied ReplyError (RPC_UserChangePassword M args)"
| "rpc_dispatch M (Call_SetHostname args) = State_Monad.bind (RPC_SetHostname M args) (\<lambda>r. State_Monad.return (map_go ReplyError r))"
| "rpc_dispatch M (Call_EnableTor args) = replied ReplyError (RPC_EnableTor M args)"
| "rpc_dispatch M (Call_EnableTorMiddleware args) = replied ReplyError (RPC_EnableTorMiddleware M args)"
| "rpc_dispatch M (Call_EnableTorElectrs args) = replied ReplyError (RPC_EnableTorElectrs M args)"
| "rpc_dispatch M (Call_EnableTorSSH args) = replied ReplyError (RPC_EnableTorSSH M args)"
| "rpc_dispatch M (Call_EnableClearnetIBD args) = replied ReplyError (RPC_EnableClearnetIBD M args)"
| "rpc_dispatch M (Call_ShutdownBase args) = replied ReplyError (RPC_ShutdownBase M args)"
| "rpc_dispatch M (Call_RebootBase args) = replied ReplyError (RPC_RebootBase M args)"
| "rpc_dispatch M (Call_EnableRootLogin args) = replied ReplyError (RPC_EnableRootLogin M args)"
| "rpc_dispatch M (Call_EnableSSHPasswordLogin args) = replied ReplyError (RPC_EnableSSHPasswordLogin M args)"
| "rpc_dispatch M (Call_SetLoginPassword args) = replied ReplyError (RPC_SetLoginPassword M args)"
| "rpc_dispatch M (Call_GetBaseInfo args) = replied ReplyBaseInfo (RPC_GetBaseInfo M args)"
| "rpc_dispatch M (Call_GetServiceInfo args) = replied ReplyServiceInfo (RPC_GetServiceInfo M args)"
| "rpc_dispatch M Call_GetServiceStatus = replied ReplyServiceStatus (RPC_GetServiceStatus M)"
| "rpc_dispatch M (Call_UpdateBase args) = replied ReplyError (RPC_UpdateBase M args)"
| "rpc_dispatch M (Call_GetBaseUpdateProgress args) = replied ReplyUpdateProgress (RPC_GetBaseUpdateProgress M args)"
| "rpc_dispatch M (Call_IsBaseUpdateAvailable args) = replied ReplyUpdateAvailable (RPC_IsBaseUpdateAvailable M args)"
| "rpc_dispatch M (Call_FinalizeSetupWizard args) = replied ReplyError (RPC_FinalizeSetupWizard M args)"

text \<open>The token a request carries, where it carries one.\<close>

fun token_of :: "rpc_call \<Rightarrow> string option" where
  "token_of Call_GetSetupStatus = None"
| "token_of (Call_GetSystemEnv args) = Some (ag_Token args)"
| "token_of (Call_ReindexBitcoin args) = Some (ag_Token args)"
| "token_of (Call_ResyncBitcoin args) = Some (ag_Token args)"
| "token_of (Call_BackupSysconfig args) = Some (ag_Token args)"
| "token_of (Call_BackupHSMSecret args) = Some (ag_Token args)"
| "token_of (Call_RestoreSysconfig args) = Some (ag_Token args)"
| "token_of (Call_RestoreHSMSecret args) = Some (ag_Token args)"
| "token_of (Call_UserAuthenticate args) = None"
| "token_of (Call_UserChangePassword args) = Some (cp_Token args)"
| "token_of (Call_SetHostname args) = Some (sh_Token args)"
| "token_of (Call_EnableTor args) = Some (ts_Token args)"
| "token_of (Call_EnableTorMiddleware args) = Some (ts_Token args)"
| "token_of (Call_EnableTorElectrs args) = Some (ts_Token args)"
| "token_of (Call_EnableTorSSH args) = Some (ts_Token args)"
| "token_of (Call_EnableClearnetIBD args) = Some (ts_Token args)"
| "token_of (Call_ShutdownBase args) = Some (ag_Token args)"
| "token_of (Call_RebootBase args) = Some (ag_Token args)"
| "token_of (Call_EnableRootLogin args) = Some (ts_Token args)"
| "token_of (Call_EnableSSHPasswordLogin args) = Some (ts_Token args)"
| "token_of (Call_SetLoginPassword args) = Some (lp_Token args)"
| "token_of (Call_GetBaseInfo args) = Some (ag_Token args)"
| "token_of (Call_GetServiceInfo args) = Some (ag_Token args)"
| "token_of Call_GetServiceStatus = None"
| "token_of (Call_UpdateBase args) = Some (ub_Token args)"
| "token_of (Call_GetBaseUpdateProgress args) = Some (ag_Token args)"
| "token_of (Call_IsBaseUpdateAvailable args) = Some (ag_Token args)"
| "token_of (Call_FinalizeSetupWizard args) = Some (ag_Token args)"

text \<open>The reply to a request with an invalid token.\<close>

fun refusal_of :: "rpc_call \<Rightarrow> rpc_reply" where
  "refusal_of (Call_GetSystemEnv args) = ReplyEnv empty_env"
| "refusal_of (Call_GetBaseInfo args) = ReplyBaseInfo (base_info_error formulateJWTError)"
| "refusal_of (Call_GetServiceInfo args) = ReplyServiceInfo (service_info_error formulateJWTError)"
| "refusal_of (Call_GetBaseUpdateProgress args) = ReplyUpdateProgress (update_progress_error formulateJWTError)"
| "refusal_of (Call_IsBaseUpdateAvailable args) = ReplyUpdateAvailable (update_available_error formulateJWTError)"
| "refusal_of _ = ReplyError formulateJWTError"

text \<open>The call that is passed on when the token is accepted.\<close>

fun backend_call :: "'s Middleware \<Rightarrow> rpc_call \<Rightarrow> ('s, rpc_reply go) state" where
  "backend_call M Call_GetSetupStatus = replied ReplySetupStatus (mw_SetupStatus M)"
| "backend_call M (Call_GetSystemEnv args) = replied ReplyEnv (mw_SystemEnv M)"
| "backend_call M (Call_ReindexBitcoin args) = replied ReplyError (mw_ReindexBitcoin M)"
| "backend_call M (Call_ResyncBitcoin args) = replied ReplyError (mw_ResyncBitcoin M)"
| "backend_call M (Call_BackupSysconfig args) = replied ReplyError (mw_BackupSysconfig M)"
| "backend_call M (Call_BackupHSMSecret args) = replied ReplyError (mw_BackupHSMSecret M)"
| "backend_call M (Call_RestoreSysconfig args) = replied ReplyError (mw_RestoreSysconfig M)"
| "backend_call M (Call_RestoreHSMSecret args) = replied ReplyError (mw_RestoreHSMSecret M)"
| "backend_call M (Call_UserAuthenticate args) = replied ReplyUserAuthenticate (mw_UserAuthenticate M args)"
| "backend_call M (Call_UserChangePassword args) = replied ReplyError (mw_UserChangePassword M args)"
| "backend_call M (Call_SetHostname args) = State_Monad.bind (mw_SetHostname M args) (\<lambda>r. State_Monad.return (map_go ReplyError r))"
| "backend_call M (Call_EnableTor args) = replied ReplyError (mw_EnableTor M args)"
| "backend_call M (Call_EnableTorMiddleware args) = replied ReplyError (mw_EnableTorMiddleware M args)"
| "backend_call M (Call_EnableTorElectrs args) = replied ReplyError (mw_EnableTorElectrs M args)"
| "backend_call M (Call_EnableTorSSH args) = replied ReplyError (mw_EnableTorSSH M args)"
| "backend_call M (Call_EnableClearnetIBD args) = replied ReplyError (mw_EnableClearnetIBD M args)"
| "backend_call M (Call_ShutdownBase args) = replied ReplyError (mw_ShutdownBase M)"
| "backend_call M (Call_RebootBase args) = replied ReplyError (mw_RebootBase M)"
| "backend_call M (Call_EnableRootLogin args) = replied ReplyError (mw_EnableRootLogin M args)"
| "backend_call M (Call_EnableSSHPasswordLogin args) = replied ReplyError (mw_EnableSSHPasswordLogin M args)"
| "backend_call M (Call_SetLoginPassword args) = replied ReplyError (mw_SetLoginPassword M args)"
| "backend_call M (Call_GetBaseInfo args) = replied ReplyBaseInfo (mw_GetBaseInfo M)"
| "backend_call M (Call_GetServiceInfo args) = replied ReplyServiceInfo (mw_GetServiceInfo M)"
| "backend_call M Call_GetServiceStatus = replied ReplyServiceStatus (mw_GetServiceStatus M)"
| "backend_call M (Call_UpdateBase args) = replied ReplyError (mw_UpdateBase M args)"
| "backend_call M (Call_GetBaseUpdateProgress args) = replied ReplyUpdateProgress (mw_GetBaseUpdateProgress M)"
| "backend_call M (Call_IsBaseUpdateAvailable args) = replied ReplyUpdateAvailable (mw_IsBaseUpdateAvailable M)"
| "backend_call M (Call_FinalizeSetupWizard args) = replied ReplyError (mw_FinalizeSetupWizard M)"

subsection \<open>The middleware as backend\<close>

definition middleware_backend :: "'w env \<Rightarrow> 'w middleware Middleware" where
  "middleware_backend E = \<lparr>
     mw_BackupHSMSecret = BackupHSMSecret E,
     mw_BackupSysconfig = BackupSysconfig E,
     mw_EnableClearnetIBD = EnableClearnetIBD E,
     mw_EnableRootLogin = EnableRootLogin E,
     mw_EnableSSHPasswordLogin = EnableSSHPasswordLogin E,
     mw_EnableTor = EnableTor E,
     mw_EnableTorElectrs = EnableTorElectrs E,
     mw_EnableTorMiddleware = EnableTorMiddleware E,
     mw_EnableTorSSH = EnableTorSSH E,
     mw_FinalizeSetupWizard = FinalizeSetupWizard E,
     mw_GetBaseInfo = GetBaseInfo E,
     mw_GetBaseUpdateProgress = GetBaseUpdateProgress,
     mw_GetServiceInfo = GetServiceInfo,
     mw_GetServiceStatus = GetServiceStatus E,
     mw_IsBaseUpdateAvailable = IsBaseUpdateAvailable,
     mw_RebootBase = RebootBase E,
     mw_ReindexBitcoin = ReindexBitcoin E,
     mw_RestoreHSMSecret = RestoreHSMSecret E,
     mw_RestoreSysconfig = RestoreSysconfig E,
     mw_ResyncBitcoin = ResyncBitcoin E,
     mw_SetHostname = SetHostname E,
     mw_SetLoginPassword = SetLoginPassword E,
     mw_SetupStatus = SetupStatus,
     mw_ShutdownBase = ShutdownBase E,
     mw_SystemEnv = SystemEnv,
     mw_UpdateBase = UpdateBase E,
     mw_UserAuthenticate = UserAuthenticate E,
     mw_UserChangePassword = UserChangePassword E,
     mw_ValidateToken = ValidateToken E\<rparr>"

subsection \<open>The gate\<close>

lemmas rpc_defs = RPC_GetSetupStatus_def RPC_GetSystemEnv_def RPC_ReindexBitcoin_def RPC_ResyncBitcoin_def
  RPC_BackupSysconfig_def RPC_BackupHSMSecret_def RPC_RestoreSysconfig_def RPC_RestoreHSMSecret_def
  RPC_UserAuthenticate_def RPC_UserChangePassword_def RPC_SetHostname_def RPC_EnableTor_def
  RPC_EnableTorMiddleware_def RPC_EnableTorElectrs_def RPC_EnableTorSSH_def RPC_EnableClearnetIBD_def
  RPC_ShutdownBase_def RPC_RebootBase_def RPC_EnableRootLogin_def RPC_EnableSSHPasswordLogin_def
  RPC_SetLoginPassword_def RPC_GetBaseInfo_def RPC_GetServiceInfo_def RPC_GetServiceStatus_def
  RPC_UpdateBase_def RPC_GetBaseUpdateProgress_def RPC_IsBaseUpdateAvailable_def RPC_FinalizeSetupWizard_def

locale rpc_backend =
  fixes M :: "'s Middleware" and accepts :: "'s \<Rightarrow> string \<Rightarrow> bool"
  assumes validate: "run_state (mw_ValidateToken M token) s = (err, s') \<Longrightarrow>
    s' = s \<and> (err = None \<longleftrightarrow> accepts s token)"
begin

lemma run_with_token:
  "run_state (with_token M token refusal m) s =
    (if accepts s token then run_state m s else (refusal, s))"
proof -
  obtain err s' where v: "run_state (mw_ValidateToken M token) s = (err, s')" by fastforce
  from validate [OF v] v show ?thesis by (auto simp: with_token_def split: option.splits)
qed

lemma refused:
  "token_of c = Some t \<Longrightarrow> \<not> accepts s t \<Longrightarrow> run_state (rpc_dispatch M c) s = (Ret (refusal_of c), s)"
  by (cases c) (simp_all add: rpc_defs replied_def map_go_def run_with_token)

lemma passed_on:
  "token_of c = Some t \<Longrightarrow> accepts s t \<Longrightarrow> run_state (rpc_dispatch M c) s = run_state (backend_call M c) s"
  by (cases c) (simp_all add: rpc_defs replied_def map_go_def run_with_token)

lemma unauthenticated:
  "token_of c = None \<Longrightarrow> rpc_dispatch M c = backend_call M c"
  by (cases c) (simp_all add: rpc_defs)

lemma dispatch:
  "run_state (rpc_dispatch M c) s =
    (case token_of c of
       None \<Rightarrow> run_state (backend_call M c) s
     | Some t \<Rightarrow> if accepts s t then run_state (backend_call M c) s else (Ret (refusal_of c), s))"
  using refused passed_on unauthenticated by (simp split: option.splits)

text \<open>Frames of the operations behind the gate are frames of the server.\<close>

lemma keeps_dispatch: "keeps f (backend_call M c) \<Longrightarrow> keeps f (rpc_dispatch M c)"
  by (auto simp: keeps_def dispatch split: option.splits)

end

definition accepts_token :: "'w env \<Rightarrow> 'w middleware \<Rightarrow> string \<Rightarrow> bool" where
  "accepts_token E s token \<longleftrightarrow> ValidateToken_at E (jwtKey s) token (clock E (world s)) = None"

interpretation served: rpc_backend "middleware_backend E" "accepts_token E" for E
  by unfold_locales (auto simp: middleware_backend_def ValidateToken_def jwt_ValidateToken_def accepts_token_def)

definition unauthenticated_calls :: "rpc_call \<Rightarrow> bool" where
  "unauthenticated_calls c \<longleftrightarrow>
     c = Call_GetSetupStatus \<or> c = Call_GetServiceStatus \<or> (\<exists>args. c = Call_UserAuthenticate args)"

lemma token_of_None: "token_of c = None \<longleftrightarrow> unauthenticated_calls c"
  by (cases c) (simp_all add: unauthenticated_calls_def)

subsection \<open>Properties\<close>


end
