(* ===== verification/System.thy ===== *)
theory System
  imports Rpcserver
begin

text \<open>
  The running middleware as a state machine.  A state is the struct with the outside world; a
  step is one RPC served to its end, one round of a background loop that \<open>Start\<close> launched, one
  notification of another process, a pairing confirmation, or a change of the outside world
  (other processes, users, the passage of time).  \<open>base_step\<close> orders them in every possible
  way; the steps themselves are not interleaved here (the theory \<open>Update_Threads\<close> interleaves
  concurrent calls of \<open>UpdateBase\<close>).

  Lemma groups: \<open>stable\<close> observations and the frame of every RPC and round; what never changes
  while the middleware runs; the update state between calls.
\<close>

subsection \<open>Steps\<close>

definition reply_step :: "'w env \<Rightarrow> rpc_call \<Rightarrow> ('w, rpc_reply go) mw" where
  "reply_step E c = rpc_dispatch (middleware_backend E) c"

inductive base_step :: "'w env \<Rightarrow> 'w middleware \<Rightarrow> 'w middleware \<Rightarrow> bool" for E where
  rpc: "run_state (reply_step E c) s = (Ret reply, s') \<Longrightarrow> base_step E s s'"
| service_loop: "run_state (rpcLoop_round E) s = (u, s') \<Longrightarrow> base_step E s s'"
| update_check: "run_state (updateCheck E) s = (Ret u, s') \<Longrightarrow> base_step E s s'"
| notification: "run_state (ipcNotification_round n) s = (u, s') \<Longrightarrow> base_step E s s'"
| heartbeat: "hsmPresent s \<Longrightarrow> run_state (hsmHeartbeat_round E) s = (u, s') \<Longrightarrow> base_step E s s'"
| pairing: "run_state (VerifyAppMiddlewarePairing E hash) s = (r, s') \<Longrightarrow> base_step E s s'"
| outside: "base_step E s (s\<lparr>world := w\<rparr>)"

inductive_cases base_stepE: "base_step E s s'"

definition later :: "'w env \<Rightarrow> 'w middleware \<Rightarrow> 'w middleware \<Rightarrow> bool" where
  "later E = (base_step E)\<^sup>*\<^sup>*"

lemma later_refl [simp]: "later E s s"
  by (simp add: later_def)

text \<open>Invariants of the steps hold in every later state.\<close>

lemma later_invariant:
  assumes "later E s s'" "I s" "\<And>t t'. base_step E t t' \<Longrightarrow> I t \<Longrightarrow> I t'"
  shows "I s'"
  using assms(1) unfolding later_def by (induction rule: rtranclp_induct) (use assms(2,3) in blast)+

lemma later_keeps:
  assumes "later E s s'" "\<And>t t'. base_step E t t' \<Longrightarrow> f t' = f t"
  shows "f s' = f s"
  using later_invariant [where I = "\<lambda>t. f t = f s", OF assms(1)] assms(2) by auto

subsection \<open>Frames\<close>

text \<open>
  \<open>fixed\<close>: what no step changes.  \<open>core\<close>: that and the update state, which only \<open>UpdateBase\<close>
  changes.
\<close>

definition fixed :: "'w middleware \<Rightarrow> configuration \<times> string \<times> string \<times> semver option \<times> bool" where
  "fixed s = (config s, prometheusClient s, jwtKey s, baseVersion s, hsmPresent s)"

definition core ::
  "'w middleware \<Rightarrow> (configuration \<times> string \<times> string \<times> semver option \<times> bool) \<times> GetBaseUpdateProgressResponse" where
  "core s = (fixed s, baseUpdateProgress s)"

lemma core_simps [simp]:
  "core (s\<lparr>world := w\<rparr>) = core s"
  "core (s\<lparr>world := w, trace := t\<rparr>) = core s" "core (s\<lparr>trace := t\<rparr>) = core s" "core (s\<lparr>serviceInfo := i\<rparr>) = core s"
  "core (s\<lparr>baseUpdateAvailable := a\<rparr>) = core s" "core (s\<lparr>isMiddlewarePasswordSet := b\<rparr>) = core s"
  "core (s\<lparr>isBaseSetupDone := b\<rparr>) = core s"
  unfolding core_def fixed_def by simp_all

lemma untouched_core [simp]: "untouched_by_redis core" "untouched_by_redis fixed"
  unfolding untouched_by_redis_def core_def fixed_def by simp_all

lemma keeps_core_fixed: "keeps core m \<Longrightarrow> keeps fixed m"
  unfolding keeps_def core_def by blast

lemma keeps_core_progress: "keeps core m \<Longrightarrow> keeps baseUpdateProgress m"
  unfolding keeps_def core_def by blast

lemma keeps_core_setup [keeps_intros]: "keeps core (checkMiddlewareSetup E)"
  unfolding checkMiddlewareSetup_def by (intro keeps_intros) simp_all

lemma keeps_core_auth [keeps_intros]:
  "keeps core (UserAuthenticate E args)" "keeps core (store_new_password E m u cp)"
  "keeps core (UserChangePassword E cp)"
  unfolding UserAuthenticate_def UserChangePassword_def store_new_password_def GenerateToken_def Let_def
  by (intro keeps_intros; simp)+

lemma keeps_core_read_string [keeps_intros]:
  "(\<And>v. keeps core (k v)) \<Longrightarrow> keeps core (read_redis_string E key k)"
  "(\<And>v. keeps core (h v)) \<Longrightarrow> keeps core (or_prometheus_error E r h)"
  unfolding read_redis_string_def or_prometheus_error_def by (intro keeps_intros; simp)+

lemma keeps_core_reads [keeps_intros]:
  "keeps core (getServiceInfo E)" "keeps core (GetServiceStatus E)" "keeps core (GetBaseInfo E)"
  unfolding getServiceInfo_def GetServiceStatus_def GetBaseInfo_def if_distribR
  by (intro keeps_intros; simp)+

lemma keeps_go:
  "keeps f g \<Longrightarrow> (\<And>x. keeps f (h x)) \<Longrightarrow> keeps f (case r of Ret x \<Rightarrow> h x | Panic \<Rightarrow> g)"
  "keeps f g \<Longrightarrow> keeps f h' \<Longrightarrow> keeps f (case b of True \<Rightarrow> g | False \<Rightarrow> h')"
  by (cases r; simp) (cases b; simp)

lemma keeps_core_rounds [keeps_intros]:
  "keeps core (rpcLoop_round E)" "keeps core (updateCheck E)" "keeps core (ipcNotification_round n)"
  "keeps core (hsmHeartbeat_round E)" "keeps core (VerifyAppMiddlewarePairing E h)"
  unfolding rpcLoop_round_def didServiceInfoChange_def updateCheck_def getBaseUpdateInfo_def http_Get_def
    announce_update_def ipcNotification_round_def hsmHeartbeat_round_def VerifyAppMiddlewarePairing_def
  by (intro keeps_intros keeps_go; simp)+


lemma keeps_core_backend:
  assumes "\<And>args. c \<noteq> Call_UpdateBase args"
  shows "keeps core (backend_call (middleware_backend E) c)"
  using assms
  by (cases c; simp add: middleware_backend_def replied_def script_rpc_defs SetupStatus_def SystemEnv_def
      GetServiceInfo_def GetBaseUpdateProgress_def IsBaseUpdateAvailable_def RebootBase_def ShutdownBase_def;
      intro keeps_intros; simp)

lemma fixed_upd [simp]:
  "fixed (s\<lparr>baseUpdateProgress := p\<rparr>) = fixed s" "fixed (s\<lparr>trace := t\<rparr>) = fixed s"
  "fixed (s\<lparr>world := w, trace := t\<rparr>) = fixed s" "fixed (s\<lparr>world := w\<rparr>) = fixed s"
  "fixed (s\<lparr>baseUpdateProgress := p, trace := t\<rparr>) = fixed s"
  unfolding fixed_def by simp_all

lemma keeps_fixed_UpdateBase: "keeps fixed (UpdateBase E args)"
proof -
  have [keeps_intros]: "keeps fixed (process_lines ls)" "keeps fixed (setBaseUpdateStateAndNotify st)" for ls st
    by (simp_all add: keeps_def run_process_lines run_notify)
  show ?thesis
    unfolding UpdateBase_def finish_update_def RebootBase_def Let_def by (intro keeps_intros; simp)
qed

lemma keeps_fixed_rpc: "keeps fixed (reply_step E c)"
proof (cases "\<exists>args. c = Call_UpdateBase args")
  case True
  then show ?thesis
    unfolding reply_step_def
    by (intro served.keeps_dispatch) (auto simp: middleware_backend_def replied_def
        intro!: keeps_intros keeps_fixed_UpdateBase)
next
  case False
  then show ?thesis
    unfolding reply_step_def
    by (intro served.keeps_dispatch keeps_core_fixed keeps_core_backend) blast
qed

lemmas rounds_core = keeps_core_rounds [THEN keepsD]

lemma base_step_core:
  assumes "base_step E s s'"
  obtains (same) "core s' = core s" | (rpc) c reply where "run_state (reply_step E c) s = (Ret reply, s')"
  using assms by (cases rule: base_step.cases) (blast dest: rounds_core | simp)+

lemma base_step_fixed:
  assumes "base_step E s s'"
  shows "fixed s' = fixed s"
  using assms
proof (cases rule: base_step_core)
  case same
  then show ?thesis unfolding core_def by blast
next
  case (rpc c reply)
  with keepsD [OF keeps_fixed_rpc] show ?thesis by blast
qed

lemma later_fixed: "later E s s' \<Longrightarrow> fixed s' = fixed s"
  by (rule later_keeps [OF _ base_step_fixed])


subsection \<open>The update state between calls\<close>

definition at_rest :: "'w middleware \<Rightarrow> bool" where
  "at_rest s \<longleftrightarrow> UpdateState (baseUpdateProgress s) \<noteq> UpdateDownloading \<and>
     UpdateState (baseUpdateProgress s) \<noteq> UpdateApplying"

lemma UpdateBase_states:
  assumes "run_state (UpdateBase E args) s = (r, s')"
  shows "baseUpdateProgress s' = baseUpdateProgress s \<or>
    UpdateState (baseUpdateProgress s) \<noteq> UpdateRebooting \<and>
    UpdateState (baseUpdateProgress s') \<in> {UpdateFailed, UpdateRebooting}"
proof (cases "update_in_progress (UpdateState (baseUpdateProgress s))")
  case True
  then show ?thesis using assms by (simp add: UpdateBase_def)
next
  case idle: False
  obtain run w where x: "exec_update E (bbbCmdScript (config s)) (installer_args args) (world s) = (run, w)"
    by fastforce
  let ?s1 = "s\<lparr>world := w, baseUpdateProgress := fold line_step (stdout_lines run) (baseUpdateProgress s),
    trace := trace s @ Exec (bbbCmdScript (config s)) (installer_args args) #
      replicate (length (progress_lines (stdout_lines run))) progress_changed\<rparr>"
  obtain resp s2 where f: "run_state (finish_update E run) ?s1 = (resp, s2)" by fastforce
  have "UpdateState (baseUpdateProgress s2) \<in> {UpdateFailed, UpdateRebooting}"
    by (simp add: run_finish_update(1) [OF f])
  moreover have "baseUpdateProgress s' = baseUpdateProgress s \<or> s' = s2 \<or>
      UpdateState (baseUpdateProgress s') = UpdateFailed"
    using assms x f idle
    by (simp add: UpdateBase_def GetBBBCmdScript_def installer_args_def run_process_lines run_notify
        split: if_splits)
      auto
  ultimately show ?thesis using idle by (auto simp: update_in_progress_def)
qed

text \<open>Only a call of \<open>UpdateBase\<close> that passed the gate changes the progress.\<close>

lemma base_step_progress:
  assumes "base_step E s s'"
  shows "baseUpdateProgress s' = baseUpdateProgress s \<or>
    (\<exists>args r. run_state (UpdateBase E args) s = (r, s'))"
  using assms
proof (cases rule: base_step_core)
  case same
  then show ?thesis unfolding core_def by blast
next
  case (rpc c reply)
  show ?thesis
  proof (cases "\<exists>args. c = Call_UpdateBase args")
    case True
    then obtain args where c: "c = Call_UpdateBase args" by blast
    have "backend_call (middleware_backend E) (Call_UpdateBase args) = replied ReplyError (UpdateBase E args)"
      by (simp add: middleware_backend_def)
    with rpc c have "s' = s \<or> s' = snd (run_state (UpdateBase E args) s)"
      unfolding reply_step_def served.dispatch by (auto simp: replied_def case_prod_beta split: if_splits)
    then show ?thesis by (metis prod.collapse)
  next
    case False
    then have "keeps core (reply_step E c)"
      unfolding reply_step_def by (intro served.keeps_dispatch keeps_core_backend) blast
    from keepsD [OF this rpc] show ?thesis unfolding core_def by blast
  qed
qed

lemma base_step_at_rest: "base_step E s s' \<Longrightarrow> at_rest s \<Longrightarrow> at_rest s'"
  using base_step_progress [of E s s'] UpdateBase_states [of E _ s _ s'] by (fastforce simp: at_rest_def)

lemma base_step_rebooting:
  "base_step E s s' \<Longrightarrow> baseUpdateProgress s = p \<Longrightarrow> UpdateState p = UpdateRebooting \<Longrightarrow> baseUpdateProgress s' = p"
  using base_step_progress [of E s s'] UpdateBase_states [of E _ s _ s'] by fastforce

subsection \<open>What a client without a token can cause\<close>

fun read_only :: "effect \<Rightarrow> bool" where
  "read_only (RedisDo cmd args) = (cmd = ''GET'')"
| "read_only (Exec cmd args) = (cmd = ''systemctl'' \<and> args \<noteq> [] \<and> hd args = ''is-active'')"
| "read_only _ = False"

lemma read_only_redis [emits_intros]:
  "emits read_only (redis_GetString E k)" "emits read_only (redis_GetBool E k)"
  unfolding redis_GetString_def redis_GetBool_def
  by (intro emits_via_client; simp only: Client_GetString_def Client_GetBool_def conn_Do_def;
      intro emits_intros; simp)+

lemma keeps_redis_reads [keeps_intros]:
  "keeps redisClient (redis_GetString E k)" "keeps redisClient (redis_GetBool E k)"
  by (auto simp: keeps_def redis_GetString_def redis_GetBool_def via_client_def Client_GetString_def
      Client_GetBool_def conn_Do_def split: redis_client.splits prod.splits)

lemma unauthenticated_reads_only:
  assumes "unauthenticated_calls c"
  shows "emits read_only (backend_call (middleware_backend E) c)"
    "keeps redisClient (backend_call (middleware_backend E) c)"
    "keeps core (backend_call (middleware_backend E) c)"
proof -
  show "emits read_only (backend_call (middleware_backend E) c)"
    using assms
    by (auto simp: unauthenticated_calls_def middleware_backend_def replied_def SetupStatus_def
        GetServiceStatus_def UserAuthenticate_def checkMiddlewareSetup_def getAuthStructure_def
        checkSystemdServiceStatus_def GenerateToken_def intro!: emits_intros)
  show "keeps redisClient (backend_call (middleware_backend E) c)"
    using assms
    by (auto simp: unauthenticated_calls_def middleware_backend_def replied_def SetupStatus_def
        GetServiceStatus_def UserAuthenticate_def checkMiddlewareSetup_def getAuthStructure_def
        checkSystemdServiceStatus_def GenerateToken_def intro!: keeps_intros)
  show "keeps core (backend_call (middleware_backend E) c)"
    by (rule keeps_core_backend) (use assms in \<open>auto simp: unauthenticated_calls_def\<close>)
qed

subsection \<open>Properties\<close>

text \<open>
  C4: What a login is worth: the token it hands out opens every RPC of the middleware in every
  later state until 24 hours after it was issued, and none afterwards.
\<close>

theorem login_then_authorised:
  assumes "jwt_library E" "store_valid E db s" "0 < clock E (world s')"
    and "run_state (UserAuthenticate E login) s = (r, s')" "logged_in r"
    and "later E s' s''" "token_of c = Some (ua_Token r)"
  shows "run_state (reply_step E c) s'' =
    (if clock E (world s'') \<le> clock E (world s') + token_lifetime
     then run_state (backend_call (middleware_backend E) c) s''
     else (Ret (refusal_of c), s''))"
proof -
  obtain u where u: "GenerateToken_at E (jwtKey s) u (clock E (world s')) = Inr (ua_Token r)"
    using UserAuthenticate_result(4) [OF assms(2,4,5)] by blast
  have "jwtKey s'' = jwtKey s"
    using later_fixed [OF assms(6)] UserAuthenticate_result(3) [OF assms(2,4)] by (simp add: fixed_def)
  with jwt.accepted_iff [OF assms(1) u assms(3), of "clock E (world s'')"] assms(7)
  show ?thesis by (simp add: reply_step_def served.dispatch accepts_token_def)
qed

lemma login_then_authorised_witness:
  "\<exists>r s'. run_state (UserAuthenticate sim_env demo_old_login) (demo demo_users_db) = (r, s') \<and> logged_in r \<and>
     run_state (reply_step sim_env (Call_GetServiceInfo \<lparr>ag_Token = ua_Token r\<rparr>))
         (s'\<lparr>world := (world s')\<lparr>sim_now := sim_now (world s') + 3600\<rparr>\<rparr>) =
       run_state (backend_call (middleware_backend sim_env) (Call_GetServiceInfo \<lparr>ag_Token = ua_Token r\<rparr>))
         (s'\<lparr>world := (world s')\<lparr>sim_now := sim_now (world s') + 3600\<rparr>\<rparr>)"
proof -
  obtain r s' where run: "run_state (UserAuthenticate sim_env demo_old_login) (demo demo_users_db) = (r, s')"
    by fastforce
  have "world s' = demo_world"
    using run by (auto simp: demo_run split: if_splits sum.splits)
  moreover have "later sim_env s' (s'\<lparr>world := (world s')\<lparr>sim_now := sim_now (world s') + 3600\<rparr>\<rparr>)"
    unfolding later_def by (intro r_into_rtranclp base_step.outside)
  moreover have "logged_in r" using demo_login_runs run by simp
  ultimately show ?thesis
    using run login_then_authorised [of sim_env sim_db, OF _ _ _ run, of _
        "Call_GetServiceInfo \<lparr>ag_Token = ua_Token r\<rparr>"]
    by (simp add: token_lifetime_def demo_world_def)
qed

lemma anonymous_step:
  assumes "\<not> (\<exists>t. token_of c = Some t \<and> accepts_token E s t)"
    and "run_state (rpc_dispatch (middleware_backend E) c) s = (reply, s')"
  shows "\<exists>es. trace s' = trace s @ es \<and> list_all read_only es \<and> redisClient s' = redisClient s \<and> core s' = core s"
proof (cases "unauthenticated_calls c")
  case True
  then have run: "run_state (backend_call (middleware_backend E) c) s = (reply, s')"
    using assms(2) token_of_None [of c] by (simp add: served.dispatch)
  note un = unauthenticated_reads_only [OF True, of E]
  from emitsD [OF un(1) run] keepsD [OF un(2) run] keepsD [OF un(3) run] show ?thesis by auto
next
  case False
  then have "s' = s"
    using assms token_of_None [of c] by (auto simp: served.dispatch split: option.splits if_splits)
  then show ?thesis by simp
qed

text \<open>
  A request that brings no valid token cannot change anything: it neither writes to Redis
  nor runs a script other than queries of the status of services, and the configuration, the
  key of the tokens, the HSM and the update state stay as they are.
\<close>

theorem anonymous_reads_only:
  assumes "\<not> (\<exists>t. token_of c = Some t \<and> accepts_token E s t)"
    and "run_state (reply_step E c) s = (reply, s')"
  shows "list_all read_only (new_effects s s') \<and> redisClient s' = redisClient s \<and> core s' = core s"
  using anonymous_step [OF assms(1), of reply s'] assms(2) by (auto simp: reply_step_def new_effects_def)

lemma anonymous_reads_only_witness:
  "list_all read_only (new_effects (demo demo_users_db)
    (snd (run_state (reply_step sim_env Call_GetServiceStatus) (demo demo_users_db))))"
  by (rule anonymous_reads_only [OF _ prod.collapse [symmetric], THEN conjunct1]) simp

text \<open>What holds when the middleware has been started.\<close>

lemma started:
  assumes "NewMiddleware E cfg hsm s0 = (None, s)" "run_state (Start E reader) s = (Ret loops, s1)"
  shows "at_rest s1" "config s1 = cfg" "hsmPresent s1 = hsm"
    "loops = (if hsm then [HsmHeartbeatLoop] else []) @ [RpcLoop, UpdateCheckLoop]
      @ (if reader then [IpcNotificationLoop] else [])"
proof -
  have [keeps_intros]: "keeps f (reset_admin E)"
    if "\<And>s w t. f (s\<lparr>world := w, trace := t\<rparr>) = f s" "untouched_by_redis f" for f :: "'a middleware \<Rightarrow> 'b"
    using that unfolding reset_admin_def by (intro keeps_intros) simp_all
  have [keeps_intros]: "keeps hsmPresent (checkMiddlewareSetup E)"
    using keeps_core_fixed [OF keeps_core_setup [of E]] unfolding keeps_def fixed_def by blast
  have init: "keeps baseUpdateProgress (init_middleware E)" "keeps config (init_middleware E)"
      "keeps hsmPresent (init_middleware E)"
    unfolding init_middleware_def by (intro keeps_intros; simp)+
  have start: "keeps baseUpdateProgress (Start E reader)" "keeps config (Start E reader)"
      "keeps hsmPresent (Start E reader)"
    unfolding Start_def by (intro keeps_intros keeps_go; simp)+
  from init assms(1) have "UpdateState (baseUpdateProgress s) = UpdateNotInProgress" "config s = cfg" "hsmPresent s = hsm"
    by (auto simp: NewMiddleware_def initial_struct_def dest: keepsD split: prod.splits)
  with start [THEN keepsD, OF assms(2)] show "at_rest s1" "config s1 = cfg" "hsmPresent s1 = hsm"
    by (simp_all add: at_rest_def)
  show "loops = (if hsm then [HsmHeartbeatLoop] else []) @ [RpcLoop, UpdateCheckLoop]
      @ (if reader then [IpcNotificationLoop] else [])"
    using assms(2) \<open>hsmPresent s = hsm\<close> by (auto simp: Start_def split: prod.splits go.splits)
qed

text \<open>
  C10: Whatever is called after start-up, and in whichever order: between calls no update is
  recorded as being downloaded or applied.
\<close>

theorem no_update_between_calls:
  assumes "NewMiddleware E cfg hsm s0 = (None, s)"
    and "run_state (Start E reader) s = (Ret loops, s1)" "later E s1 s'"
  shows "at_rest s'"
  using assms(3) started(1) [OF assms(1,2)] by (rule later_invariant [OF _ _ base_step_at_rest])

lemma no_update_between_calls_witness:
  "\<exists>s loops s1. NewMiddleware sim_env demo_config False \<lparr>world = demo_world, trace = []\<rparr> = (None, s) \<and>
     run_state (Start sim_env True) s = (Ret loops, s1) \<and> at_rest s1"
proof -
  obtain e s where new: "NewMiddleware sim_env demo_config False \<lparr>world = demo_world, trace = []\<rparr> = (e, s)"
    by fastforce
  have mock: "IsRedisMock demo_config" by (simp add: IsRedisMock_def)
  have ok: "e = None" "hsmPresent s = False"
      "\<exists>m. redisClient s = MockClient m \<and> go_lookup m ''base:version'' = ''0.0.1''"
    using new by (auto simp: NewMiddleware_def mock initial_struct_def NewMockClient_def demo_run setupTestData_def go_lookup_def)
  have "\<exists>x. semver_string sim_env (Some (0, 0, Suc 0)) = Ret x" by (simp add: sim_env_def)
  then obtain l s1 where start: "run_state (Start sim_env True) s = (Ret l, s1)"
    using ok(2,3) by (auto simp: Start_def setHSMConfig_def run_mock sim_semver_def)
  show ?thesis using no_update_between_calls [OF new [unfolded ok] start] new start ok by auto
qed



end
