(* ===== verification/Hsm.thy ===== *)
theory Hsm
  imports World
begin

text \<open>
  Connecting to the HSM (middleware/src/hsm: hsm.go, and the configuration of glue.go): finding out whether its firmware or its
  bootloader answers, rebooting it into the wanted one, and waiting for that within a bound.

  The serial port and the device API of \<open>bitbox02-api-go\<close> are parameters: a port \<open>'p\<close>, a firmware
  device \<open>'f\<close> and a bootloader device \<open>'b\<close>.  The trace has one entry per call whose order or
  number matters; the loops recurse on the number of rounds left, which the code bounds by
  \<open>bootTimeoutSeconds\<close>.

  Lemma groups: what a round adds to the trace; bounds of the two loops.
\<close>

subsection \<open>Devices\<close>

datatype firmware_status = StatusUnpaired | StatusRequireAppUpgrade | StatusPairingFailed | OtherStatus

datatype hsm_effect =
    OpenSerial "nat option"     \<comment> \<open>read timeout in milliseconds\<close>
  | Probe                       \<comment> \<open>asking the bootloader for its versions\<close>
  | InitFirmware
  | RebootToBootloader
  | RebootToFirmware
  | CloseFirmware
  | CloseBootloader
  | UseBootloader
  | SleepSecond

text \<open>
  What the firmware API asks the host to remember (glue.go).  The middleware keeps nothing: every
  connection is a first one, so it is confirmed again each time.
\<close>

record firmware_config =
  config_contains :: "string \<Rightarrow> bool"
  config_add :: "string \<Rightarrow> goerr option"
  config_keypair :: "(string \<times> string) option"
  config_set_keypair :: "string \<times> string \<Rightarrow> goerr option"

definition ContainsDeviceStaticPubkey :: "string \<Rightarrow> bool" where
  "ContainsDeviceStaticPubkey pubkey = False"

definition AddDeviceStaticPubkey :: "string \<Rightarrow> goerr option" where
  "AddDeviceStaticPubkey pubkey = None"

definition GetAppNoiseStaticKeypair :: "(string \<times> string) option" where
  "GetAppNoiseStaticKeypair = None"

definition SetAppNoiseStaticKeypair :: "string \<times> string \<Rightarrow> goerr option" where
  "SetAppNoiseStaticKeypair key = None"

definition bitbox02Config :: firmware_config where
  "bitbox02Config = \<lparr>config_contains = ContainsDeviceStaticPubkey, config_add = AddDeviceStaticPubkey,
     config_keypair = GetAppNoiseStaticKeypair, config_set_keypair = SetAppNoiseStaticKeypair\<rparr>"

definition firmwareCMD :: nat where "firmwareCMD = 0x80 + 0x40 + 0x01"
definition bootloaderCMD :: nat where "bootloaderCMD = 0x80 + 0x40 + 0x03"

record serial_config =
  Name :: string
  Baud :: nat
  ReadTimeout :: nat          \<comment> \<open>in milliseconds, 0 to block\<close>

text \<open>\<open>serial_port\<close> is the field of \<open>HSM\<close>; the devices talk over a port under a command byte.\<close>

record ('w, 'p, 'f, 'b) hsm_env =
  serial_port :: string
  open_port :: "serial_config \<Rightarrow> 'w \<Rightarrow> (goerr + 'p) \<times> 'w"
  new_bootloader :: "'p \<Rightarrow> nat \<Rightarrow> 'b"
  bootloader_versions :: "'b \<Rightarrow> 'w \<Rightarrow> goerr option \<times> 'w"
  bootloader_reboot :: "'b \<Rightarrow> 'w \<Rightarrow> goerr option \<times> 'w"
  new_firmware :: "firmware_config \<Rightarrow> 'p \<Rightarrow> nat \<Rightarrow> 'f"
  firmware_init :: "'f \<Rightarrow> 'w \<Rightarrow> goerr option \<times> 'w"
  firmware_device_status :: "'f \<Rightarrow> 'w \<Rightarrow> firmware_status"
  firmware_verify :: "'f \<Rightarrow> bool \<Rightarrow> 'w \<Rightarrow> 'w"
  firmware_upgrade :: "'f \<Rightarrow> 'w \<Rightarrow> goerr option \<times> 'w"
  cause_is_eof :: "goerr \<Rightarrow> bool"
  cause_is_unavailable :: "goerr \<Rightarrow> bool"

record 'w hsm_state =
  hsm_world :: 'w
  hsm_trace :: "hsm_effect list"

type_synonym ('w, 'a) hsm = "('w hsm_state, 'a) state"

definition call :: "hsm_effect \<Rightarrow> ('w \<Rightarrow> 'a \<times> 'w) \<Rightarrow> ('w, 'a) hsm" where
  "call e f = State (\<lambda>s. case f (hsm_world s) of (r, w) \<Rightarrow> (r, s\<lparr>hsm_world := w, hsm_trace := hsm_trace s @ [e]\<rparr>))"

definition mark :: "hsm_effect \<Rightarrow> ('w, unit) hsm" where
  "mark e = call e (\<lambda>w. ((), w))"

definition bootTimeoutSeconds :: nat where
  "bootTimeoutSeconds = 30"

definition NewHSM :: "string \<Rightarrow> ('w, 'p, 'f, 'b) hsm_env \<Rightarrow> ('w, 'p, 'f, 'b) hsm_env" where
  "NewHSM serialPort H = H\<lparr>serial_port := serialPort\<rparr>"

definition openSerial :: "('w, 'p, 'f, 'b) hsm_env \<Rightarrow> nat option \<Rightarrow> ('w, goerr + 'p) hsm" where
  "openSerial H readTimeout = call (OpenSerial readTimeout)
     (open_port H \<lparr>Name = serial_port H, Baud = 115200,
        ReadTimeout = (case readTimeout of None \<Rightarrow> 0 | Some t \<Rightarrow> t)\<rparr>)"

definition getFirmware :: "('w, 'p, 'f, 'b) hsm_env \<Rightarrow> ('w, goerr + 'f) hsm" where
  "getFirmware H = do {
     conn \<leftarrow> openSerial H None;
     (case conn of
        Inl e \<Rightarrow> State_Monad.return (Inl e)
      | Inr port \<Rightarrow> do {
          let device = new_firmware H bitbox02Config port firmwareCMD;
          err \<leftarrow> call InitFirmware (firmware_init H device);
          (case err of
             Some e \<Rightarrow> State_Monad.return (Inl e)
           | None \<Rightarrow> do {
               status \<leftarrow> gets (\<lambda>s. firmware_device_status H device (hsm_world s));
               (case status of
                  StatusUnpaired \<Rightarrow> do {
                    _ \<leftarrow> modify (\<lambda>s. s\<lparr>hsm_world := firmware_verify H device True (hsm_world s)\<rparr>);
                    State_Monad.return (Inr device) }
                | StatusRequireAppUpgrade \<Rightarrow> State_Monad.return (Inl (ErrorString
                    ''firmware unsupported, update of the BitBoxBase (middleware) is required''))
                | StatusPairingFailed \<Rightarrow> State_Monad.return (Inl (ErrorString
                    ''device was expected to autoconfirm the pairing''))
                | OtherStatus \<Rightarrow> State_Monad.return (Inl (ErrorString ''unexpected status''))) }) })
   }"

definition getBootloader :: "('w, 'p, 'f, 'b) hsm_env \<Rightarrow> nat option \<Rightarrow> ('w, goerr + 'b) hsm" where
  "getBootloader H readTimeout = do {
     conn \<leftarrow> openSerial H readTimeout;
     State_Monad.return (map_sum id (\<lambda>port. new_bootloader H port bootloaderCMD) conn)
   }"

definition isFirmware :: "('w, 'p, 'f, 'b) hsm_env \<Rightarrow> ('w, goerr + bool) hsm" where
  "isFirmware H = do {
     bootloader \<leftarrow> getBootloader H (Some 200);
     (case bootloader of
        Inl e \<Rightarrow> State_Monad.return (Inl e)
      | Inr b \<Rightarrow> do {
          err \<leftarrow> call Probe (bootloader_versions H b);
          State_Monad.return (case err of
            Some e \<Rightarrow> if cause_is_unavailable H e then Inr True else Inl e
          | None \<Rightarrow> Inr False) })
   }"

subsection \<open>Waiting\<close>

text \<open>\<open>n\<close> rounds are left, \<open>second\<close> is the counter of the loop.\<close>

primrec wait_bootloader :: "('w, 'p, 'f, 'b) hsm_env \<Rightarrow> nat \<Rightarrow> nat \<Rightarrow> ('w, goerr + 'b) hsm" where
  "wait_bootloader H 0 second = State_Monad.return (Inl (ErrorString ''waiting for bootloader timed out''))"
| "wait_bootloader H (Suc n) second = do {
     fw \<leftarrow> isFirmware H;
     (case fw of
        Inl e \<Rightarrow> if cause_is_eof H e then wait_bootloader H n (Suc second) else State_Monad.return (Inl e)
      | Inr False \<Rightarrow> getBootloader H None
      | Inr True \<Rightarrow> do {
          firmware \<leftarrow> getFirmware H;
          (case firmware of
             Inl e \<Rightarrow> State_Monad.return (Inl e)
           | Inr f \<Rightarrow> do {
               err \<leftarrow> call RebootToBootloader (firmware_upgrade H f);
               _ \<leftarrow> mark CloseFirmware;
               (case err of
                  Some e \<Rightarrow> State_Monad.return (Inl e)
                | None \<Rightarrow> do {
                    _ \<leftarrow> (if 0 < second then mark SleepSecond else State_Monad.return ());
                    wait_bootloader H n (Suc second) }) }) })
   }"

definition waitForBootloader :: "('w, 'p, 'f, 'b) hsm_env \<Rightarrow> ('w, goerr + 'b) hsm" where
  "waitForBootloader H = wait_bootloader H bootTimeoutSeconds 0"

primrec wait_firmware :: "('w, 'p, 'f, 'b) hsm_env \<Rightarrow> nat \<Rightarrow> nat \<Rightarrow> ('w, goerr + 'f) hsm" where
  "wait_firmware H 0 second = State_Monad.return (Inl (ErrorString ''waiting for firmware timed out''))"
| "wait_firmware H (Suc n) second = do {
     fw \<leftarrow> isFirmware H;
     (case fw of
        Inl e \<Rightarrow> if cause_is_eof H e then wait_firmware H n (Suc second) else State_Monad.return (Inl e)
      | Inr True \<Rightarrow> getFirmware H
      | Inr False \<Rightarrow> do {
          bootloader \<leftarrow> getBootloader H None;
          (case bootloader of
             Inl e \<Rightarrow> State_Monad.return (Inl e)
           | Inr b \<Rightarrow> do {
               err \<leftarrow> call RebootToFirmware (bootloader_reboot H b);
               _ \<leftarrow> mark CloseBootloader;
               (case err of
                  Some e \<Rightarrow> State_Monad.return (Inl e)
                | None \<Rightarrow> do {
                    _ \<leftarrow> (if 0 < second then mark SleepSecond else State_Monad.return ());
                    wait_firmware H n (Suc second) }) }) })
   }"

definition WaitForFirmware :: "('w, 'p, 'f, 'b) hsm_env \<Rightarrow> ('w, goerr + 'f) hsm" where
  "WaitForFirmware H = wait_firmware H bootTimeoutSeconds 0"

definition InteractWithBootloader ::
  "('w, 'p, 'f, 'b) hsm_env \<Rightarrow> ('b \<Rightarrow> 'w \<Rightarrow> 'w) \<Rightarrow> ('w, goerr option) hsm" where
  "InteractWithBootloader H f = do {
     device \<leftarrow> waitForBootloader H;
     (case device of
        Inl e \<Rightarrow> State_Monad.return (Some e)
      | Inr b \<Rightarrow> do {
          _ \<leftarrow> call UseBootloader (\<lambda>w. ((), f b w));
          _ \<leftarrow> mark CloseBootloader;
          State_Monad.return None })
   }"

subsection \<open>Counting calls\<close>

text \<open>\<open>at_most e n m\<close>: a run of \<open>m\<close> adds at most \<open>n\<close> entries \<open>e\<close> to the trace.\<close>

definition at_most :: "hsm_effect \<Rightarrow> nat \<Rightarrow> ('w, 'a) hsm \<Rightarrow> bool" where
  "at_most e n m \<longleftrightarrow> (\<forall>s. \<exists>es. hsm_trace (snd (run_state m s)) = hsm_trace s @ es \<and> count_list es e \<le> n)"

lemma at_mostD: "at_most e n m \<Longrightarrow> run_state m s = (r, s') \<Longrightarrow> \<exists>es. hsm_trace s' = hsm_trace s @ es \<and> count_list es e \<le> n"
  by (metis at_most_def snd_conv)

lemma at_most_mono: "at_most e n m \<Longrightarrow> n \<le> k \<Longrightarrow> at_most e k m"
  unfolding at_most_def by (meson order_trans)

lemma at_most_bind:
  assumes m: "at_most e n m" and g: "\<And>x. at_most e k (g x)"
  shows "at_most e (n + k) (m \<bind> g)"
  unfolding at_most_def
proof
  fix s
  obtain r s' where r: "run_state m s = (r, s')" by fastforce
  with m obtain es where es: "hsm_trace s' = hsm_trace s @ es" "count_list es e \<le> n" by (auto dest: at_mostD)
  moreover obtain es' where "hsm_trace (snd (run_state (g r) s')) = hsm_trace s' @ es'" "count_list es' e \<le> k"
    using g [of r] by (auto simp: at_most_def)
  ultimately have "hsm_trace (snd (run_state (m \<bind> g) s)) = hsm_trace s @ (es @ es') \<and> count_list (es @ es') e \<le> n + k"
    using r by simp
  then show "\<exists>es. hsm_trace (snd (run_state (m \<bind> g) s)) = hsm_trace s @ es \<and> count_list es e \<le> n + k"
    by blast
qed

lemma at_most_bind0: "at_most e 0 m \<Longrightarrow> (\<And>x. at_most e k (g x)) \<Longrightarrow> at_most e k (m \<bind> g)"
  using at_most_bind [of e 0 m k g] by simp

lemma at_most_call: "at_most e (if e' = e then 1 else 0) (call e' f)"
  by (auto simp: at_most_def call_def split: prod.splits)

lemma at_most_silent [simp]:
  "at_most e n (State_Monad.return x)" "at_most e n (gets f)" "at_most e 0 (mark e') \<longleftrightarrow> e' \<noteq> e"
  by (auto simp: at_most_def mark_def call_def)

lemma at_most_world [simp]: "at_most e n (modify (\<lambda>s. s\<lparr>hsm_world := f s\<rparr>))"
  by (simp add: at_most_def)

lemma at_most_other: "e' \<noteq> e \<Longrightarrow> at_most e 0 (call e' f)"
  using at_most_call [of e e' f] by simp

lemma at_most_open: "(\<And>t. e \<noteq> OpenSerial t) \<Longrightarrow> at_most e 0 (openSerial H t)"
  unfolding openSerial_def by (rule at_most_other) auto

lemma at_most_getBootloader: "(\<And>t. e \<noteq> OpenSerial t) \<Longrightarrow> at_most e n (getBootloader H t)"
  unfolding getBootloader_def by (intro at_most_bind0 at_most_open) simp_all

lemma at_most_getFirmware:
  "(\<And>t. e \<noteq> OpenSerial t) \<Longrightarrow> e \<noteq> InitFirmware \<Longrightarrow> at_most e n (getFirmware H)"
  unfolding getFirmware_def Let_def
  by (intro at_most_bind0 at_most_open)
    (auto split: sum.split option.split firmware_status.split intro!: at_most_bind0 at_most_other)

lemma at_most_count: "(\<And>x. at_most e n (g x)) \<Longrightarrow> at_most e (Suc n) (call e f \<bind> g)"
  using at_most_bind [of e 1 "call e f" n g] at_most_call [of e e f] by simp

lemma at_most_skip: "e' \<noteq> e \<Longrightarrow> (\<And>x. at_most e n (g x)) \<Longrightarrow> at_most e n (call e' f \<bind> g)"
  by (rule at_most_bind0 [OF at_most_other])

lemma at_most_skip_mark: "e' \<noteq> e \<Longrightarrow> (\<And>x. at_most e n (g x)) \<Longrightarrow> at_most e n (mark e' \<bind> g)"
  by (rule at_most_bind0) simp_all

lemma probe_isFirmware: "at_most Probe (Suc 0) (isFirmware H)"
  unfolding isFirmware_def
  by (intro at_most_bind0 at_most_getBootloader) (auto split: sum.split intro!: at_most_count)

lemma other_isFirmware: "(\<And>t. e \<noteq> OpenSerial t) \<Longrightarrow> e \<noteq> Probe \<Longrightarrow> at_most e 0 (isFirmware H)"
  unfolding isFirmware_def
  by (intro at_most_bind0 at_most_getBootloader) (auto split: sum.split intro!: at_most_skip)

lemma at_most_devices:
  "(\<And>t. e \<noteq> OpenSerial t) \<Longrightarrow> (\<And>x. at_most e n (g x)) \<Longrightarrow> at_most e n (getBootloader H t \<bind> g)"
  "(\<And>t. e \<noteq> OpenSerial t) \<Longrightarrow> e \<noteq> InitFirmware \<Longrightarrow> (\<And>x. at_most e n (h x)) \<Longrightarrow> at_most e n (getFirmware H \<bind> h)"
  "(\<And>t. e \<noteq> OpenSerial t) \<Longrightarrow> e \<noteq> Probe \<Longrightarrow> (\<And>x. at_most e n (k x)) \<Longrightarrow> at_most e n (isFirmware H \<bind> k)"
  by (intro at_most_bind0 at_most_getBootloader at_most_getFirmware other_isFirmware; simp)+

lemma at_most_probed: "(\<And>x. at_most Probe n (g x)) \<Longrightarrow> at_most Probe (Suc n) (isFirmware H \<bind> g)"
  using at_most_bind [OF probe_isFirmware, of n g] by simp

lemma at_most_if: "(b \<Longrightarrow> at_most e n m) \<Longrightarrow> (\<not> b \<Longrightarrow> at_most e n m') \<Longrightarrow> at_most e n (if b then m else m')"
  by simp

lemma at_most_sleeping:
  "(\<And>x. at_most SleepSecond n (g x)) \<Longrightarrow>
   at_most SleepSecond (Suc n) ((if b then mark SleepSecond else State_Monad.return ()) \<bind> g)"
  "e \<noteq> SleepSecond \<Longrightarrow> (\<And>x. at_most e n (g x)) \<Longrightarrow>
   at_most e n ((if b then mark SleepSecond else State_Monad.return ()) \<bind> g)"
  by (cases b; auto simp: mark_def intro: at_most_count at_most_mono at_most_skip)+

lemmas round_intros = at_most_devices at_most_skip at_most_skip_mark at_most_getBootloader at_most_getFirmware

text \<open>
  A round asks once, reboots at most once and sleeps at most once, and not at all when the
  counter is 0.
\<close>

lemma rounds_probe:
  "at_most Probe n (wait_firmware H n second)" "at_most Probe n (wait_bootloader H n second)"
proof (induction n arbitrary: second)
  case (Suc n)
  {
    case 1
    show ?case unfolding wait_firmware.simps
      by (rule at_most_probed)
        (auto simp: Suc.IH split: sum.split bool.split option.split intro!: round_intros at_most_sleeping(2))
  next
    case 2
    show ?case unfolding wait_bootloader.simps
      by (rule at_most_probed)
        (auto simp: Suc.IH split: sum.split bool.split option.split intro!: round_intros at_most_sleeping(2))
  }
qed simp_all

lemma rounds_reboot:
  "at_most RebootToFirmware n (wait_firmware H n second)"
  "at_most RebootToBootloader n (wait_bootloader H n second)"
proof (induction n arbitrary: second)
  case (Suc n)
  note later = at_most_mono [OF Suc.IH(1), of "Suc n"] at_most_mono [OF Suc.IH(2), of "Suc n"]
  {
    case 1
    show ?case unfolding wait_firmware.simps
      by (rule at_most_devices(3))
        (auto simp: Suc.IH later split: sum.split bool.split option.split
          intro!: round_intros at_most_count at_most_sleeping(2))
  next
    case 2
    show ?case unfolding wait_bootloader.simps
      by (rule at_most_devices(3))
        (auto simp: Suc.IH later split: sum.split bool.split option.split
          intro!: round_intros at_most_count at_most_sleeping(2))
  }
qed simp_all

lemma rounds_sleep:
  "at_most SleepSecond n (wait_firmware H n second)" "at_most SleepSecond n (wait_bootloader H n second)"
proof (induction n arbitrary: second)
  case (Suc n)
  note later = at_most_mono [OF Suc.IH(1), of "Suc n"] at_most_mono [OF Suc.IH(2), of "Suc n"]
  {
    case 1
    show ?case unfolding wait_firmware.simps
      by (rule at_most_devices(3))
        (auto simp: Suc.IH later split: sum.split bool.split option.split split del: if_split
          intro!: at_most_if round_intros at_most_sleeping(1))
  next
    case 2
    show ?case unfolding wait_bootloader.simps
      by (rule at_most_devices(3))
        (auto simp: Suc.IH later split: sum.split bool.split option.split split del: if_split
          intro!: at_most_if round_intros at_most_sleeping(1))
  }
qed simp_all

lemma first_round_sleep:
  "at_most SleepSecond n (wait_firmware H (Suc n) 0)" "at_most SleepSecond n (wait_bootloader H (Suc n) 0)"
proof -
  show "at_most SleepSecond n (wait_firmware H (Suc n) 0)" unfolding wait_firmware.simps
    by (rule at_most_devices(3))
      (auto simp: rounds_sleep split: sum.split bool.split option.split intro!: round_intros)
  show "at_most SleepSecond n (wait_bootloader H (Suc n) 0)" unfolding wait_bootloader.simps
    by (rule at_most_devices(3))
      (auto simp: rounds_sleep split: sum.split bool.split option.split intro!: round_intros)
qed

subsection \<open>Properties\<close>

text \<open>
  C35: Waiting for the firmware or the bootloader always ends: the device is asked at most 30
  times, rebooted at most 30 times, and the wait takes at most 29 sleeps of a second.
\<close>

theorem hsm_wait_bounds:
  "at_most Probe 30 (WaitForFirmware H) \<and> at_most RebootToFirmware 30 (WaitForFirmware H) \<and>
   at_most SleepSecond 29 (WaitForFirmware H) \<and>
   at_most Probe 30 (waitForBootloader H) \<and> at_most RebootToBootloader 30 (waitForBootloader H) \<and>
   at_most SleepSecond 29 (waitForBootloader H)"
  unfolding WaitForFirmware_def waitForBootloader_def bootTimeoutSeconds_def
  using first_round_sleep [where n = 29 and H = H] by (simp add: rounds_probe rounds_reboot)

text \<open>\<open>ends_with P m\<close>: however a run of \<open>m\<close> ends, its result and its last state satisfy \<open>P\<close>.\<close>

definition ends_with :: "('a \<Rightarrow> 'w hsm_state \<Rightarrow> bool) \<Rightarrow> ('w, 'a) hsm \<Rightarrow> bool" where
  "ends_with P m \<longleftrightarrow> (\<forall>s. P (fst (run_state m s)) (snd (run_state m s)))"

lemma ends_with_bind: "(\<And>x. ends_with P (g x)) \<Longrightarrow> ends_with P (m \<bind> g)"
  by (simp add: ends_with_def case_prod_beta)

lemma ends_with_return: "(\<And>s. P r s) \<Longrightarrow> ends_with P (State_Monad.return r)"
  by (simp add: ends_with_def)

definition confirmed :: "('w, 'p, 'f, 'b) hsm_env \<Rightarrow> goerr + 'f \<Rightarrow> 'w hsm_state \<Rightarrow> bool" where
  "confirmed H r s' \<longleftrightarrow> (\<forall>f. r = Inr f \<longrightarrow>
     (\<exists>w. firmware_device_status H f w = StatusUnpaired \<and> hsm_world s' = firmware_verify H f True w))"

lemma failed_confirmed [simp]: "confirmed H (Inl e) s"
  by (simp add: confirmed_def)

lemma getFirmware_confirmed: "ends_with (confirmed H) (getFirmware H)"
  unfolding ends_with_def confirmed_def
  by (auto simp: getFirmware_def openSerial_def call_def Let_def
      split: sum.splits prod.splits option.splits firmware_status.splits)

lemma wait_firmware_confirmed: "ends_with (confirmed H) (wait_firmware H n second)"
proof (induction n arbitrary: second)
  case (Suc n)
  show ?case unfolding wait_firmware.simps
    by (rule ends_with_bind)
      (auto simp: Suc.IH getFirmware_confirmed ends_with_return split: sum.split bool.split option.split
        intro!: ends_with_bind)
qed (simp add: ends_with_return)

text \<open>
  A firmware device that is returned was in the unpaired state, in which it expects the host
  to confirm the channel, and the confirmation was the last thing done with it.
\<close>

theorem firmware_ready:
  assumes "run_state (WaitForFirmware H) s = (Inr f, s')"
  shows "\<exists>w. firmware_device_status H f w = StatusUnpaired \<and> hsm_world s' = firmware_verify H f True w"
  using wait_firmware_confirmed [of H bootTimeoutSeconds 0] assms
  unfolding WaitForFirmware_def ends_with_def confirmed_def by (metis fst_conv snd_conv)

text \<open>A device of which every answer is an end of file.\<close>

definition booting :: "('w, 'p, 'f, 'b) hsm_env \<Rightarrow> bool" where
  "booting H \<longleftrightarrow> (\<forall>t w. \<exists>p w'. open_port H t w = (Inr p, w')) \<and>
     (\<forall>b w. \<exists>e w'. bootloader_versions H b w = (Some e, w') \<and> cause_is_eof H e \<and> \<not> cause_is_unavailable H e)"

lemma booting_round:
  assumes "booting H"
  obtains e w where "run_state (isFirmware H) s =
      (Inl e, \<lparr>hsm_world = w, hsm_trace = hsm_trace s @ [OpenSerial (Some 200), Probe]\<rparr>)" "cause_is_eof H e"
proof -
  obtain p w1 where o: "open_port H \<lparr>Name = serial_port H, Baud = 115200, ReadTimeout = 200\<rparr> (hsm_world s) = (Inr p, w1)"
    using assms unfolding booting_def by blast
  obtain e w2 where v: "bootloader_versions H (new_bootloader H p bootloaderCMD) w1 = (Some e, w2)"
      "cause_is_eof H e" "\<not> cause_is_unavailable H e"
    using assms unfolding booting_def by blast
  have "run_state (isFirmware H) s =
      (Inl e, \<lparr>hsm_world = w2, hsm_trace = hsm_trace s @ [OpenSerial (Some 200), Probe]\<rparr>)"
    using o v by (simp add: isFirmware_def getBootloader_def openSerial_def call_def)
  then show thesis using v(2) by (rule that)
qed

text \<open>
  While the device answers with an end of file, as it does during its boot, the loop asks again
  at once: all 30 rounds are used up without a second of waiting, and the call fails.
\<close>

theorem no_wait_while_booting:
  assumes "booting H" "run_state (WaitForFirmware H) s = (r, s')"
  shows "r = Inl (ErrorString ''waiting for firmware timed out'') \<and>
    hsm_trace s' = hsm_trace s @ concat (replicate 30 [OpenSerial (Some 200), Probe])"
proof -
  have "r = Inl (ErrorString ''waiting for firmware timed out'') \<and>
      hsm_trace s' = hsm_trace s @ concat (replicate n [OpenSerial (Some 200), Probe])"
    if "run_state (wait_firmware H n second) s = (r, s')" for n second s
    using that
  proof (induction n arbitrary: second s)
    case (Suc n)
    obtain e w where "run_state (isFirmware H) s =
        (Inl e, \<lparr>hsm_world = w, hsm_trace = hsm_trace s @ [OpenSerial (Some 200), Probe]\<rparr>)" "cause_is_eof H e"
      using booting_round [OF assms(1)] .
    with Suc.prems Suc.IH show ?case by fastforce
  qed simp
  with assms(2) show ?thesis unfolding WaitForFirmware_def bootTimeoutSeconds_def by blast
qed

subsection \<open>Witnesses\<close>

text \<open>A device that is ready after a number of end-of-file answers.\<close>

definition demo_hsm :: "(nat, unit, unit, unit) hsm_env" where
  "demo_hsm = \<lparr>serial_port = ''/dev/ttyS0'', open_port = (\<lambda>t w. (Inr (), w)), new_bootloader = (\<lambda>p c. ()),
     bootloader_versions = (\<lambda>b w. if w = 0 then (Some (ErrorString ''unavailable''), 0)
       else (Some (ErrorString ''EOF''), w - 1)),
     bootloader_reboot = (\<lambda>b w. (None, w)), new_firmware = (\<lambda>conf p c. ()), firmware_init = (\<lambda>f w. (None, w)),
     firmware_device_status = (\<lambda>f w. StatusUnpaired), firmware_verify = (\<lambda>f b w. w),
     firmware_upgrade = (\<lambda>f w. (None, w)), cause_is_eof = (\<lambda>e. e = ErrorString ''EOF''),
     cause_is_unavailable = (\<lambda>e. e = ErrorString ''unavailable'')\<rparr>"

lemma firmware_ready_witness:
  "\<exists>s'. run_state (WaitForFirmware demo_hsm) \<lparr>hsm_world = 1, hsm_trace = []\<rparr> = (Inr (), s') \<and>
     (\<exists>w. hsm_world s' = firmware_verify demo_hsm () True w)"
proof -
  have "bootTimeoutSeconds = Suc (Suc 28)" by (simp add: bootTimeoutSeconds_def)
  then obtain n where rounds: "bootTimeoutSeconds = Suc (Suc n)" ..
  have "\<exists>s'. run_state (WaitForFirmware demo_hsm) \<lparr>hsm_world = 1, hsm_trace = []\<rparr> = (Inr (), s')"
    unfolding WaitForFirmware_def rounds
    by (simp add: isFirmware_def getBootloader_def openSerial_def call_def getFirmware_def demo_hsm_def)
  then obtain s' where run: "run_state (WaitForFirmware demo_hsm) \<lparr>hsm_world = 1, hsm_trace = []\<rparr> = (Inr (), s')" ..
  from firmware_ready [OF run] run show ?thesis by blast
qed

definition slow_hsm :: "(nat, unit, unit, unit) hsm_env" where
  "slow_hsm = demo_hsm\<lparr>bootloader_versions := (\<lambda>b w. (Some (ErrorString ''EOF''), w))\<rparr>"

lemma no_wait_while_booting_witness:
  "fst (run_state (WaitForFirmware slow_hsm) \<lparr>hsm_world = 0, hsm_trace = []\<rparr>) =
    Inl (ErrorString ''waiting for firmware timed out'')"
proof -
  have "booting slow_hsm" by (simp add: booting_def slow_hsm_def demo_hsm_def)
  from no_wait_while_booting [OF this prod.collapse [symmetric]] show ?thesis by blast
qed

end
