(* ===== verification/Middleware_Main.thy ===== *)
theory Middleware_Main
  imports Go_Flag System Hsm Handlers
begin

text \<open>
  The start of the middleware (middleware/cmd/middleware/main.go): its command line, connecting to
  the HSM, the middleware and the handlers (handlers/handlers.go: their interface and
  \<open>NewHandlers\<close>), up to the point where it listens.

  \<open>net/http\<close>'s listener is not modelled: \<open>Listening\<close> is its address, with the loops that run by
  then and the state of the handlers, whose outside world is the middleware.  Parsing the command line is the theory Go_Flag.

  Lemma groups: the command line; what is known of the middleware that listens, from its start on.
\<close>

subsection \<open>The command line\<close>

record main_flags =
  flag_middlewarePort :: string
  flag_electrsRPCPort :: string
  flag_dataDir :: string
  flag_network :: string
  flag_bbbConfigScript :: string
  flag_bbbCmdScript :: string
  flag_bbbSystemctlScript :: string
  flag_prometheusURL :: string
  flag_redisPort :: string
  flag_redisMock :: bool
  flag_imageUpdateInfoURL :: string
  flag_notificationNamedPipePath :: string
  flag_hsmSerialPort :: string

definition default_flags :: main_flags where
  "default_flags = \<lparr>
     flag_middlewarePort = ''8845'',
     flag_electrsRPCPort = ''51002'',
     flag_dataDir = ''.base'',
     flag_network = ''testnet'',
     flag_bbbConfigScript = ''/opt/shift/scripts/bbb-config.sh'',
     flag_bbbCmdScript = ''/opt/shift/scripts/bbb-cmd.sh'',
     flag_bbbSystemctlScript = ''/opt/shift/scripts/bbb-systemctl.sh'',
     flag_prometheusURL = ''http://localhost:9090'',
     flag_redisPort = ''6379'',
     flag_redisMock = False,
     flag_imageUpdateInfoURL = ''https://shiftcrypto.ch/updates/base.json'',
     flag_notificationNamedPipePath = ''/tmp/middleware-notification.pipe'',
     flag_hsmSerialPort = ''/dev/ttyS0''\<rparr>"

definition main_flag_table :: "main_flags flags" where
  "main_flag_table = [
     (''middlewareport'', Flag_String (\<lambda>v f. f\<lparr>flag_middlewarePort := v\<rparr>)),
     (''electrsport'', Flag_String (\<lambda>v f. f\<lparr>flag_electrsRPCPort := v\<rparr>)),
     (''datadir'', Flag_String (\<lambda>v f. f\<lparr>flag_dataDir := v\<rparr>)),
     (''network'', Flag_String (\<lambda>v f. f\<lparr>flag_network := v\<rparr>)),
     (''bbbconfigscript'', Flag_String (\<lambda>v f. f\<lparr>flag_bbbConfigScript := v\<rparr>)),
     (''bbbcmdscript'', Flag_String (\<lambda>v f. f\<lparr>flag_bbbCmdScript := v\<rparr>)),
     (''bbbsystemctlscript'', Flag_String (\<lambda>v f. f\<lparr>flag_bbbSystemctlScript := v\<rparr>)),
     (''prometheusurl'', Flag_String (\<lambda>v f. f\<lparr>flag_prometheusURL := v\<rparr>)),
     (''redisport'', Flag_String (\<lambda>v f. f\<lparr>flag_redisPort := v\<rparr>)),
     (''redismock'', Flag_Bool (\<lambda>v f. f\<lparr>flag_redisMock := v\<rparr>)),
     (''updateinfourl'', Flag_String (\<lambda>v f. f\<lparr>flag_imageUpdateInfoURL := v\<rparr>)),
     (''notificationNamedPipePath'', Flag_String (\<lambda>v f. f\<lparr>flag_notificationNamedPipePath := v\<rparr>)),
     (''hsmserialport'', Flag_String (\<lambda>v f. f\<lparr>flag_hsmSerialPort := v\<rparr>))]"

definition version :: string where "version = ''0.0.1''"

definition main_args :: "main_flags \<Rightarrow> Args" where
  "main_args f = \<lparr>
     arg_BBBCmdScript = flag_bbbCmdScript f,
     arg_BBBConfigScript = flag_bbbConfigScript f,
     arg_BBBSystemctlScript = flag_bbbSystemctlScript f,
     arg_ElectrsRPCPort = flag_electrsRPCPort f,
     arg_ImageUpdateInfoURL = flag_imageUpdateInfoURL f,
     arg_MiddlewarePort = flag_middlewarePort f,
     arg_MiddlewareVersion = version,
     arg_Network = flag_network f,
     arg_NotificationNamedPipePath = flag_notificationNamedPipePath f,
     arg_PrometheusURL = flag_prometheusURL f,
     arg_RedisMock = flag_redisMock f,
     arg_RedisPort = flag_redisPort f\<rparr>"

subsection \<open>The interface of the handlers\<close>

record 's handlers_Middleware = "'s Middleware" +
  mw_Start :: "('s, loop list go) state"
  mw_Version :: "('s, string) state"
  mw_VerifyAppMiddlewarePairing :: "string \<Rightarrow> ('s, bool \<times> goerr option) state"

text \<open>
  \<open>reader\<close> tells whether the pipe could be opened.  The RPC server gets the methods of its own, smaller
  interface.
\<close>

definition handlers_backend :: "'w env \<Rightarrow> bool \<Rightarrow> 'w middleware handlers_Middleware" where
  "handlers_backend E reader = Middleware.extend (middleware_backend E)
     \<lparr>mw_Start = Start E reader, mw_Version = mw_GetMiddlewareVersion,
      mw_VerifyAppMiddlewarePairing = VerifyAppMiddlewarePairing E\<rparr>"

lemma rpc_methods [simp]: "Middleware.truncate (handlers_backend E reader) = middleware_backend E"
  by (simp add: handlers_backend_def Middleware.defs middleware_backend_def)

lemma other_methods [simp]:
  "mw_Start (handlers_backend E reader) = Start E reader"
  "mw_Version (handlers_backend E reader) = mw_GetMiddlewareVersion"
  "mw_VerifyAppMiddlewarePairing (handlers_backend E reader) = VerifyAppMiddlewarePairing E"
  by (simp_all add: handlers_backend_def Middleware.defs)

text \<open>A route has a path, the method it is restricted to, and its handler.\<close>

datatype endpoint = RootHandler | VersionHandler | WsHandler

definition routes :: "(string \<times> string option \<times> endpoint) list" where
  "routes = [(''/'', Some ''GET'', RootHandler), (''/version'', Some ''GET'', VersionHandler), (''/ws'', None, WsHandler)]"

record ('w, 'c) web =
  router :: "(string \<times> string option \<times> endpoint) list"
  noiseConfig :: "('w, 'c) noise_state"
  clients_and_events :: handlers_state

text \<open>What a connection of the handlers asks the middleware for in place of the user.\<close>

definition verified_by :: "'w handlers_Middleware \<Rightarrow> ('w, 'h, 'c) noise_env \<Rightarrow> ('w, 'h, 'c) noise_env" where
  "verified_by B N = N\<lparr>verify_pairing := (\<lambda>hash. run_state (mw_VerifyAppMiddlewarePairing B hash))\<rparr>"

definition NewHandlers_on :: "'w handlers_Middleware \<Rightarrow> string \<Rightarrow> 'w \<Rightarrow> loop list go \<times> ('w, 'c) web" where
  "NewHandlers_on B dir w = (case run_state (mw_Start B) w of
     (r, w') \<Rightarrow> (r, \<lparr>router = routes, noiseConfig = NewNoiseConfig dir w', clients_and_events = NewHandlers\<rparr>))"

subsection \<open>main\<close>

datatype ('w, 'c) main_end =
    Usage flag_error
  | Fatal goerr             \<comment> \<open>\<open>log.Fatalf\<close>\<close>
  | Crashed                 \<comment> \<open>a panic, which the deferred function logs and raises again\<close>
  | Listening string "loop list" "('w middleware, 'c) web"

text \<open>An error of the HSM is logged, and \<open>NewMiddleware\<close> gets a nil device.\<close>

definition main_start ::
  "('w, 'p, 'f, 'b) hsm_env \<Rightarrow> 'w env \<Rightarrow> bool \<Rightarrow> main_flags \<Rightarrow> 'w \<Rightarrow> ('w, 'c) main_end" where
  "main_start H E reader f w =
     (case run_state (WaitForFirmware (NewHSM (flag_hsmSerialPort f) H)) \<lparr>hsm_world = w, hsm_trace = []\<rparr> of
        (hsmFirmware, h) \<Rightarrow>
          (case NewMiddleware E (NewConfiguration (main_args f)) (\<not> isl hsmFirmware) \<lparr>world = hsm_world h, trace = []\<rparr> of
             (Some e, m) \<Rightarrow> Fatal e
           | (None, m) \<Rightarrow> (case NewHandlers_on (handlers_backend E reader) (flag_dataDir f) m of
                 (Panic, web) \<Rightarrow> Crashed
               | (Ret loops, web) \<Rightarrow> Listening (CHR '':'' # flag_middlewarePort f) loops web)))"

definition main ::
  "('w, 'p, 'f, 'b) hsm_env \<Rightarrow> 'w env \<Rightarrow> bool \<Rightarrow> string list \<Rightarrow> 'w \<Rightarrow> ('w, 'c) main_end" where
  "main H E reader cmdline w = (case parse_flags main_flag_table cmdline default_flags of
     Inl e \<Rightarrow> Usage e
   | Inr (f, _) \<Rightarrow> main_start H E reader f w)"

subsection \<open>The command line is read as it was meant\<close>

definition main_cmdline :: "main_flags \<Rightarrow> string list" where
  "main_cmdline f = [
     setting ''middlewareport'' (flag_middlewarePort f), setting ''electrsport'' (flag_electrsRPCPort f),
     setting ''datadir'' (flag_dataDir f), setting ''network'' (flag_network f),
     setting ''bbbconfigscript'' (flag_bbbConfigScript f), setting ''bbbcmdscript'' (flag_bbbCmdScript f),
     setting ''bbbsystemctlscript'' (flag_bbbSystemctlScript f), setting ''prometheusurl'' (flag_prometheusURL f),
     setting ''redisport'' (flag_redisPort f), setting ''redismock'' (bool_text (flag_redisMock f)),
     setting ''updateinfourl'' (flag_imageUpdateInfoURL f),
     setting ''notificationNamedPipePath'' (flag_notificationNamedPipePath f),
     setting ''hsmserialport'' (flag_hsmSerialPort f)]"

text \<open>
  Any values given as \<open>-name=value\<close> are read back, an empty value and one with dashes or equals
  signs included; without arguments the defaults hold.
\<close>

theorem main_flags_roundtrip:
  "parse_flags main_flag_table (main_cmdline f) f0 = Inr (f, []) \<and>
   parse_flags main_flag_table [] default_flags = Inr (default_flags, [])"
proof -
  note [simp] = flag_name_def main_flag_table_def
  have "parse_flags main_flag_table (main_cmdline f) f0 = Inr (f, [])"
    unfolding main_cmdline_def by (simp add: parse_setting del: parse_flags.simps(2))
  then show ?thesis by simp
qed

subsection \<open>The middleware that listens\<close>

lemma confirmed_NewHSM [simp]: "confirmed (NewHSM port H) r s = confirmed H r s"
  by (simp add: confirmed_def NewHSM_def)

lemma main_steps:
  assumes "main H E reader cmdline w = Listening addr loops web"
  obtains f rest hsm h m0 m where "parse_flags main_flag_table cmdline default_flags = Inr (f, rest)"
    and "run_state (WaitForFirmware (NewHSM (flag_hsmSerialPort f) H)) \<lparr>hsm_world = w, hsm_trace = []\<rparr> = (hsm, h)"
    and "NewMiddleware E (NewConfiguration (main_args f)) (\<not> isl hsm) \<lparr>world = hsm_world h, trace = []\<rparr> = (None, m0)"
    and "run_state (Start E reader) m0 = (Ret loops, m)" and "addr = CHR '':'' # flag_middlewarePort f"
    and "web = \<lparr>router = routes, noiseConfig = NewNoiseConfig (flag_dataDir f) m, clients_and_events = NewHandlers\<rparr>"
proof -
  obtain f rest where f: "parse_flags main_flag_table cmdline default_flags = Inr (f, rest)"
    and start: "main_start H E reader f w = Listening addr loops web"
    using assms by (auto simp: main_def split: sum.splits prod.splits)
  obtain hsm h where hsm: "run_state (WaitForFirmware (NewHSM (flag_hsmSerialPort f) H)) \<lparr>hsm_world = w, hsm_trace = []\<rparr> = (hsm, h)"
    by fastforce
  with start show thesis
    by (auto simp: main_start_def NewHandlers_on_def split: prod.splits option.splits go.splits intro!: that [OF f hsm])
qed

text \<open>
  C22: When \<open>main\<close> listens, and as long as it runs: it listens on the port of the command line and
  keeps the configuration given there; the keys are kept in the directory given there, and no
  client is connected yet; no update is recorded as running between calls; and it has an HSM,
  with its heartbeat, exactly if the firmware answered within the bounds of the start, unpaired
  and confirmed.  Without one it runs all the same.
\<close>

theorem main_listens:
  assumes "main H E reader cmdline w = Listening addr loops web" "later E (outside (noiseConfig web)) m'"
  shows "\<exists>f rest hsm h.
    parse_flags main_flag_table cmdline default_flags = Inr (f, rest) \<and> addr = CHR '':'' # flag_middlewarePort f \<and>
    run_state (WaitForFirmware (NewHSM (flag_hsmSerialPort f) H)) \<lparr>hsm_world = w, hsm_trace = []\<rparr> = (hsm, h) \<and>
    dataDir (noiseConfig web) = flag_dataDir f \<and> \<not> initialized (noiseConfig web) \<and>
    clientsMap (clients_and_events web) = {} \<and>
    config m' = NewConfiguration (main_args f) \<and> at_rest m' \<and>
    hsmPresent m' = (\<not> isl hsm) \<and> (HsmHeartbeatLoop \<in> set loops) = (\<not> isl hsm) \<and>
    {RpcLoop, UpdateCheckLoop} \<subseteq> set loops \<and> confirmed H hsm h"
proof -
  from main_steps [OF assms(1)] obtain f rest hsm h m0 m where f: "parse_flags main_flag_table cmdline default_flags = Inr (f, rest)"
    and hsm: "run_state (WaitForFirmware (NewHSM (flag_hsmSerialPort f) H)) \<lparr>hsm_world = w, hsm_trace = []\<rparr> = (hsm, h)"
    and m0: "NewMiddleware E (NewConfiguration (main_args f)) (\<not> isl hsm) \<lparr>world = hsm_world h, trace = []\<rparr> = (None, m0)"
    and m: "run_state (Start E reader) m0 = (Ret loops, m)" and addr: "addr = CHR '':'' # flag_middlewarePort f"
    and web: "web = \<lparr>router = routes, noiseConfig = NewNoiseConfig (flag_dataDir f) m, clients_and_events = NewHandlers\<rparr>" .
  have later: "later E m m'" using assms(2) web by (simp add: NewNoiseConfig_def)
  note s = started [OF m0 m]
  have "at_rest m'" using later s(1) by (rule later_invariant [OF _ _ base_step_at_rest])
  moreover have "config m' = config m" "hsmPresent m' = hsmPresent m"
    using later_fixed [OF later] by (simp_all add: fixed_def)
  moreover have "confirmed H hsm h"
    using wait_firmware_confirmed [of "NewHSM (flag_hsmSerialPort f) H" bootTimeoutSeconds 0] hsm
    unfolding WaitForFirmware_def ends_with_def by (metis fst_conv snd_conv confirmed_NewHSM)
  moreover have "loops = (if \<not> isl hsm then [HsmHeartbeatLoop] else []) @ [RpcLoop, UpdateCheckLoop]
      @ (if reader then [IpcNotificationLoop] else [])"
    using s(4) .
  ultimately show ?thesis using f hsm addr s web by (auto simp: NewNoiseConfig_def NewHandlers_def)
qed

text \<open>A Base without an HSM, on the mock of Redis.\<close>

definition no_hsm :: "(sim, unit, unit, unit) hsm_env" where
  "no_hsm = \<lparr>serial_port = [], open_port = (\<lambda>c w. (Inl (ErrorString ''no such device''), w)),
     new_bootloader = (\<lambda>p c. ()), bootloader_versions = (\<lambda>b w. (None, w)), bootloader_reboot = (\<lambda>b w. (None, w)),
     new_firmware = (\<lambda>conf p c. ()), firmware_init = (\<lambda>f w. (None, w)),
     firmware_device_status = (\<lambda>f w. StatusUnpaired), firmware_verify = (\<lambda>f b w. w),
     firmware_upgrade = (\<lambda>f w. (None, w)), cause_is_eof = (\<lambda>e. False), cause_is_unavailable = (\<lambda>e. False)\<rparr>"

lemma no_firmware:
  "\<exists>e t. run_state (WaitForFirmware (NewHSM p no_hsm)) \<lparr>hsm_world = demo_world, hsm_trace = []\<rparr> =
    (Inl e, \<lparr>hsm_world = demo_world, hsm_trace = t\<rparr>)"
proof -
  have "bootTimeoutSeconds = Suc 29" by (simp add: bootTimeoutSeconds_def)
  then obtain n where rounds: "bootTimeoutSeconds = Suc n" ..
  show ?thesis unfolding WaitForFirmware_def rounds
    by (simp add: isFirmware_def getBootloader_def openSerial_def call_def no_hsm_def NewHSM_def)
qed

lemma demo_main_runs:
  "\<exists>loops m. (main no_hsm sim_env True [''--redismock'', ''-middlewareport'', ''80''] demo_world :: (sim, unit) main_end)
      = Listening '':80'' loops \<lparr>router = routes, noiseConfig = NewNoiseConfig ''.base'' m, clients_and_events = NewHandlers\<rparr>"
proof -
  let ?cmdline = "[''--redismock'', ''-middlewareport'', ''80'']"
  let ?f = "default_flags\<lparr>flag_redisMock := True, flag_middlewarePort := ''80''\<rparr>"
  have parse: "parse_flags main_flag_table ?cmdline default_flags = Inr (?f, [])"
    by (simp add: main_flag_table_def strip_dashes_def ParseBool_def)
  let ?c = "NewConfiguration (main_args ?f)"
  obtain e m0 where new: "NewMiddleware sim_env ?c False \<lparr>world = demo_world, trace = []\<rparr> = (e, m0)" by fastforce
  have mock: "IsRedisMock ?c" by (simp add: IsRedisMock_def NewConfiguration_def main_args_def)
  have ok: "e = None" "hsmPresent m0 = False"
      "\<exists>m. redisClient m0 = MockClient m \<and> go_lookup m ''base:version'' = ''0.0.1''"
    using new by (auto simp: NewMiddleware_def mock initial_struct_def NewMockClient_def demo_run setupTestData_def go_lookup_def)
  have "\<exists>x. semver_string sim_env (Some (0, 0, Suc 0)) = Ret x" by (simp add: sim_env_def)
  then obtain l m where start: "run_state (Start sim_env True) m0 = (Ret l, m)"
    using ok(2,3) by (auto simp: Start_def setHSMConfig_def run_mock sim_semver_def)
  let ?web = "\<lparr>router = routes, noiseConfig = NewNoiseConfig ''.base'' m, clients_and_events = NewHandlers\<rparr> :: (sim middleware, unit) web"
  obtain err h where fw: "run_state (WaitForFirmware (NewHSM (flag_hsmSerialPort ?f) no_hsm)) \<lparr>hsm_world = demo_world, hsm_trace = []\<rparr> =
      (Inl err, \<lparr>hsm_world = demo_world, hsm_trace = h\<rparr>)" using no_firmware by blast
  have web: "NewHandlers_on (handlers_backend sim_env True) dir m0 =
      (Ret l, \<lparr>router = routes, noiseConfig = NewNoiseConfig dir m, clients_and_events = NewHandlers\<rparr>)" for dir
    by (simp add: NewHandlers_on_def start)
  have flags: "flag_dataDir ?f = ''.base''" "flag_middlewarePort ?f = ''80''" by (simp_all add: default_flags_def)
  have "main_start no_hsm sim_env True ?f demo_world = Listening '':80'' l ?web"
    by (simp only: main_start_def fw prod.case sum.disc hsm_state.select_convs not_True_eq_False new ok(1) web flags
        option.case go.case)
  then have run: "main no_hsm sim_env True ?cmdline demo_world = Listening '':80'' l ?web"
    by (simp only: main_def parse sum.case prod.case)
  then show ?thesis by blast
qed

lemma main_listens_witness:
  "\<exists>loops web. (main no_hsm sim_env True [''--redismock'', ''-middlewareport'', ''80''] demo_world :: (sim, unit) main_end)
      = Listening '':80'' loops web \<and> HsmHeartbeatLoop \<notin> set loops \<and> at_rest (outside (noiseConfig web))"
proof -
  obtain l web where run: "(main no_hsm sim_env True [''--redismock'', ''-middlewareport'', ''80''] demo_world :: (sim, unit) main_end)
      = Listening '':80'' l web" using demo_main_runs by blast
  from main_listens [OF run later_refl] obtain f :: main_flags and hsm' h where
    "run_state (WaitForFirmware (NewHSM (flag_hsmSerialPort f) no_hsm)) \<lparr>hsm_world = demo_world, hsm_trace = []\<rparr> = (hsm', h)"
    "at_rest (outside (noiseConfig web))" "(HsmHeartbeatLoop \<in> set l) = (\<not> isl hsm')"
    by blast
  with no_firmware [of "flag_hsmSerialPort f"] have "HsmHeartbeatLoop \<notin> set l \<and> at_rest (outside (noiseConfig web))" by auto
  with run show ?thesis by blast
qed

end
