(* ===== verification/Pairing.thy ===== *)
theory Pairing
  imports Connections Middleware_Main
begin

text \<open>
  The composition of the start (cmd/middleware/main.go), the handlers with their concurrent connections
  (handlers, noise) and the pairing confirmation of the middleware (middleware.go, on the HSM): who
  is let in by a Base that was started with a given command line.

  The outside world of the connections is the middleware, so what happens between two steps of a
  connection (other RPCs, the loops, notifications) is in the functions of their environments; of
  those only \<open>keeps_hsm\<close> is needed, since no step of the middleware changes whether it has an HSM.

  Lemma groups: what any interleaving of connections keeps of the outside world and of the answers
  to pairing requests; the middleware behind them.
\<close>

subsection \<open>What the connections keep\<close>

text \<open>\<open>P\<close> is kept by all calls of the outside world, and every answer to a pairing request is in \<open>Q\<close>.\<close>

definition obeys ::
  "('w \<Rightarrow> bool) \<Rightarrow> (string \<Rightarrow> bool \<Rightarrow> bool) \<Rightarrow> ('w, 'h, 'c) noise_env \<Rightarrow> bool" where
  "obeys P Q N \<longleftrightarrow> (\<forall>w. P w \<longrightarrow>
     P (snd (ws_read N w)) \<and> (\<forall>k b. P (snd (ws_write N k b w))) \<and> P (snd (generate_keypair N w)) \<and>
     (\<forall>h. P (snd (hs_write N h w))) \<and> (\<forall>d. P (snd (mkdir_all N d w))) \<and> (\<forall>p d. P (snd (write_file N p d w))) \<and>
     (\<forall>c a e w'. verify_pairing N c w = ((a, e), w') \<longrightarrow> P w' \<and> Q c (e = None \<and> a)))"

lemma obeysD:
  assumes "obeys P Q N" "P w"
  shows "ws_read N w = (r, w') \<Longrightarrow> P w'" "ws_write N k b w = (r1, w') \<Longrightarrow> P w'"
    "generate_keypair N w = (r2, w') \<Longrightarrow> P w'" "hs_write N h w = (r3, w') \<Longrightarrow> P w'"
    "mkdir_all N d w = (r4, w') \<Longrightarrow> P w'" "write_file N p d w = (r5, w') \<Longrightarrow> P w'"
    "verify_pairing N c w = ((a, e), w') \<Longrightarrow> P w' \<and> Q c (e = None \<and> a)"
  using assms unfolding obeys_def by (metis snd_conv)+

lemma obeys_store:
  assumes "obeys P Q N" "P w"
  shows "P (snd (storeConfig N dir conf w))"
proof -
  obtain r w1 where dir: "mkdir_all N dir w = (r, w1)" by fastforce
  then have "P w1" by (rule obeysD(5) [OF assms])
  with assms dir show ?thesis
    by (cases r) (auto simp: storeConfig_def File_write_def obeys_def)
qed

definition tracked :: "('w \<Rightarrow> bool) \<Rightarrow> (string \<Rightarrow> bool \<Rightarrow> bool) \<Rightarrow> ('w, 'c) noise_state \<Rightarrow> bool" where
  "tracked P Q n \<longleftrightarrow> P (outside n) \<and> (\<forall>c b. AskPairing c b \<in> set (history n) \<longrightarrow> Q c b)"

lemma tracked_fields [simp]:
  "tracked P Q (n\<lparr>clientStaticPubkey := k\<rparr>) = tracked P Q n" "tracked P Q (n\<lparr>channelHash := k\<rparr>) = tracked P Q n"
  "tracked P Q (n\<lparr>sendCipher := c\<rparr>) = tracked P Q n" "tracked P Q (n\<lparr>receiveCipher := c\<rparr>) = tracked P Q n"
  "tracked P Q (n\<lparr>pairingVerificationRequired := b\<rparr>) = tracked P Q n" "tracked P Q (n\<lparr>initialized := b\<rparr>) = tracked P Q n"
  "tracked P Q (n\<lparr>history := history n @ [LookupKey k b]\<rparr>) = tracked P Q n"
  "tracked P Q (n\<lparr>history := history n @ [LookupKey k b], pairingVerificationRequired := b'\<rparr>) = tracked P Q n"
  by (auto simp: tracked_def)

lemma tracked_calls:
  assumes "obeys P Q N" "tracked P Q n"
  shows "run_state (read_message N msg) n = (r, n') \<Longrightarrow> tracked P Q n'"
    "run_state (write_message N k b msg) n = (r1, n') \<Longrightarrow> tracked P Q n'"
    "run_state (second_message N h) n = (r2, n') \<Longrightarrow> tracked P Q n'"
    "run_state (last_message N h m) n = (r3, n') \<Longrightarrow> tracked P Q n'"
  using assms
  by (auto simp: tracked_def read_message_def write_message_def second_message_def last_message_def fails_def
      dest: obeysD split: prod.splits option.splits)

lemma tracked_connect_step:
  assumes "obeys P Q N" "tracked P Q n" "run_state (connect_step N t) n = (t', n')"
  shows "tracked P Q n'"
proof (cases t)
  case (Asking c)
  obtain a e w where v: "verify_pairing N c (outside n) = ((a, e), w)" by (metis prod.collapse)
  with assms(1,2) have "P w \<and> Q c (e = None \<and> a)" by (auto simp: tracked_def dest: obeysD(7))
  with Asking v assms(2,3) show ?thesis by (auto simp: tracked_def)
next
  case NoKey
  with assms show ?thesis by (auto simp: tracked_def dest: obeysD split: prod.splits)
next
  case (StoringKey kp conf)
  with assms show ?thesis by (auto simp: tracked_def obeys_store)
next
  case (Storing k conf)
  with assms show ?thesis by (auto simp: tracked_def obeys_store)
next
  case (KeySet h)
  with assms show ?thesis by (auto simp: tracked_def Let_def split: if_splits)
next
  case (Deciding h)
  with assms show ?thesis by (auto simp: proceed_def intro: tracked_calls(2) [OF assms(1,2)] split: prod.splits)
qed (use assms in \<open>auto simp: proceed_def intro: tracked_calls [OF assms(1,2)] split: prod.splits\<close>)

lemma tracked_loops:
  assumes "obeys P Q N" "tracked P Q n"
  shows "run_state (read_loop_step N msg) n = (a, n') \<Longrightarrow> tracked P Q n'"
    "run_state (write_loop_step N m) n = (b, n') \<Longrightarrow> tracked P Q n'"
proof -
  have sent: "run_state (write_message N k x msg) (n\<lparr>sendCipher := c\<rparr>) = (r, n') \<Longrightarrow> tracked P Q n'" for k x msg c r
    using tracked_calls(2) [OF assms(1)] assms(2) by (metis tracked_fields(3))
  show "run_state (read_loop_step N msg) n = (a, n') \<Longrightarrow> tracked P Q n'"
    using assms(2) by (auto simp: read_loop_step_def Decrypt_def split: if_splits option.splits prod.splits)
  show "run_state (write_loop_step N m) n = (b, n') \<Longrightarrow> tracked P Q n'"
    using assms(2) tracked_calls(2) [OF assms]
    by (auto simp: write_loop_step_def Encrypt_def Let_def dest: sent split: if_splits option.splits prod.splits)
qed

lemma tracked_read_step:
  assumes "obeys P Q N" "tracked P Q (noise H)" "read_step N i H = (t', H')"
  shows "tracked P Q (noise H')"
proof -
  obtain r n where r: "run_state (read_message N []) (noise H) = (r, n)" by fastforce
  note n = tracked_calls(1) [OF assms(1,2) r]
  show ?thesis
  proof (cases r)
    case (Inl e)
    with r n assms(3) show ?thesis by (auto simp: read_step_def)
  next
    case (Inr msg)
    obtain a n' where a: "run_state (read_loop_step N msg) n = (a, n')" by fastforce
    from tracked_loops(1) [OF assms(1) n a] show ?thesis
      using assms(3) r Inr a by (cases a) (auto simp: read_step_def)
  qed
qed

lemma client_step_down: "down H \<Longrightarrow> client_step N i t H = (t, H)"
proof (cases t)
  case (Writing ms)
  then show "down H \<Longrightarrow> client_step N i t H = (t, H)" by (cases ms) simp_all
qed simp_all

lemma tracked_client_step:
  assumes "obeys P Q (N i)" "tracked P Q (noise H)" "client_step N i t H = (t', H')"
  shows "tracked P Q (noise H')"
proof (cases "down H")
  case True
  with assms(2,3) show ?thesis by (simp add: client_step_down)
next
  case False
  show ?thesis
  proof (cases t)
    case (Handshake c)
    obtain c' n where c: "run_state (connect_step (N i) c) (noise H) = (c', n)" by fastforce
    from tracked_connect_step [OF assms(1,2) c] show ?thesis
      using assms(2,3) Handshake False c by (auto split: option.splits go.splits)
  next
    case Reading
    with assms False show ?thesis by (auto intro: tracked_read_step)
  next
    case (Writing ms)
    show ?thesis
    proof (cases ms)
      case (Cons m rest)
      obtain r n where r: "run_state (write_loop_step (N i) m) (noise H) = (r, n)" by fastforce
      from tracked_loops(2) [OF assms(1,2) r] show ?thesis
        using assms(3) Writing Cons False r by (auto split: option.splits bool.splits)
    qed (use assms Writing in simp)
  qed (use assms in simp)
qed

interpretation answers: thread_proof "client_step N" new_client
    "\<lambda>H. (\<forall>i. obeys P Q (N i)) \<longrightarrow> tracked P Q (noise H)" "\<lambda>t H. True"
  for N :: "nat \<Rightarrow> ('w, 'h, 'c) noise_env" and P Q
  by unfold_locales (auto dest: tracked_client_step)

subsection \<open>The middleware behind the connections\<close>

definition keeps_hsm :: "('w middleware, 'h, 'c) noise_env \<Rightarrow> bool" where
  "keeps_hsm N \<longleftrightarrow> (\<forall>w.
     hsmPresent (snd (ws_read N w)) = hsmPresent w \<and> (\<forall>k b. hsmPresent (snd (ws_write N k b w)) = hsmPresent w) \<and>
     hsmPresent (snd (generate_keypair N w)) = hsmPresent w \<and> (\<forall>h. hsmPresent (snd (hs_write N h w)) = hsmPresent w) \<and>
     (\<forall>d. hsmPresent (snd (mkdir_all N d w)) = hsmPresent w) \<and>
     (\<forall>p d. hsmPresent (snd (write_file N p d w)) = hsmPresent w))"

text \<open>The answer the middleware may give: with an HSM, a yes only if it confirmed the channel; without one, always yes.\<close>

definition answer_ok :: "'w env \<Rightarrow> bool \<Rightarrow> string \<Rightarrow> bool \<Rightarrow> bool" where
  "answer_ok E hsm hash accepted \<longleftrightarrow>
     (if hsm then accepted \<longrightarrow> (\<exists>v. fst (hsm_confirm_pairing E hash v) = None) else accepted)"

lemma middleware_obeys:
  assumes "keeps_hsm N"
  shows "obeys (\<lambda>m. hsmPresent m = hsm) (answer_ok E hsm) (verified_by (handlers_backend E reader) N)"
proof -
  have verify: "hsmPresent w' = hsmPresent w \<and> answer_ok E (hsmPresent w) c (e = None \<and> a)"
    if "run_state (VerifyAppMiddlewarePairing E c) w = ((a, e), w')" for c a e w w'
    using that
    by (auto simp: VerifyAppMiddlewarePairing_def answer_ok_def run_ext split: if_splits option.splits prod.splits
        intro: exI [of _ "world w"])
  with assms show ?thesis by (auto simp: obeys_def keeps_hsm_def verified_by_def dest!: verify)
qed

text \<open>The connections of a Base that has just been started.\<close>

definition first_hub :: "('w, 'c) web \<Rightarrow> ('w, 'c) hub" where
  "first_hub web = \<lparr>noise = noiseConfig web, forwarded = [], down = False\<rparr>"



end
