(* ===== verification/Session.thy ===== *)
theory Session
  imports System Handlers
begin

text \<open>
  A client's session through all layers: a websocket message is decrypted by the read loop
  (handlers/websocket.go, noise.go), its bytes reach \<open>net/rpc\<close>, which decodes calls and serves
  them (rpcserver.go) on the middleware.  \<open>net/rpc\<close> with gob is the parameter \<open>codec\<close>: the calls
  decoded from the messages received so far; a message may complete none or several (the theory
  Net_Rpc models how one request is served).  They
  are served one after the other here, and the messages of other clients are changes of
  the state between two messages.

  The last lemma composes the token gate with the encrypted channel.
\<close>

record ('x, 'c, 'w) session =
  channel :: "('x, 'c) noise_state"
  server :: "'w middleware"
  received :: "string list"
  calls :: "rpc_call list"       \<comment> \<open>the calls served so far\<close>
  crashed :: bool

primrec serve_calls :: "'w env \<Rightarrow> rpc_call list \<Rightarrow> ('x, 'c, 'w) session \<Rightarrow> ('x, 'c, 'w) session" where
  "serve_calls E [] s = s"
| "serve_calls E (c # cs) s =
     (case run_state (rpc_dispatch (middleware_backend E) c) (server s) of
        (Panic, m) \<Rightarrow> s\<lparr>server := m, calls := calls s @ [c], crashed := True\<rparr>
      | (Ret reply, m) \<Rightarrow> serve_calls E cs (s\<lparr>server := m, calls := calls s @ [c]\<rparr>))"

definition completed :: "(string list \<Rightarrow> rpc_call list) \<Rightarrow> string list \<Rightarrow> string \<Rightarrow> rpc_call list" where
  "completed codec ms m = drop (length (codec ms)) (codec (ms @ [m]))"

text \<open>The messages of the websocket, up to the one that ends the read loop.\<close>

primrec session_messages ::
  "('x, 'h, 'c) noise_env \<Rightarrow> 'w env \<Rightarrow> (string list \<Rightarrow> rpc_call list) \<Rightarrow> string list \<Rightarrow>
     ('x, 'c, 'w) session \<Rightarrow> ('x, 'c, 'w) session" where
  "session_messages N E codec [] s = s"
| "session_messages N E codec (msg # msgs) s =
     (case run_state (read_loop_step N msg) (channel s) of
        (Drop, n) \<Rightarrow> session_messages N E codec msgs (s\<lparr>channel := n\<rparr>)
      | (Forward m, n) \<Rightarrow>
          (let s' = serve_calls E (completed codec (received s) m) (s\<lparr>channel := n, received := received s @ [m]\<rparr>)
           in if crashed s' then s' else session_messages N E codec msgs s')
      | (Close, n) \<Rightarrow> s\<lparr>channel := n\<rparr>
      | (Crash, n) \<Rightarrow> s\<lparr>channel := n, crashed := True\<rparr>)"

subsection \<open>Without a token\<close>

text \<open>A call that brings no token that is valid under the key at any time.\<close>

definition powerless :: "'w env \<Rightarrow> string \<Rightarrow> rpc_call \<Rightarrow> bool" where
  "powerless E key c \<longleftrightarrow> (\<forall>t now. token_of c = Some t \<longrightarrow> ValidateToken_at E key t now \<noteq> None)"

definition only_read :: "'w middleware \<Rightarrow> 'w middleware \<Rightarrow> bool" where
  "only_read m m' \<longleftrightarrow> (\<exists>es. trace m' = trace m @ es \<and> list_all read_only es) \<and>
     redisClient m' = redisClient m \<and> core m' = core m"

lemma only_read_refl [simp]: "only_read m m"
  by (simp add: only_read_def)

lemma only_read_trans: "only_read m m' \<Longrightarrow> only_read m' m'' \<Longrightarrow> only_read m m''"
  unfolding only_read_def by auto

lemma core_jwtKey: "core m' = core m \<Longrightarrow> jwtKey m' = jwtKey m"
  by (simp add: core_def fixed_def)

lemma powerless_call:
  assumes "powerless E (jwtKey m) c" "run_state (rpc_dispatch (middleware_backend E) c) m = (r, m')"
  shows "only_read m m'"
  using anonymous_step [OF _ assms(2)] assms(1) unfolding powerless_def accepts_token_def only_read_def by blast

lemma serve_calls_history: "\<exists>cs'. calls (serve_calls E cs s) = calls s @ cs'"
proof (induction cs arbitrary: s)
  case (Cons c cs)
  obtain r m where r: "run_state (rpc_dispatch (middleware_backend E) c) (server s) = (r, m)" by fastforce
  show ?case
  proof (cases r)
    case (Ret x)
    then show ?thesis using r Cons [of "s\<lparr>server := m, calls := calls s @ [c]\<rparr>"] by auto
  qed (use r in simp)
qed simp

lemma serve_calls_only_read:
  assumes "\<forall>c \<in> set (calls (serve_calls E cs s)). powerless E (jwtKey (server s)) c"
  shows "only_read (server s) (server (serve_calls E cs s))"
  using assms
proof (induction cs arbitrary: s)
  case (Cons c cs)
  obtain r m where r: "run_state (rpc_dispatch (middleware_backend E) c) (server s) = (r, m)" by fastforce
  let ?s = "s\<lparr>server := m, calls := calls s @ [c]\<rparr>"
  have "powerless E (jwtKey (server s)) c"
    using Cons.prems r serve_calls_history [of E cs ?s] by (cases r) auto
  then have first: "only_read (server s) m" using r by (rule powerless_call)
  show ?case
  proof (cases r)
    case (Ret x)
    have "jwtKey m = jwtKey (server s)" using first by (intro core_jwtKey) (simp add: only_read_def)
    then have "only_read m (server (serve_calls E cs ?s))" using Cons.IH [of ?s] Cons.prems r Ret by simp
    with first show ?thesis using r Ret by (simp add: only_read_trans)
  qed (use r first in simp)
qed simp

lemma session_history: "\<exists>cs'. calls (session_messages N E codec msgs s) = calls s @ cs'"
proof (induction msgs arbitrary: s)
  case (Cons msg msgs)
  obtain a n where a: "run_state (read_loop_step N msg) (channel s) = (a, n)" by fastforce
  show ?case
  proof (cases a)
    case Drop
    then show ?thesis using a Cons [of "s\<lparr>channel := n\<rparr>"] by simp
  next
    case (Forward m)
    let ?s = "s\<lparr>channel := n, received := received s @ [m]\<rparr>"
    let ?t = "serve_calls E (completed codec (received s) m) ?s"
    obtain cs where cs: "calls ?t = calls s @ cs"
      using serve_calls_history [of E "completed codec (received s) m" ?s] by auto
    show ?thesis using a Forward cs Cons [of ?t] by (auto simp: Let_def)
  qed (use a in auto)
qed simp

lemma session_only_read:
  assumes "\<forall>c \<in> set (calls (session_messages N E codec msgs s)). powerless E (jwtKey (server s)) c"
  shows "only_read (server s) (server (session_messages N E codec msgs s))"
  using assms
proof (induction msgs arbitrary: s)
  case (Cons msg msgs)
  obtain a n where a: "run_state (read_loop_step N msg) (channel s) = (a, n)" by fastforce
  show ?case
  proof (cases a)
    case Drop
    then show ?thesis using a Cons.IH [of "s\<lparr>channel := n\<rparr>"] Cons.prems by simp
  next
    case (Forward m)
    let ?s = "s\<lparr>channel := n, received := received s @ [m]\<rparr>"
    define t where "t = serve_calls E (completed codec (received s) m) ?s"
    have run: "session_messages N E codec (msg # msgs) s = (if crashed t then t else session_messages N E codec msgs t)"
      using a Forward by (simp add: t_def Let_def)
    have "\<forall>c \<in> set (calls t). powerless E (jwtKey (server s)) c"
      using Cons.prems session_history [of N E codec msgs t] unfolding run by (auto split: if_splits)
    then have first: "only_read (server s) (server t)"
      using serve_calls_only_read [of E "completed codec (received s) m" ?s] by (simp add: t_def)
    then have "jwtKey (server t) = jwtKey (server s)" by (intro core_jwtKey) (simp add: only_read_def)
    with Cons.IH [of t] Cons.prems have "\<not> crashed t \<Longrightarrow> only_read (server t) (server (session_messages N E codec msgs t))"
      unfolding run by simp
    with first show ?thesis unfolding run by (auto intro: only_read_trans)
  qed (use a in auto)
qed simp

lemma session_unpaired:
  assumes "\<not> initialized (channel s) \<or> pairingVerificationRequired (channel s)"
  shows "server (session_messages N E codec msgs s) = server s"
proof -
  have "run_state (read_loop_step N msg) (channel s) = (if msg = [] then Drop else Close, channel s)" for msg
    using assms by (auto simp: read_loop_step_def Decrypt_def)
  then show ?thesis by (induction msgs) auto
qed

text \<open>
  C2: Through all layers: whatever messages a client sends over its websocket, if none of the calls
  they decode to carries a token that the middleware's key ever validates, the middleware only
  reads (no write to Redis, no script but status queries, no change of its configuration, keys or
  update state); and as long as the client is not paired, its state does not change at all.
\<close>

theorem session_without_token:
  assumes "\<forall>c \<in> set (calls (session_messages N E codec msgs s)).
      \<forall>t now. token_of c = Some t \<longrightarrow> ValidateToken_at E (jwtKey (server s)) t now \<noteq> None"
  shows "list_all read_only (new_effects (server s) (server (session_messages N E codec msgs s))) \<and>
    redisClient (server (session_messages N E codec msgs s)) = redisClient (server s) \<and>
    core (server (session_messages N E codec msgs s)) = core (server s) \<and>
    (\<not> initialized (channel s) \<or> pairingVerificationRequired (channel s) \<longrightarrow>
      server (session_messages N E codec msgs s) = server s)"
  using session_only_read [of N E codec msgs s] session_unpaired [of s N E codec msgs] assms
  by (auto simp: only_read_def powerless_def new_effects_def)

text \<open>A paired client that reads the status of the services.\<close>

definition demo_session :: "(string list, unit, sim) session" where
  "demo_session = \<lparr>channel = paired_channel, server = demo demo_users_db, received = [], calls = [], crashed = False\<rparr>"

lemma session_without_token_witness:
  "\<exists>s. session_messages demo_noise sim_env (map (\<lambda>m. Call_GetServiceStatus)) [''status''] demo_session = s \<and>
     calls s = [Call_GetServiceStatus] \<and> core (server s) = core (demo demo_users_db)"
proof -
  have calls: "calls (session_messages demo_noise sim_env (map (\<lambda>m. Call_GetServiceStatus)) [''status''] demo_session) =
      [Call_GetServiceStatus]"
  proof -
    have "run_state (read_loop_step demo_noise ''status'') paired_channel = (Forward ''status'', paired_channel)"
      by (simp add: read_loop_step_def Decrypt_def demo_noise_def paired_channel_def demo_channel_def NewNoiseConfig_def)
    moreover have "calls (serve_calls sim_env [c] s) = calls s @ [c]" for c and s :: "(string list, unit, sim) session"
      by (simp split: prod.splits go.splits del: rpc_dispatch.simps)
    ultimately show ?thesis by (simp add: demo_session_def completed_def Let_def del: serve_calls.simps)
  qed
  show ?thesis using session_without_token [of demo_noise sim_env "map (\<lambda>m. Call_GetServiceStatus)" "[''status'']" demo_session] calls
    by (simp add: demo_session_def)
qed

end
