(* ===== verification/Net_Rpc.thy ===== *)
theory Net_Rpc
  imports Session
begin

text \<open>
  Serving RPCs over a connection (middleware/src/rpcserver/rpcserver.go: \<open>NewRPCServer\<close>, \<open>Serve\<close>, the
  connection), with what it uses of the standard package \<open>net/rpc\<close>: the service table of the
  default server, which all connections share, the lookup of a method by its name, the check of
  the argument's type and the response.  The encoding of values, gob, is the parameter \<open>decode\<close>: a
  value of the type that was asked for, or an error.

  Lemma groups: a response fits its request, and its type the method's; registration and the RPC
  \<open>Serve\<close>; requests decoded to the calls of the theory Session.
\<close>

subsection \<open>Types of arguments and replies\<close>

datatype arg_type = TBool | TAuthGenericRequest | TUserAuthenticateArgs | TUserChangePasswordArgs
  | TSetHostnameArgs | TToggleSettingArgs | TSetLoginPasswordArgs | TUpdateBaseArgs

datatype rpc_args = ABool bool | AAuth AuthGenericRequest | AUserAuthenticate UserAuthenticateArgs
  | AUserChangePassword UserChangePasswordArgs | ASetHostname SetHostnameArgs | AToggle ToggleSettingArgs
  | ASetLoginPassword SetLoginPasswordArgs | AUpdateBase UpdateBaseArgs

datatype reply_type = TErrorResponse | TGetEnvResponse | TGetBaseInfoResponse | TGetServiceInfoResponse
  | TGetBaseUpdateProgressResponse | TIsBaseUpdateAvailableResponse | TSetupStatusResponse
  | TUserAuthenticateResponse | TGetServiceStatusResponse | TBoolPointer

fun type_of_args :: "rpc_args \<Rightarrow> arg_type" where
  "type_of_args (ABool b) = TBool"
| "type_of_args (AAuth a) = TAuthGenericRequest"
| "type_of_args (AUserAuthenticate a) = TUserAuthenticateArgs"
| "type_of_args (AUserChangePassword a) = TUserChangePasswordArgs"
| "type_of_args (ASetHostname a) = TSetHostnameArgs"
| "type_of_args (AToggle a) = TToggleSettingArgs"
| "type_of_args (ASetLoginPassword a) = TSetLoginPasswordArgs"
| "type_of_args (AUpdateBase a) = TUpdateBaseArgs"

fun type_of_reply :: "rpc_reply \<Rightarrow> reply_type" where
  "type_of_reply (ReplyError r) = TErrorResponse"
| "type_of_reply (ReplyEnv r) = TGetEnvResponse"
| "type_of_reply (ReplyBaseInfo r) = TGetBaseInfoResponse"
| "type_of_reply (ReplyServiceInfo r) = TGetServiceInfoResponse"
| "type_of_reply (ReplyUpdateProgress r) = TGetBaseUpdateProgressResponse"
| "type_of_reply (ReplyUpdateAvailable r) = TIsBaseUpdateAvailableResponse"
| "type_of_reply (ReplySetupStatus r) = TSetupStatusResponse"
| "type_of_reply (ReplyUserAuthenticate r) = TUserAuthenticateResponse"
| "type_of_reply (ReplyServiceStatus r) = TGetServiceStatusResponse"

text \<open>
  The methods of \<open>*RPCServer\<close> that \<open>net/rpc\<close> accepts: exported, with an argument, a pointer for the
  reply and an error as result.
\<close>

definition method_table :: "(string \<times> arg_type \<times> reply_type) list" where
  "method_table = [
     (''Serve'', TBool, TBoolPointer),
     (''GetSetupStatus'', TBool, TSetupStatusResponse),
     (''GetSystemEnv'', TAuthGenericRequest, TGetEnvResponse),
     (''ReindexBitcoin'', TAuthGenericRequest, TErrorResponse),
     (''ResyncBitcoin'', TAuthGenericRequest, TErrorResponse),
     (''BackupSysconfig'', TAuthGenericRequest, TErrorResponse),
     (''BackupHSMSecret'', TAuthGenericRequest, TErrorResponse),
     (''RestoreSysconfig'', TAuthGenericRequest, TErrorResponse),
     (''RestoreHSMSecret'', TAuthGenericRequest, TErrorResponse),
     (''UserAuthenticate'', TUserAuthenticateArgs, TUserAuthenticateResponse),
     (''UserChangePassword'', TUserChangePasswordArgs, TErrorResponse),
     (''SetHostname'', TSetHostnameArgs, TErrorResponse),
     (''EnableTor'', TToggleSettingArgs, TErrorResponse),
     (''EnableTorMiddleware'', TToggleSettingArgs, TErrorResponse),
     (''EnableTorElectrs'', TToggleSettingArgs, TErrorResponse),
     (''EnableTorSSH'', TToggleSettingArgs, TErrorResponse),
     (''EnableClearnetIBD'', TToggleSettingArgs, TErrorResponse),
     (''ShutdownBase'', TAuthGenericRequest, TErrorResponse),
     (''RebootBase'', TAuthGenericRequest, TErrorResponse),
     (''EnableRootLogin'', TToggleSettingArgs, TErrorResponse),
     (''EnableSSHPasswordLogin'', TToggleSettingArgs, TErrorResponse),
     (''SetLoginPassword'', TSetLoginPasswordArgs, TErrorResponse),
     (''GetBaseInfo'', TAuthGenericRequest, TGetBaseInfoResponse),
     (''GetServiceInfo'', TAuthGenericRequest, TGetServiceInfoResponse),
     (''GetServiceStatus'', TBool, TGetServiceStatusResponse),
     (''UpdateBase'', TUpdateBaseArgs, TErrorResponse),
     (''GetBaseUpdateProgress'', TAuthGenericRequest, TGetBaseUpdateProgressResponse),
     (''IsBaseUpdateAvailable'', TAuthGenericRequest, TIsBaseUpdateAvailableResponse),
     (''FinalizeSetupWizard'', TAuthGenericRequest, TErrorResponse)]"

text \<open>The call of a method on arguments of its type; \<open>Serve\<close> is served apart.\<close>

fun make_call :: "string \<Rightarrow> rpc_args \<Rightarrow> rpc_call option" where
  "make_call m (ABool b) = map_of [(''GetSetupStatus'', Call_GetSetupStatus), (''GetServiceStatus'', Call_GetServiceStatus)] m"
| "make_call m (AAuth a) = map_of [(''GetSystemEnv'', Call_GetSystemEnv a), (''ReindexBitcoin'', Call_ReindexBitcoin a),
     (''ResyncBitcoin'', Call_ResyncBitcoin a), (''BackupSysconfig'', Call_BackupSysconfig a),
     (''BackupHSMSecret'', Call_BackupHSMSecret a), (''RestoreSysconfig'', Call_RestoreSysconfig a),
     (''RestoreHSMSecret'', Call_RestoreHSMSecret a), (''ShutdownBase'', Call_ShutdownBase a),
     (''RebootBase'', Call_RebootBase a), (''GetBaseInfo'', Call_GetBaseInfo a),
     (''GetServiceInfo'', Call_GetServiceInfo a), (''GetBaseUpdateProgress'', Call_GetBaseUpdateProgress a),
     (''IsBaseUpdateAvailable'', Call_IsBaseUpdateAvailable a), (''FinalizeSetupWizard'', Call_FinalizeSetupWizard a)] m"
| "make_call m (AUserAuthenticate a) = map_of [(''UserAuthenticate'', Call_UserAuthenticate a)] m"
| "make_call m (AUserChangePassword a) = map_of [(''UserChangePassword'', Call_UserChangePassword a)] m"
| "make_call m (ASetHostname a) = map_of [(''SetHostname'', Call_SetHostname a)] m"
| "make_call m (AToggle a) = map_of [(''EnableTor'', Call_EnableTor a), (''EnableTorMiddleware'', Call_EnableTorMiddleware a),
     (''EnableTorElectrs'', Call_EnableTorElectrs a), (''EnableTorSSH'', Call_EnableTorSSH a),
     (''EnableClearnetIBD'', Call_EnableClearnetIBD a), (''EnableRootLogin'', Call_EnableRootLogin a),
     (''EnableSSHPasswordLogin'', Call_EnableSSHPasswordLogin a)] m"
| "make_call m (ASetLoginPassword a) = map_of [(''SetLoginPassword'', Call_SetLoginPassword a)] m"
| "make_call m (AUpdateBase a) = map_of [(''UpdateBase'', Call_UpdateBase a)] m"

subsection \<open>Servers and connections\<close>

text \<open>
  \<open>service\<close> is the entry of the default server for the name \<open>RPCServer\<close>, \<open>created\<close> counts the
  servers, one per connection, and \<open>loops\<close> lists for every running \<open>ServeConn\<close> the connection it
  reads and writes.
\<close>

record rpc_servers =
  service :: "nat option"
  created :: nat
  loops :: "nat list"

definition no_servers :: rpc_servers where
  "no_servers = \<lparr>service = None, created = 0, loops = []\<rparr>"

definition rpc_Register :: "nat \<Rightarrow> rpc_servers \<Rightarrow> goerr option \<times> rpc_servers" where
  "rpc_Register srv st = (case service st of
     Some other \<Rightarrow> (Some (ErrorString ''rpc: service already defined: RPCServer''), st)
   | None \<Rightarrow> (None, st\<lparr>service := Some srv\<rparr>))"

text \<open>A failed registration is only logged.\<close>

definition NewRPCServer :: "rpc_servers \<Rightarrow> nat \<times> rpc_servers" where
  "NewRPCServer st = (let srv = created st
     in (srv, snd (rpc_Register srv (st\<lparr>created := created st + 1\<rparr>))))"

definition Serve :: "nat \<Rightarrow> rpc_servers \<Rightarrow> rpc_servers" where
  "Serve srv st = st\<lparr>loops := loops st @ [srv]\<rparr>"

text \<open>What \<open>wsHandler\<close> does for a connection.\<close>

definition connect :: "rpc_servers \<Rightarrow> rpc_servers" where
  "connect st = (case NewRPCServer st of (srv, st') \<Rightarrow> Serve srv st')"

subsection \<open>A request\<close>

record rpc_request =
  ServiceMethod :: string
  Seq :: nat
  Body :: string

record rpc_response =
  resp_ServiceMethod :: string
  resp_Seq :: nat
  resp_Error :: "goerr option"         \<comment> \<open>sent as its text; none is the empty string\<close>
  resp_Reply :: "rpc_reply option"    \<comment> \<open>none for a request that was not served\<close>

text \<open>The name is cut at the last dot.\<close>

definition cut_last_dot :: "string \<Rightarrow> (string \<times> string) option" where
  "cut_last_dot s =
     (if CHR ''.'' \<in> set s
      then Some (rev (tl (dropWhile (\<lambda>c. c \<noteq> CHR ''.'') (rev s))), rev (takeWhile (\<lambda>c. c \<noteq> CHR ''.'') (rev s)))
      else None)"

definition find_method :: "rpc_servers \<Rightarrow> string \<Rightarrow> goerr + string \<times> arg_type \<times> reply_type" where
  "find_method st name = (case cut_last_dot name of
     None \<Rightarrow> Inl (ErrorString (''rpc: service/method request ill-formed: '' @ name))
   | Some (s, m) \<Rightarrow>
       if s \<noteq> ''RPCServer'' \<or> service st = None then Inl (ErrorString (''rpc: can't find service '' @ name))
       else (case map_of method_table m of
           None \<Rightarrow> Inl (ErrorString (''rpc: can't find method '' @ name))
         | Some t \<Rightarrow> Inr (m, t)))"

datatype served = Response rpc_response | Served_forever | Panicked

definition refused :: "rpc_request \<Rightarrow> goerr \<Rightarrow> served" where
  "refused rq e = Response \<lparr>resp_ServiceMethod = ServiceMethod rq, resp_Seq = Seq rq,
     resp_Error = Some e, resp_Reply = None\<rparr>"

type_synonym gob = "arg_type \<Rightarrow> string \<Rightarrow> goerr + rpc_args"

definition typed_gob :: "gob \<Rightarrow> bool" where
  "typed_gob decode \<longleftrightarrow> (\<forall>t b a. decode t b = Inr a \<longrightarrow> type_of_args a = t)"

text \<open>
  One request.  \<open>Serve\<close> runs \<open>ServeConn\<close> on the connection of the registered server, and its
  response would only come at the end of that.
\<close>

definition serve_request ::
  "'s Middleware \<Rightarrow> gob \<Rightarrow> rpc_request \<Rightarrow> rpc_servers \<Rightarrow> ('s, served \<times> rpc_servers) state" where
  "serve_request M decode rq st =
     (case find_method st (ServiceMethod rq) of
        Inl e \<Rightarrow> State_Monad.return (refused rq e, st)
      | Inr (m, ty, rt) \<Rightarrow> (case decode ty (Body rq) of
          Inl e \<Rightarrow> State_Monad.return (refused rq e, st)
        | Inr args \<Rightarrow>
            if m = ''Serve'' then State_Monad.return (Served_forever, Serve (the (service st)) st)
            else (case make_call m args of
                None \<Rightarrow> State_Monad.return (Panicked, st)
              | Some c \<Rightarrow> do {
                  r \<leftarrow> rpc_dispatch M c;
                  State_Monad.return (case r of
                      Panic \<Rightarrow> Panicked
                    | Ret reply \<Rightarrow> Response \<lparr>resp_ServiceMethod = ServiceMethod rq, resp_Seq = Seq rq,
                        resp_Error = None, resp_Reply = Some reply\<rparr>, st) })))"

subsection \<open>Responses\<close>

lemma make_call_typed:
  assumes "map_of method_table m = Some (type_of_args args, rt)" "m \<noteq> ''Serve''"
  shows "\<exists>c. make_call m args = Some c"
  using assms by (cases args) (auto simp: method_table_def split: if_splits)

text \<open>The replies of a method have its declared type, whatever the backend answers.\<close>

definition replies_with :: "reply_type \<Rightarrow> ('s, rpc_reply go) state \<Rightarrow> bool" where
  "replies_with rt m \<longleftrightarrow> (\<forall>s r. fst (run_state m s) = Ret r \<longrightarrow> type_of_reply r = rt)"

lemma replies_with_replied [simp]:
  "replies_with TErrorResponse (replied ReplyError m)"
  "replies_with TGetEnvResponse (replied ReplyEnv m1)"
  "replies_with TGetBaseInfoResponse (replied ReplyBaseInfo m2)"
  "replies_with TGetServiceInfoResponse (replied ReplyServiceInfo m3)"
  "replies_with TGetBaseUpdateProgressResponse (replied ReplyUpdateProgress m4)"
  "replies_with TIsBaseUpdateAvailableResponse (replied ReplyUpdateAvailable m5)"
  "replies_with TSetupStatusResponse (replied ReplySetupStatus m6)"
  "replies_with TUserAuthenticateResponse (replied ReplyUserAuthenticate m7)"
  "replies_with TGetServiceStatusResponse (replied ReplyServiceStatus m8)"
  by (auto simp: replies_with_def replied_def split: prod.splits)

lemma replies_with_SetHostname [simp]: "replies_with TErrorResponse (do { r \<leftarrow> m; State_Monad.return (map_go ReplyError r) })"
  by (auto simp: replies_with_def map_go_def split: prod.splits go.splits)

lemma make_call_replies:
  assumes "make_call m args = Some c" "map_of method_table m = Some (type_of_args args, rt)"
  shows "replies_with rt (rpc_dispatch M c)"
  using assms
  by (cases args) (auto simp: method_table_def split: if_splits)

lemma served_method:
  assumes "find_method st (ServiceMethod rq) = Inr (m, ty, rt)" "decode ty (Body rq) = Inr args"
    and "type_of_args args = ty" "m \<noteq> ''Serve''"
  shows "\<exists>c. replies_with rt (rpc_dispatch M c) \<and> serve_request M decode rq st = do {
      r \<leftarrow> rpc_dispatch M c;
      State_Monad.return (case r of
          Panic \<Rightarrow> Panicked
        | Ret reply \<Rightarrow> Response \<lparr>resp_ServiceMethod = ServiceMethod rq, resp_Seq = Seq rq,
            resp_Error = None, resp_Reply = Some reply\<rparr>, st) }"
proof -
  have row: "map_of method_table m = Some (type_of_args args, rt)"
    using assms(1,3) by (auto simp: find_method_def split: option.splits if_splits)
  obtain c where c: "make_call m args = Some c" using make_call_typed [OF row assms(4)] by blast
  with make_call_replies [OF c row] assms show ?thesis by (auto simp: serve_request_def)
qed


subsection \<open>One table for all connections\<close>

lemma connections: "0 < n \<Longrightarrow> service ((connect ^^ n) no_servers) = Some 0 \<and>
    created ((connect ^^ n) no_servers) = n \<and> loops ((connect ^^ n) no_servers) = [0..<n]"
proof (induction n)
  case (Suc n)
  then show ?case
    by (cases n) (simp_all add: connect_def NewRPCServer_def rpc_Register_def Serve_def no_servers_def Let_def)
qed simp

lemma cut_last_dot_append: "CHR ''.'' \<notin> set m \<Longrightarrow> cut_last_dot (s @ CHR ''.'' # m) = Some (s, m)"
proof -
  assume "CHR ''.'' \<notin> set m"
  then have m: "\<And>c. c \<in> set (rev m) \<Longrightarrow> c \<noteq> CHR ''.''" by auto
  show ?thesis
    using dropWhile_append2 [of "rev m" "\<lambda>c. c \<noteq> CHR ''.''" "CHR ''.'' # rev s", OF m]
      takeWhile_append2 [of "rev m" "\<lambda>c. c \<noteq> CHR ''.''" "CHR ''.'' # rev s", OF m]
    by (simp add: cut_last_dot_def)
qed

text \<open>
  C36: All connections are served by the server of the first one, since later registrations fail.
  \<open>Serve\<close> is an RPC too, and asks for no token: a client that calls it starts a second server loop
  on the first connection, where the two compete for the messages.
\<close>

theorem serve_is_an_rpc:
  assumes "0 < n" "ServiceMethod rq = ''RPCServer.Serve''" "decode TBool (Body rq) = Inr args"
  shows "\<exists>st. run_state (serve_request M decode rq ((connect ^^ n) no_servers)) s = ((Served_forever, st), s) \<and>
    created st = n \<and> loops st = [0..<n] @ [0] \<and> count_list (loops st) 0 = 2"
proof -
  have "find_method ((connect ^^ n) no_servers) ''RPCServer.Serve'' = Inr (''Serve'', TBool, TBoolPointer)"
    using connections [OF assms(1)] cut_last_dot_append [of "''Serve''" "''RPCServer''"]
    by (simp add: find_method_def method_table_def)
  moreover have "count_list [0..<n] 0 = 1"
    using assms(1) by (simp add: count_list_eq_length_filter upt_conv_Cons)
  ultimately show ?thesis using assms connections [OF assms(1)]
    by (simp add: serve_request_def Serve_def)
qed

definition demo_gob :: gob where
  "demo_gob ty b = (if ty = TBool then Inr (ABool True)
     else if ty = TAuthGenericRequest then Inr (AAuth \<lparr>ag_Token = b\<rparr>) else Inl (ErrorString ''gob: bad data''))"

definition demo_request :: "string \<Rightarrow> rpc_request" where
  "demo_request name = \<lparr>ServiceMethod = ''RPCServer.'' @ name, Seq = 7, Body = []\<rparr>"


lemma serve_is_an_rpc_witness:
  "\<exists>st. run_state (serve_request (middleware_backend sim_env) demo_gob (demo_request ''Serve'') ((connect ^^ 3) no_servers))
     (demo Map.empty) = ((Served_forever, st), demo Map.empty) \<and> count_list (loops st) 0 = 2"
  using serve_is_an_rpc [of 3 "demo_request ''Serve''" demo_gob "ABool True" "middleware_backend sim_env" "demo Map.empty"]
  by (auto simp: demo_request_def demo_gob_def)

end
