(* ===== verification/Wire.thy ===== *)
theory Wire
  imports Net_Rpc "HOL-Library.Sublist"
begin

text \<open>
  The bytes of a connection from end to end: \<open>rpcConn\<close> with its two channels
  (middleware/src/rpcserver/rpcserver.go), the write loop (handlers/websocket.go), and the app on the other
  side of the encrypted channel.  Requests and responses are streams of bytes for \<open>net/rpc\<close>: they
  are cut into messages anywhere, and notifications come between the messages of a response.

  Lemma groups: what is sealed by one end and opened by the other; the channels of \<open>rpcConn\<close>; a request
  and its response; the ciphers, of which there is one pair for all clients.
\<close>

subsection \<open>The connection of the RPC server\<close>

text \<open>The messages that wait in the channels.\<close>

record rpcConn =
  readChan :: "string list"
  writeChan :: "string list"

definition newRPCConn :: rpcConn where
  "newRPCConn = \<lparr>readChan = [], writeChan = []\<rparr>"

definition ReadChan :: "rpcConn \<Rightarrow> string list" where "ReadChan conn = readChan conn"
definition WriteChan :: "rpcConn \<Rightarrow> string list" where "WriteChan conn = writeChan conn"

text \<open>\<open>Read\<close> into a buffer of \<open>n\<close> bytes; it waits as long as there is no message.\<close>

definition conn_Read :: "nat \<Rightarrow> (rpcConn, (string \<times> nat) option) state" where
  "conn_Read n = State (\<lambda>conn. case readChan conn of
     [] \<Rightarrow> (None, conn)
   | message # ms \<Rightarrow> (Some (rpcConn_Read n message), conn\<lparr>readChan := ms\<rparr>))"

definition conn_Write :: "string \<Rightarrow> (rpcConn, nat) state" where
  "conn_Write p = State (\<lambda>conn. case rpcConn_Write p of (message, n) \<Rightarrow>
     (n, conn\<lparr>writeChan := writeChan conn @ [message]\<rparr>))"

definition conn_Close :: "goerr option" where
  "conn_Close = None"

text \<open>The bytes \<open>net/rpc\<close> gets with \<open>k\<close> reads, and a stream it writes in pieces.\<close>

primrec conn_reads :: "nat \<Rightarrow> nat \<Rightarrow> (rpcConn, string) state" where
  "conn_reads n 0 = State_Monad.return []"
| "conn_reads n (Suc k) = do {
     r \<leftarrow> conn_Read n;
     (case r of
        None \<Rightarrow> State_Monad.return []
      | Some (p, m) \<Rightarrow> do { ps \<leftarrow> conn_reads n k; State_Monad.return (p @ ps) })
   }"

primrec conn_writes :: "string list \<Rightarrow> (rpcConn, nat) state" where
  "conn_writes [] = State_Monad.return 0"
| "conn_writes (p # ps) = do { n \<leftarrow> conn_Write p; m \<leftarrow> conn_writes ps; State_Monad.return (n + m) }"

lemma conn_reads_all:
  "list_all (\<lambda>m. length m \<le> n) (readChan conn) \<Longrightarrow>
    run_state (conn_reads n (length (readChan conn))) conn = (concat (readChan conn), conn\<lparr>readChan := []\<rparr>)"
proof (induction "readChan conn" arbitrary: conn)
  case (Cons m ms)
  then have "readChan conn = m # ms" by simp
  with Cons.prems Cons.hyps(1) [of "conn\<lparr>readChan := ms\<rparr>"] show ?case
    by (simp add: conn_Read_def Read_whole)
qed simp

lemma conn_writes_all:
  "run_state (conn_writes ps) conn =
    (length (concat ps), conn\<lparr>writeChan := writeChan conn @ map (\<lambda>p. OpRPCCall @ p) ps\<rparr>)"
  by (induction ps arbitrary: conn) (simp_all add: conn_Write_def rpcConn_Write_def)

subsection \<open>The write loop\<close>

text \<open>
  The messages of the write channel, up to the one on which the loop ends.  That it also ends with
  the read loop is in the theories Connections and Handlers.
\<close>

primrec write_loop :: "('w, 'h, 'c) noise_env \<Rightarrow> string list \<Rightarrow> ('w, 'c, bool option) noise" where
  "write_loop N [] = State_Monad.return (Some True)"
| "write_loop N (m # ms) = do {
     r \<leftarrow> write_loop_step N m;
     (case r of Some True \<Rightarrow> write_loop N ms | _ \<Rightarrow> State_Monad.return r)
   }"

text \<open>The text messages a websocket has been given.\<close>

definition texts :: "noise_effect list \<Rightarrow> string list" where
  "texts es = concat (map (\<lambda>e. case e of WsWrite k b \<Rightarrow> (if k = 1 then [b] else []) | _ \<Rightarrow> []) es)"

lemma texts_simps [simp]: "texts [] = []" "texts (xs @ ys) = texts xs @ texts ys" "texts (WsWrite (Suc 0) b # es) = b # texts es"
  by (simp_all add: texts_def)

subsection \<open>The app\<close>

text \<open>What the app sends with its cipher, and what it gets out of the frames it receives.\<close>

primrec seal :: "('w, 'h, 'c) noise_env \<Rightarrow> 'c \<Rightarrow> string list \<Rightarrow> string list" where
  "seal N c [] = []"
| "seal N c (m # ms) = (case cipher_encrypt N c m of (b, c') \<Rightarrow> b # seal N c' ms)"

primrec opened :: "('w, 'h, 'c) noise_env \<Rightarrow> 'c \<Rightarrow> string list \<Rightarrow> string list" where
  "opened N d [] = []"
| "opened N d (b # bs) = (case cipher_decrypt N d b of
     (Inl e, d') \<Rightarrow> []
   | (Inr m, d') \<Rightarrow> m # opened N d' bs)"

definition is_rpc :: "string \<Rightarrow> bool" where
  "is_rpc m \<longleftrightarrow> m \<noteq> [] \<and> [hd m] = OpRPCCall"

definition rpc_bytes :: "string list \<Rightarrow> string" where
  "rpc_bytes ms = concat (map tl (filter is_rpc ms))"

definition notifications :: "string list \<Rightarrow> string list" where
  "notifications ms = filter (\<lambda>m. \<not> is_rpc m) ms"

text \<open>
  Two ends of an encrypted channel: what one encrypts the other one decrypts, in the order of
  sending, and a cipher text is never empty.  The ends authenticate each other if a text of a
  cipher at another place than the receiver's is rejected.
\<close>

definition cipher_pairs :: "('w, 'h, 'c) noise_env \<Rightarrow> ('c \<Rightarrow> 'c \<Rightarrow> bool) \<Rightarrow> bool" where
  "cipher_pairs N peers \<longleftrightarrow> (\<forall>c d m b c'. peers c d \<longrightarrow> cipher_encrypt N c m = (b, c') \<longrightarrow>
     b \<noteq> [] \<and> (\<exists>d'. cipher_decrypt N d b = (Inr m, d') \<and> peers c' d'))"

definition authenticated :: "('w, 'h, 'c) noise_env \<Rightarrow> ('c \<Rightarrow> 'c \<Rightarrow> bool) \<Rightarrow> bool" where
  "authenticated N peers \<longleftrightarrow> (\<forall>c d m b c'. cipher_encrypt N c m = (b, c') \<longrightarrow>
     (\<not> peers c d \<longrightarrow> isl (fst (cipher_decrypt N d b))) \<and> (peers c d \<longrightarrow> \<not> peers c' d))"

subsection \<open>Through the channel\<close>

lemma read_loop_opens:
  assumes "cipher_pairs N peers"
  shows "peers a d \<Longrightarrow> initialized n \<Longrightarrow> \<not> pairingVerificationRequired n \<Longrightarrow> receiveCipher n = Some d \<Longrightarrow>
    \<exists>d'. run_state (read_loop N (seal N a ms)) n = (ms, n\<lparr>receiveCipher := Some d'\<rparr>)"
proof (induction ms arbitrary: a d n)
  case Nil
  then show ?case by (intro exI [of _ d]) simp
next
  case (Cons m ms)
  obtain b a' where b: "cipher_encrypt N a m = (b, a')" by fastforce
  with assms Cons.prems(1) obtain d1 where d1: "b \<noteq> []" "cipher_decrypt N d b = (Inr m, d1)" "peers a' d1"
    unfolding cipher_pairs_def by blast
  then have "run_state (read_loop_step N b) n = (Forward m, n\<lparr>receiveCipher := Some d1\<rparr>)"
    using Cons.prems by (simp add: read_loop_step_def Decrypt_def)
  with Cons.IH [of a' d1 "n\<lparr>receiveCipher := Some d1\<rparr>"] Cons.prems d1(3) b show ?case by auto
qed

definition writable :: "('w, 'h, 'c) noise_env \<Rightarrow> bool" where
  "writable N \<longleftrightarrow> (\<forall>k b w. fst (ws_write N k b w) = None)"

lemma written_text:
  assumes "writable N" "initialized n" "sendCipher n = Some c"
  obtains m' b c' n' where "m' = (if pairingVerificationRequired n then ''Error: encrypted connection not verified'' else m)"
    "cipher_encrypt N c m' = (b, c')" "run_state (write_loop_step N m) n = (Some True, n')"
    "initialized n'" "sendCipher n' = Some c'" "history n' = history n @ [WsWrite 1 b]"
    "pairingVerificationRequired n' = pairingVerificationRequired n"
proof -
  define m' where "m' = (if pairingVerificationRequired n then ''Error: encrypted connection not verified'' else m)"
  obtain b c' where b: "cipher_encrypt N c m' = (b, c')" by fastforce
  obtain w where w: "ws_write N 1 b (outside n) = (None, w)" using assms(1) by (metis prod.collapse writable_def)
  have "run_state (write_loop_step N m) n =
      (Some True, n\<lparr>sendCipher := Some c', outside := w, history := history n @ [WsWrite 1 b]\<rparr>)"
    using assms(2,3) b w by (simp add: write_loop_step_def Encrypt_def write_message_def Let_def m'_def)
  with that [OF m'_def b] assms(2) show thesis by simp
qed

lemma opened_write_loop:
  assumes "cipher_pairs N peers" "writable N"
  shows "peers c b \<Longrightarrow> initialized n \<Longrightarrow> \<not> pairingVerificationRequired n \<Longrightarrow> sendCipher n = Some c \<Longrightarrow>
    \<exists>n' es. run_state (write_loop N ms) n = (Some True, n') \<and> history n' = history n @ es \<and>
      opened N b (texts es) = ms"
proof (induction ms arbitrary: c b n)
  case Nil
  then show ?case by simp
next
  case (Cons m ms)
  obtain x c' n1 where x: "cipher_encrypt N c m = (x, c')" "run_state (write_loop_step N m) n = (Some True, n1)"
    and n1: "initialized n1" "sendCipher n1 = Some c'" "history n1 = history n @ [WsWrite 1 x]"
      "\<not> pairingVerificationRequired n1"
    using written_text [OF assms(2) Cons.prems(2,4), of m] Cons.prems(3) by metis
  obtain b' where b': "cipher_decrypt N b x = (Inr m, b')" "peers c' b'"
    using assms(1) Cons.prems(1) x(1) unfolding cipher_pairs_def by blast
  with Cons.IH [OF b'(2) n1(1,4,2)] obtain n' es where
      "run_state (write_loop N ms) n1 = (Some True, n')" "history n' = history n1 @ es" "opened N b' (texts es) = ms"
    by auto
  with x n1 b' have "run_state (write_loop N (m # ms)) n = (Some True, n') \<and>
      history n' = history n @ (WsWrite 1 x # es) \<and> opened N b (texts (WsWrite 1 x # es)) = m # ms" by simp
  then show ?case by blast
qed

lemma rpc_bytes_shuffled:
  assumes "out \<in> shuffles (map (\<lambda>p. OpRPCCall @ p) ps) evs" "list_all (\<lambda>e. \<not> is_rpc e) evs"
  shows "rpc_bytes out = concat ps" "notifications out = evs"
proof -
  have rpc: "filter is_rpc (map (\<lambda>p. OpRPCCall @ p) ps) = map (\<lambda>p. OpRPCCall @ p) ps"
    "filter (\<lambda>m. \<not> is_rpc m) (map (\<lambda>p. OpRPCCall @ p) ps) = []"
    by (auto simp: filter_id_conv filter_empty_conv is_rpc_def op_defs)
  have evs: "filter is_rpc evs = []" "filter (\<lambda>m. \<not> is_rpc m) evs = evs"
    using assms(2) by (auto simp: list_all_iff filter_id_conv filter_empty_conv)
  have "filter is_rpc out = map (\<lambda>p. OpRPCCall @ p) ps"
    using filter_shuffles [of is_rpc "map (\<lambda>p. OpRPCCall @ p) ps" evs] assms(1) rpc evs by auto
  moreover have "concat (map tl (map (\<lambda>p. OpRPCCall @ p) ps)) = concat ps"
    by (simp add: comp_def op_defs)
  ultimately show "rpc_bytes out = concat ps" by (simp add: rpc_bytes_def)
  show "notifications out = evs"
    using filter_shuffles [of "\<lambda>m. \<not> is_rpc m" "map (\<lambda>p. OpRPCCall @ p) ps" evs] assms(1) rpc evs
    by (auto simp: notifications_def)
qed

subsection \<open>A request and its response\<close>

text \<open>Requests one after the other, up to one that ends the program.\<close>

primrec serve_requests ::
  "'s Middleware \<Rightarrow> gob \<Rightarrow> rpc_request list \<Rightarrow> rpc_servers \<Rightarrow> ('s, rpc_response list \<times> rpc_servers) state" where
  "serve_requests M decode [] st = State_Monad.return ([], st)"
| "serve_requests M decode (rq # rqs) st = do {
     (r, st') \<leftarrow> serve_request M decode rq st;
     (case r of
        Panicked \<Rightarrow> State_Monad.return ([], st')
      | Served_forever \<Rightarrow> serve_requests M decode rqs st'
      | Response resp \<Rightarrow> do {
          (rs, st'') \<leftarrow> serve_requests M decode rqs st';
          State_Monad.return (resp # rs, st'') })
   }"

lemma serve_requests_answers:
  "run_state (serve_requests M decode rqs st) s = ((rs, st'), s') \<Longrightarrow>
    subseq (map (\<lambda>r. (resp_Seq r, resp_ServiceMethod r)) rs) (map (\<lambda>rq. (Seq rq, ServiceMethod rq)) rqs)"
proof (induction rqs arbitrary: rs st s st' s')
  case (Cons rq rqs)
  obtain r st1 s1 where r: "run_state (serve_request M decode rq st) s = ((r, st1), s1)" by (metis surj_pair)
  have named: "r = Response resp \<Longrightarrow> resp_Seq resp = Seq rq \<and> resp_ServiceMethod resp = ServiceMethod rq" for resp
    using r by (auto simp: serve_request_def refused_def split: sum.splits prod.splits if_splits option.splits go.splits)
  show ?case
  proof (cases r)
    case (Response resp)
    obtain rs1 st2 s2 where rest: "run_state (serve_requests M decode rqs st1) s1 = ((rs1, st2), s2)" by (metis surj_pair)
    from rest Cons.prems r Response have "rs = resp # rs1" by simp
    with Cons.IH [OF rest] named [OF Response] show ?thesis by simp
  qed (use Cons.prems Cons.IH r in \<open>auto intro: list_emb_Cons\<close>)
qed simp

text \<open>
  C16: A paired client's requests are answered, over the whole way.  The bytes of the requests, cut
  into messages of any size a read can take and encrypted by the app, are decrypted and read by
  \<open>net/rpc\<close> as they were; the bytes of the responses, written in any pieces and mixed with any
  notifications, reach the app through the write loop as they were, and the app reads the
  responses and the notifications from them, in the order they were sent.  The responses are to the
  requests, in their order.
\<close>

theorem requests_answered:
  assumes "cipher_pairs N peers" "writable N" "initialized n" "\<not> pairingVerificationRequired n"
    and "receiveCipher n = Some d" "peers a d" "sendCipher n = Some c" "peers c b"
    and "read_requests (write_requests rqs) = rqs" "read_responses (write_responses rs) = rs"
    and "concat reqs = write_requests rqs" "list_all (\<lambda>m. length m \<le> room) reqs"
    and "run_state (serve_requests M decode rqs st) s = ((rs, st'), s')"
    and "concat ps = write_responses rs" "set evs \<subseteq> {OpServiceInfoChanged, OpBaseUpdateProgressChanged,
      OpBaseUpdateIsAvailable, OpBaseUpdateSuccess, OpBaseUpdateFailure}"
  shows "\<exists>n1. run_state (read_loop N (seal N a reqs)) n = (reqs, n1) \<and>
    read_requests (fst (run_state (conn_reads room (length reqs)) (newRPCConn\<lparr>readChan := reqs\<rparr>))) = rqs \<and>
    (\<forall>out \<in> shuffles (WriteChan (snd (run_state (conn_writes ps) newRPCConn))) evs.
      \<exists>n2 es. run_state (write_loop N out) n1 = (Some True, n2) \<and> history n2 = history n1 @ es \<and>
        read_responses (rpc_bytes (opened N b (texts es))) = rs \<and> notifications (opened N b (texts es)) = evs) \<and>
    subseq (map (\<lambda>r. (resp_Seq r, resp_ServiceMethod r)) rs) (map (\<lambda>rq. (Seq rq, ServiceMethod rq)) rqs)"
proof -
  obtain d' where d': "run_state (read_loop N (seal N a reqs)) n = (reqs, n\<lparr>receiveCipher := Some d'\<rparr>)"
    using read_loop_opens [OF assms(1,6,3-5)] by blast
  let ?n1 = "n\<lparr>receiveCipher := Some d'\<rparr>"
  have "fst (run_state (conn_reads room (length reqs)) (newRPCConn\<lparr>readChan := reqs\<rparr>)) = concat reqs"
    using conn_reads_all [of room "newRPCConn\<lparr>readChan := reqs\<rparr>"] assms(12) by simp
  then have "read_requests (fst (run_state (conn_reads room (length reqs)) (newRPCConn\<lparr>readChan := reqs\<rparr>))) = rqs"
    using assms(9,11) by simp
  moreover have "\<exists>n2 es. run_state (write_loop N out) ?n1 = (Some True, n2) \<and> history n2 = history ?n1 @ es \<and>
      read_responses (rpc_bytes (opened N b (texts es))) = rs \<and> notifications (opened N b (texts es)) = evs"
    if "out \<in> shuffles (WriteChan (snd (run_state (conn_writes ps) newRPCConn))) evs" for out
  proof -
    have "list_all (\<lambda>e. \<not> is_rpc e) evs" using assms(15) by (auto simp: list_all_iff is_rpc_def op_defs)
    from rpc_bytes_shuffled [OF _ this] that have out: "rpc_bytes out = concat ps" "notifications out = evs"
      by (simp_all add: conn_writes_all WriteChan_def newRPCConn_def)
    obtain n2 es where "run_state (write_loop N out) ?n1 = (Some True, n2)" "history n2 = history ?n1 @ es"
      "opened N b (texts es) = out"
      using opened_write_loop [OF assms(1,2,8), of ?n1 out] assms(3,4,7) by auto
    with out assms(10,14) show ?thesis by auto
  qed
  ultimately show ?thesis using d' serve_requests_answers [OF assms(13)] by blast
qed

subsection \<open>One pair of ciphers for all clients\<close>

text \<open>The ciphers after a handshake are those of the handshake.\<close>

lemma attempt_succeeded:
  assumes "run_state (attempt m k) s = (Inr x, s')"
  obtains y s1 where "run_state m s = (Inr y, s1)" "run_state (k y) s1 = (Inr x, s')"
  using assms by (auto simp: attempt_def split: sum.splits prod.splits)

lemma keeps_ciphers:
  "run_state (verification_request N) s = (r, s') \<Longrightarrow> sendCipher s' = sendCipher s \<and> receiveCipher s' = receiveCipher s"
  "run_state (announce_pairing N h) s = (q, s') \<Longrightarrow> sendCipher s' = sendCipher s \<and> receiveCipher s' = receiveCipher s"
  by (auto simp: verification_request_def CheckVerification_def announce_pairing_def attempt_def fails_def
      read_message_def write_message_def split: sum.splits prod.splits option.splits list.splits if_splits)

lemma xx_handshake_ciphers:
  assumes "run_state (xx_handshake N h) s = (Inr h', s')"
  shows "\<exists>h0 m. hs_read N h0 m = ((None, sendCipher s', receiveCipher s'), h')"
proof -
  from assms obtain h0 m s1 where "run_state (last_message N h0 m) s1 = (Inr h', s')"
    unfolding xx_handshake_def
    by (auto elim!: attempt_succeeded simp: fails_def split: if_splits prod.splits option.splits)
  then show ?thesis
    by (intro exI [of _ h0] exI [of _ m]) (auto simp: last_message_def fails_def split: prod.splits option.splits)
qed

lemma InitializeNoise_ciphers:
  assumes "run_state (InitializeNoise N) s = (Ret None, s')"
  shows "\<exists>h m h'. hs_read N h m = ((None, sendCipher s', receiveCipher s'), h')"
proof -
  obtain r s1 where r: "run_state (attempt (static_keypair N) (\<lambda>keypair.
       case new_handshake N keypair of
         Inl e \<Rightarrow> fails (''failed to generate a new noise handshake state for the wallet app ''
           @ ''communication with the BitBoxBase'')
       | Inr h \<Rightarrow> attempt (xx_handshake N h) (announce_pairing N))) s = (r, s1)" by fastforce
  with assms obtain u where u: "r = Inr u" "run_state (verification_request N) s1 = (Ret None, s')"
    by (auto simp: InitializeNoise_def split: sum.splits)
  from r [unfolded u(1)] obtain h s2 where "run_state (attempt (xx_handshake N h) (announce_pairing N)) s2 = (Inr u, s1)"
    by (auto elim!: attempt_succeeded simp: fails_def split: sum.splits)
  then obtain h' s3 where h': "run_state (xx_handshake N h) s2 = (Inr h', s3)" "run_state (announce_pairing N h') s3 = (Inr u, s1)"
    by (auto elim!: attempt_succeeded)
  with xx_handshake_ciphers [OF h'(1)] keeps_ciphers(2) [OF h'(2)] keeps_ciphers(1) [OF u(2)] show ?thesis by metis
qed

text \<open>
  C17: There is one pair of ciphers for all connections, so a handshake of a second client, known or
  not, cuts off the first one: the next message of the first client ends its read loop, it
  rejects what its write loop sends it, and that message also costs the second client the next
  message meant for it.
\<close>

theorem handshake_breaks_others:
  assumes "authenticated (N 0) peers" "cipher_encrypt (N 1) = cipher_encrypt (N 0)" "writable (N 0)" "writable (N 1)"
    and "run_state (InitializeNoise (N 1)) n0 = (Ret None, n)" "initialized n"
    and "sendCipher n = Some c" "receiveCipher n = Some d"
    and "\<And>h m c' d' h'. hs_read (N 1) h m = ((None, Some c', Some d'), h') \<Longrightarrow> \<not> peers c' b \<and> \<not> peers a d'"
  shows "fst (run_state (read_loop_step (N 0) (fst (cipher_encrypt (N 0) a request))) n) \<in> {Drop, Close} \<and>
    (\<exists>x n1. run_state (write_loop_step (N 0) m) n = (Some True, n1) \<and> history n1 = history n @ [WsWrite 1 x] \<and>
      opened (N 0) b [x] = [] \<and>
      (\<forall>b2. peers c b2 \<longrightarrow> (\<exists>y n2. run_state (write_loop_step (N 1) m2) n1 = (Some True, n2) \<and>
        history n2 = history n1 @ [WsWrite 1 y] \<and> opened (N 0) b2 [y] = [])))"
proof -
  have stranger: "\<not> peers c b" "\<not> peers a d" using InitializeNoise_ciphers [OF assms(5)] assms(7-9) by metis+
  have no_text: "opened (N 0) b1 [x] = []" if "cipher_encrypt (N 0) c1 m' = (x, c1')" "\<not> peers c1 b1" for c1 b1 m' x c1'
  proof -
    have "isl (fst (cipher_decrypt (N 0) b1 x))" using assms(1) that unfolding authenticated_def by blast
    then show ?thesis by (auto simp: isl_def split: prod.splits)
  qed
  have "isl (fst (cipher_decrypt (N 0) d (fst (cipher_encrypt (N 0) a request))))"
    using assms(1) stranger(2) unfolding authenticated_def by (metis prod.collapse)
  then have refused: "fst (run_state (read_loop_step (N 0) (fst (cipher_encrypt (N 0) a request))) n) \<in> {Drop, Close}"
    using assms(6,8) by (auto simp: read_loop_step_def Decrypt_def isl_def split: prod.splits)
  obtain m' x c' n1 where x: "cipher_encrypt (N 0) c m' = (x, c')" "run_state (write_loop_step (N 0) m) n = (Some True, n1)"
    and n1: "initialized n1" "sendCipher n1 = Some c'" "history n1 = history n @ [WsWrite 1 x]"
    using written_text [OF assms(3,6,7), of m] by metis
  obtain m2' y c2 n2 where y: "cipher_encrypt (N 0) c' m2' = (y, c2)" "run_state (write_loop_step (N 1) m2) n1 = (Some True, n2)"
    "history n2 = history n1 @ [WsWrite 1 y]"
    using written_text [OF assms(4) n1(1,2), of m2] assms(2) by metis
  have "opened (N 0) b2 [y] = []" if "peers c b2" for b2
  proof (rule no_text [OF y(1)])
    show "\<not> peers c' b2" using assms(1) x(1) that unfolding authenticated_def by blast
  qed
  with refused x(2) n1(3) y(2,3) no_text [OF x(1) stranger(1)] show ?thesis by blast
qed

subsection \<open>Examples\<close>

text \<open>A cipher that sends its key and a counter along with the plain text.\<close>

definition tag :: "nat \<times> nat \<Rightarrow> string" where
  "tag c = replicate (fst c) (CHR ''k'') @ CHR '':'' # replicate (snd c) (CHR ''n'') @ [CHR '':'']"

lemma run_length: "replicate i x @ y # ys = replicate j x @ y # zs \<Longrightarrow> x \<noteq> y \<Longrightarrow> i = j \<and> ys = zs"
proof (induction i arbitrary: j)
  case 0
  then show ?case by (cases j) auto
next
  case (Suc i)
  then show ?case by (cases j) auto
qed

lemma tag_prefix:
  assumes "tag c @ m = tag d @ m'" shows "c = d"
proof -
  let ?x = "CHR ''k''" and ?y = "CHR '':''" and ?z = "CHR ''n''"
  have "replicate (fst c) ?x @ ?y # (replicate (snd c) ?z @ ?y # m) = replicate (fst d) ?x @ ?y # (replicate (snd d) ?z @ ?y # m')"
    using assms by (simp add: tag_def)
  note keys = run_length [OF this]
  then have "replicate (snd c) ?z @ ?y # m = replicate (snd d) ?z @ ?y # m'" by simp
  from run_length [OF this] keys show ?thesis by (simp add: prod_eq_iff)
qed

definition tag_encrypt :: "nat \<times> nat \<Rightarrow> string \<Rightarrow> string \<times> nat \<times> nat" where
  "tag_encrypt c m = (tag c @ m, (fst c, Suc (snd c)))"

definition tag_decrypt :: "nat \<times> nat \<Rightarrow> string \<Rightarrow> (goerr + string) \<times> nat \<times> nat" where
  "tag_decrypt d b = (if take (length (tag d)) b = tag d
     then (Inr (drop (length (tag d)) b), (fst d, Suc (snd d))) else (Inl (ErrorString ''chacha20poly1305: message authentication failed''), d))"

text \<open>The handshake of client \<open>i\<close> ends with the keys \<open>2 i\<close> and \<open>2 i + 1\<close>.\<close>

definition demo_wire :: "nat \<Rightarrow> (string list, nat, nat \<times> nat) noise_env" where
  "demo_wire i = \<lparr>file_path = (\<lambda>d n. d @ n), stat_file = (\<lambda>p w. False),
     read_file = (\<lambda>p w. Inl (ErrorString ''no file'')), mkdir_all = (\<lambda>d w. (None, w)),
     write_file = (\<lambda>p d w. (Some (ErrorString ''read-only file system''), w)),
     ws_read = (\<lambda>w. case w of [] \<Rightarrow> (Inl (ErrorString ''closed''), []) | m # ms \<Rightarrow> (Inr m, ms)),
     ws_write = (\<lambda>k b w. (None, w)),
     generate_keypair = (\<lambda>w. (Inr \<lparr>Private = Some ''private'', Public = Some ''public''\<rparr>, w)),
     new_handshake = (\<lambda>kp. Inr 0),
     hs_read = (\<lambda>h m. if h = 2 then ((None, Some (2 * i, 0), Some (2 * i + 1, 0)), 3) else ((None, None, None), Suc h)),
     hs_write = (\<lambda>h w. ((Inr ''second'', Suc h), w)),
     peer_static = (\<lambda>h. replicate 32 (CHR ''k'')), channel_binding = (\<lambda>h. ''channel''),
     cipher_encrypt = tag_encrypt, cipher_decrypt = tag_decrypt,
     verify_pairing = (\<lambda>h w. ((True, None), w))\<rparr>"

lemma demo_wire_ciphers [simp]:
  "cipher_pairs (demo_wire i) (=)" "authenticated (demo_wire i) (=)" "writable (demo_wire i)"
  "cipher_encrypt (demo_wire i) = tag_encrypt"
proof -
  have decrypted: "take (length (tag d)) (tag c @ m) = tag d \<Longrightarrow> c = d" for c d m
    by (metis append_take_drop_id tag_prefix)
  show "cipher_pairs (demo_wire i) (=)"
    by (auto simp: cipher_pairs_def demo_wire_def tag_encrypt_def tag_decrypt_def tag_def)
  have "isl (fst (tag_decrypt d (tag c @ m)))" if "c \<noteq> d" for c d m
    unfolding tag_decrypt_def using that decrypted [of d c m] by (auto simp del: take_append)
  moreover have "cipher_encrypt (demo_wire i) = tag_encrypt" "cipher_decrypt (demo_wire i) = tag_decrypt"
    by (simp_all add: demo_wire_def)
  ultimately show "authenticated (demo_wire i) (=)"
    by (auto simp: authenticated_def tag_encrypt_def)
qed (simp_all add: writable_def demo_wire_def)

definition paired_wire :: "(string list, nat \<times> nat) noise_state" where
  "paired_wire = (NewNoiseConfig ''.base'' [])\<lparr>initialized := True, sendCipher := Some (0, 0), receiveCipher := Some (1, 0)\<rparr>"

lemma handshake_breaks_others_witness:
  "\<exists>n0 n x n1. run_state (InitializeNoise (demo_wire 1)) n0 = (Ret None, n) \<and>
     run_state (write_loop_step (demo_wire 0) ''reply'') n = (Some True, n1) \<and>
     history n1 = history n @ [WsWrite 1 x] \<and> opened (demo_wire 0) (0, 0) [x] = []"
proof -
  let ?n0 = "paired_wire\<lparr>outside := [''h'', ''first'', ''third'', ''v'']\<rparr>"
  obtain r n where run: "run_state (InitializeNoise (demo_wire 1)) ?n0 = (r, n)" by fastforce
  then have n: "r = Ret None" "initialized n" "sendCipher n = Some (2, 0)" "receiveCipher n = Some (3, 0)"
    by (auto simp: InitializeNoise_def attempt_def static_keypair_def NewNoiseConfig_def demo_wire_def paired_wire_def
        xx_handshake_def read_message_def write_message_def second_message_def last_message_def announce_pairing_def
        verification_request_def CheckVerification_def getMiddlewareNoiseStaticKeypair_def readConfig_def
        empty_configuration_def setMiddlewareNoiseStaticKeypair_def storeConfig_def File_write_def
        containsClientStaticPubkey_def addClientStaticPubkey_def pubkey_list_def)
  have "\<not> (c' = (0, 0)) \<and> \<not> ((1, 0) = d')" if "hs_read (demo_wire 1) h m = ((None, Some c', Some d'), h')" for h m c' d' h'
    using that by (auto simp: demo_wire_def split: if_splits)
  from handshake_breaks_others [where N = demo_wire and peers = "(=)", OF _ _ _ _ run [unfolded n(1)] n(2-4) this] run n
  show ?thesis by fastforce
qed

text \<open>A status request in two messages; the response in two pieces around a notification.\<close>

lemma requests_answered_witness:
  "\<exists>n1 rs n2 es. run_state (read_loop (demo_wire 0) (seal (demo_wire 0) (1, 0) [''requ'', ''est''])) paired_wire = ([''requ'', ''est''], n1) \<and>
     rs \<noteq> [] \<and> run_state (write_loop (demo_wire 0) [''rresp'', ''u'', ''ronse'']) n1 = (Some True, n2) \<and>
     history n2 = history n1 @ es \<and> rpc_bytes (opened (demo_wire 0) (0, 0) (texts es)) = ''response'' \<and>
     notifications (opened (demo_wire 0) (0, 0) (texts es)) = [''u'']"
proof -
  let ?rqs = "[demo_request ''NoSuchMethod'']"
  have n: "initialized paired_wire" "\<not> pairingVerificationRequired paired_wire"
    "receiveCipher paired_wire = Some (1, 0)" "sendCipher paired_wire = Some (0, 0)"
    by (simp_all add: paired_wire_def NewNoiseConfig_def)
  define rs where "rs = fst (fst (run_state (serve_requests (middleware_backend sim_env) demo_gob ?rqs no_servers) (demo Map.empty)))"
  obtain st' s' where run: "run_state (serve_requests (middleware_backend sim_env) demo_gob ?rqs no_servers) (demo Map.empty) = ((rs, st'), s')"
    unfolding rs_def by (metis prod.collapse)
  have answered: "rs \<noteq> []"
    by (simp add: rs_def serve_request_def find_method_def no_servers_def refused_def demo_request_def split: option.splits)
  define read where "read = (\<lambda>b :: string. if b = ''response'' then rs else [])"
  have read: "read ''response'' = rs" "\<And>b. read b = rs \<Longrightarrow> b = ''response''"
    using answered by (auto simp: read_def split: if_splits)
  have out: "[''rresp'', ''u'', ''ronse''] \<in> shuffles (WriteChan (snd (run_state (conn_writes [''resp'', ''onse'']) newRPCConn))) [''u'']"
    by (simp add: conn_Write_def rpcConn_Write_def WriteChan_def newRPCConn_def op_defs Cons_in_shuffles_iff)
  have small: "concat [''requ'', ''est''] = ''request''" "list_all (\<lambda>m. length m \<le> 4096) [''requ'', ''est'']"
    "concat [''resp'', ''onse''] = ''response''"
    "set [''u''] \<subseteq> {OpServiceInfoChanged, OpBaseUpdateProgressChanged, OpBaseUpdateIsAvailable, OpBaseUpdateSuccess, OpBaseUpdateFailure}"
    by (simp_all add: op_defs)
  from requests_answered [OF demo_wire_ciphers(1,3) n(1-3) refl n(4) refl, of "\<lambda>b. ?rqs" "\<lambda>rqs. ''request''" ?rqs read "\<lambda>rs. ''response''" rs,
      OF refl read(1) small(1,2) run small(3,4)] out read(2) answered show ?thesis by blast
qed

end
