(* ===== verification/Pipe_Reader.thy ===== *)
theory Pipe_Reader
  imports Ipcnotification
begin

text \<open>
  The reader of the named pipe in steps (middleware/src/ipcnotification/ipcnotification.go, \<open>Reader\<close>):
  other processes write, the goroutine \<open>read\<close> takes what is there into the buffer of its scanner
  and offers one notification at a time on the channel, and \<open>Close\<close> may come at any moment.

  Lemma groups: the steps implement \<open>scan_pipe\<close>, whatever the pieces the bytes arrive in; a reader
  that is closed ends, if its channel is emptied.
\<close>

subsection \<open>Reader\<close>

text \<open>Where the goroutine stands: in \<open>Scan\<close>, at the channel with a notification, or at its end.\<close>

datatype reading = Scanning | Sending Notification | Ended

text \<open>
  \<open>taken\<close> is what was received from the channel, \<open>namedPipe\<close> the bytes that wait in the pipe as long
  as its file is open; \<open>buffer\<close> and \<open>failed\<close> are the scanner's.
\<close>

record reader =
  taken :: "Notification list"
  closing :: bool
  namedPipe :: "string option"
  buffer :: string
  failed :: bool
  place :: reading

definition opened_reader :: reader where
  "opened_reader = \<lparr>taken = [], closing = False, namedPipe = Some [], buffer = [], failed = False, place = Scanning\<rparr>"

definition offer :: "string \<Rightarrow> reader \<Rightarrow> reader" where
  "offer notificationBytes r = (case read_line notificationBytes of
     [] \<Rightarrow> r | notification # _ \<Rightarrow> r\<lparr>place := Sending notification\<rparr>)"

text \<open>
  A step of the goroutine: a line of the buffer; after a failed read the unfinished line, and then
  the end; the end if the buffer is full without a line; or else up to \<open>k\<close> more bytes.
\<close>

definition reader_turn :: "nat \<Rightarrow> reader \<Rightarrow> reader" where
  "reader_turn k r = (if place r \<noteq> Scanning then r else
     (let l = takeWhile (\<lambda>c. c \<noteq> newline_char) (buffer r) in
      if length l < length (buffer r) then offer (drop_cr l) (r\<lparr>buffer := drop (length l + 1) (buffer r)\<rparr>)
      else if failed r \<and> buffer r \<noteq> [] then offer (drop_cr l) (r\<lparr>buffer := []\<rparr>)
      else if failed r \<or> max_scan_token \<le> length (buffer r) then r\<lparr>place := Ended, namedPipe := None\<rparr>
      else (case namedPipe r of
          None \<Rightarrow> r\<lparr>failed := True\<rparr>
        | Some bytes \<Rightarrow> (let n = min k (max_scan_token - length (buffer r))
            in r\<lparr>buffer := buffer r @ take n bytes, namedPipe := Some (drop n bytes)\<rparr>))))"

text \<open>Receiving from the channel of \<open>Notifications\<close>, which waits if nothing is offered.\<close>

definition receive :: "reader \<Rightarrow> reader" where
  "receive r = (case place r of Sending n \<Rightarrow> r\<lparr>taken := taken r @ [n], place := Scanning\<rparr> | _ \<Rightarrow> r)"

definition Reader_Close :: "reader \<Rightarrow> goerr option \<times> reader" where
  "Reader_Close r = (if namedPipe r = None then Some (ErrorString ''file already closed'') else None,
     r\<lparr>closing := True, namedPipe := None\<rparr>)"

text \<open>The reader with all that was written to its pipe.\<close>

inductive reader_step :: "reader \<times> string \<Rightarrow> reader \<times> string \<Rightarrow> bool" where
  reads: "reader_step (r, w) (reader_turn k r, w)"
| received: "reader_step (r, w) (receive r, w)"
| written: "namedPipe r = Some bytes \<Longrightarrow> reader_step (r, w) (r\<lparr>namedPipe := Some (bytes @ new)\<rparr>, w @ new)"
| closed: "reader_step (r, w) (snd (Reader_Close r), w)"

subsection \<open>The steps implement the scan\<close>

fun offered :: "reading \<Rightarrow> Notification list" where
  "offered (Sending n) = [n]"
| "offered _ = []"

definition lines_ok :: "string list \<Rightarrow> bool" where
  "lines_ok ls \<longleftrightarrow> (\<forall>l \<in> set ls. newline_char \<notin> set l \<and> length l < max_scan_token)"

definition reader_ok :: "reader \<times> string \<Rightarrow> bool" where
  "reader_ok c \<longleftrightarrow> (case c of (r, w) \<Rightarrow> \<not> closing r \<longrightarrow> \<not> failed r \<and> (\<exists>ls. lines_ok ls \<and>
     taken r @ offered (place r) = concat (map (read_line \<circ> drop_cr) ls) \<and>
     (if place r = Ended
      then namedPipe r = None \<and> (\<exists>big later. w = stream ls (big @ later) \<and> newline_char \<notin> set big \<and> max_scan_token \<le> length big)
      else \<exists>bytes. namedPipe r = Some bytes \<and> w = stream ls (buffer r @ bytes) \<and> length (buffer r) \<le> max_scan_token)))"

lemma stream_snoc: "stream (ls @ [l]) rest = stream ls (l @ newline_char # rest)"
  by (simp add: stream_def)

lemma stream_append: "stream ls rest @ new = stream ls (rest @ new)"
  by (simp add: stream_def)

lemma read_line_one: "read_line l = [] \<or> (\<exists>n. read_line l = [n])"
  by (simp add: read_line_def split: option.split)

lemma offer_fields [simp]:
  "taken (offer l r) = taken r" "closing (offer l r) = closing r" "namedPipe (offer l r) = namedPipe r"
  "buffer (offer l r) = buffer r" "failed (offer l r) = failed r"
  by (cases "read_line l"; simp add: offer_def)+

lemma offered_offer [simp]: "place r = Scanning \<Longrightarrow> offered (place (offer l r)) = read_line l"
  "place r = Scanning \<Longrightarrow> place (offer l r) \<noteq> Ended"
  using read_line_one [of l] by (auto simp: offer_def)

lemma first_line: "length (takeWhile P s) < length s \<Longrightarrow>
    s = takeWhile P s @ s ! length (takeWhile P s) # drop (length (takeWhile P s) + 1) s \<and> \<not> P (s ! length (takeWhile P s))"
  by (metis Cons_nth_drop_Suc Suc_eq_plus1 append_take_drop_id nth_length_takeWhile takeWhile_eq_take)

lemma reader_turn_ok:
  assumes "reader_ok (r, w)" shows "reader_ok (reader_turn k r, w)"
proof (cases "closing r \<or> place r \<noteq> Scanning")
  case True
  with assms show ?thesis
    by (cases "place r = Scanning") (auto simp: reader_ok_def reader_turn_def Let_def split: option.splits)
next
  case False
  with assms obtain ls bytes where r: "\<not> closing r" "place r = Scanning" "\<not> failed r" "lines_ok ls"
    "taken r = concat (map (read_line \<circ> drop_cr) ls)" "namedPipe r = Some bytes"
    "w = stream ls (buffer r @ bytes)" "length (buffer r) \<le> max_scan_token" by (auto simp: reader_ok_def)
  define l where "l = takeWhile (\<lambda>c. c \<noteq> newline_char) (buffer r)"
  have l: "newline_char \<notin> set l" unfolding l_def by (auto dest: set_takeWhileD)
  show ?thesis
  proof (cases "length l < length (buffer r)")
    case True
    with first_line [of "\<lambda>c. c \<noteq> newline_char" "buffer r"] have
      "buffer r = l @ newline_char # drop (length l + 1) (buffer r)" using True unfolding l_def by metis
    then have "w = stream (ls @ [l]) (drop (length l + 1) (buffer r) @ bytes)"
      unfolding stream_snoc using r(7) by (metis append_Cons append_assoc)
    moreover have "lines_ok (ls @ [l])" using r(4,8) l True by (auto simp: lines_ok_def)
    ultimately show ?thesis using r True
      by (auto simp: reader_ok_def reader_turn_def l_def [symmetric] intro!: exI [of _ "ls @ [l]"])
  next
    case False
    then have "l = buffer r" using takeWhile_eq_take [of "\<lambda>c. c \<noteq> newline_char" "buffer r"] by (simp add: l_def)
    with l False r show ?thesis
      by (auto simp: reader_ok_def reader_turn_def l_def [symmetric] Let_def intro!: exI [of _ ls])
  qed
qed

lemma reader_step_ok: "reader_step c c' \<Longrightarrow> reader_ok c \<Longrightarrow> reader_ok c'"
proof (induction rule: reader_step.induct)
  case (reads r w k)
  then show ?case by (rule reader_turn_ok)
next
  case (received r w)
  then show ?case by (cases "place r") (auto simp: reader_ok_def receive_def)
next
  case (written r bytes w new)
  then show ?case
    by (auto simp: reader_ok_def stream_append split: if_splits)
next
  case (closed r w)
  then show ?case by (simp add: reader_ok_def Reader_Close_def)
qed

lemma lines_ok_scan: "lines_ok ls \<Longrightarrow> scan_pipe (stream ls rest) =
    (concat (map (read_line \<circ> drop_cr) ls) @ fst (scan_pipe rest), snd (scan_pipe rest))"
  by (rule scan_stream) (simp add: lines_ok_def)

lemma overlong_rest: "newline_char \<notin> set big \<Longrightarrow> max_scan_token \<le> length big \<Longrightarrow> scan_pipe (big @ later) = ([], False)"
  using overlong_line_stops_reader [of "[]" big later] by (simp add: stream_def)

text \<open>The reader waits for bytes: its step does nothing.\<close>

lemma waiting_for_bytes:
  assumes "place r = Scanning" "reader_turn k r = r" "0 < k" "namedPipe r = Some bytes" "\<not> failed r"
  shows "newline_char \<notin> set (buffer r) \<and> length (buffer r) < max_scan_token \<and> bytes = []"
proof -
  define l where "l = takeWhile (\<lambda>c. c \<noteq> newline_char) (buffer r)"
  note step = assms(2) [unfolded reader_turn_def Let_def, folded l_def]
  have "\<not> length l < length (buffer r)"
  proof
    assume "length l < length (buffer r)"
    with step assms(1) have "buffer r = drop (length l + 1) (buffer r)"
      by (metis (no_types, lifting) offer_fields(4) reader.select_convs(4) reader.surjective reader.update_convs(4))
    then have "length (buffer r) = length (buffer r) - (length l + 1)" by (metis length_drop)
    with \<open>length l < length (buffer r)\<close> show False by simp
  qed
  then have l: "l = buffer r" using takeWhile_eq_take [of "\<lambda>c. c \<noteq> newline_char" "buffer r"] by (simp add: l_def)
  then have "newline_char \<notin> set (buffer r)" unfolding l_def by (metis set_takeWhileD)
  moreover have "\<not> max_scan_token \<le> length (buffer r)"
    using step assms(1,5) l by (auto dest: arg_cong [where f = place])
  moreover have "take (min k (max_scan_token - length (buffer r))) bytes = []"
    using step assms(1,4,5) l calculation(2) by (auto dest: arg_cong [where f = buffer])
  ultimately show ?thesis using assms(3) by auto
qed

text \<open>
  C38: Whatever pieces the bytes arrive in, and whenever the channel is emptied: until it is closed the reader
  has delivered the first of the notifications that \<open>scan_pipe\<close> finds in all that was written, it
  has delivered all of them when it waits for more, and it ends exactly at a line that is too long.
\<close>

theorem reader_delivers:
  assumes "reader_step\<^sup>*\<^sup>* (opened_reader, []) (r, w)" "\<not> closing r" "0 < k"
  shows "(\<exists>later. fst (scan_pipe w) = taken r @ offered (place r) @ later) \<and>
    (place r = Scanning \<and> reader_turn k r = r \<longrightarrow> scan_pipe w = (taken r, True)) \<and>
    (place r = Ended \<longrightarrow> scan_pipe w = (taken r, False))"
proof -
  have "reader_ok (opened_reader, [])" by (auto simp: reader_ok_def opened_reader_def lines_ok_def stream_def)
  with assms(1) have "reader_ok (r, w)" by (induction rule: rtranclp_induct) (auto intro: reader_step_ok)
  with assms(2) obtain ls where ls: "\<not> failed r" "lines_ok ls" "taken r @ offered (place r) = concat (map (read_line \<circ> drop_cr) ls)"
    and here: "if place r = Ended
      then namedPipe r = None \<and> (\<exists>big later. w = stream ls (big @ later) \<and> newline_char \<notin> set big \<and> max_scan_token \<le> length big)
      else \<exists>bytes. namedPipe r = Some bytes \<and> w = stream ls (buffer r @ bytes) \<and> length (buffer r) \<le> max_scan_token"
    by (auto simp: reader_ok_def)
  show ?thesis
  proof (cases "place r = Ended")
    case True
    with here ls show ?thesis by (auto simp: lines_ok_scan overlong_rest)
  next
    case False
    with here obtain bytes where b: "namedPipe r = Some bytes" "w = stream ls (buffer r @ bytes)" by auto
    have "scan_pipe w = (taken r, True)" if "place r = Scanning" "reader_turn k r = r"
      using waiting_for_bytes [OF that assms(3) b(1) ls(1)] b(2) ls that by (simp add: lines_ok_scan scan_pipe_rest)
    moreover have "fst (scan_pipe w) = taken r @ offered (place r) @ fst (scan_pipe (buffer r @ bytes))"
      using b(2) ls(2,3) by (simp add: lines_ok_scan)
    ultimately show ?thesis using False by blast
  qed
qed

subsection \<open>Closing\<close>

definition rounds_left :: "reader \<Rightarrow> nat" where
  "rounds_left r = length (buffer r) + (if failed r then 0 else 1) + length (offered (place r)) + (if place r = Ended then 0 else 1)"

lemma closed_round:
  assumes "namedPipe r = None" "place r \<noteq> Ended"
  shows "rounds_left (receive (reader_turn k r)) < rounds_left r" "namedPipe (receive (reader_turn k r)) = None"
proof -
  have open_: "namedPipe (reader_turn k r) = None" using assms(1) by (simp add: reader_turn_def Let_def)
  then show "namedPipe (receive (reader_turn k r)) = None" by (simp add: receive_def split: reading.split)
  show "rounds_left (receive (reader_turn k r)) < rounds_left r"
  proof (cases "place r")
    case (Sending n)
    then show ?thesis by (simp add: reader_turn_def receive_def rounds_left_def)
  next
    case Scanning
    define l where "l = takeWhile (\<lambda>c. c \<noteq> newline_char) (buffer r)"
    have received: "rounds_left (receive (offer x r')) = length (buffer r') + (if failed r' then 0 else 1) + 1"
      if "place r' = Scanning" for x r'
      using read_line_one [of x] that by (auto simp: offer_def receive_def rounds_left_def)
    show ?thesis using Scanning assms(1)
      by (auto simp: reader_turn_def l_def [symmetric] Let_def received) (auto simp: receive_def rounds_left_def)
  qed (use assms(2) in simp)
qed

lemma closed_rounds:
  "namedPipe r = None \<Longrightarrow> rounds_left r \<le> n \<Longrightarrow> place (((\<lambda>r. receive (reader_turn k r)) ^^ n) r) = Ended"
proof (induction n arbitrary: r)
  case 0
  then show ?case by (simp add: rounds_left_def split: if_splits)
next
  case (Suc n)
  show ?case
  proof (cases "place r = Ended")
    case True
    then have "((\<lambda>r. receive (reader_turn k r)) ^^ m) r = r" for m
      by (induction m) (simp_all add: reader_turn_def receive_def)
    with True show ?thesis by metis
  next
    case False
    with closed_round [OF Suc.prems(1) False, of k] Suc.IH [of "receive (reader_turn k r)"] Suc.prems(2)
    show ?thesis by (simp add: funpow_Suc_right del: funpow.simps)
  qed
qed

text \<open>
  A closed reader ends: after \<open>Close\<close>, with the channel emptied, its goroutine ends within three
  rounds more than its scanner's buffer has bytes.  Nobody needs to empty it, though: a goroutine
  that stands at the channel then stays there for good.
\<close>

theorem closed_reader_ends:
  assumes "length (buffer r) + 3 \<le> n"
  shows "place (((\<lambda>r. receive (reader_turn k r)) ^^ n) (snd (Reader_Close r))) = Ended \<and>
    (\<forall>m x. place r = Sending x \<longrightarrow> (reader_turn k ^^ m) (snd (Reader_Close r)) = snd (Reader_Close r))"
proof -
  have "length (offered (place r)) \<le> 1" by (cases "place r") simp_all
  then have "rounds_left (snd (Reader_Close r)) \<le> length (buffer r) + 3"
    by (simp add: rounds_left_def Reader_Close_def)
  with assms have "rounds_left (snd (Reader_Close r)) \<le> n" by simp
  then have "place (((\<lambda>r. receive (reader_turn k r)) ^^ n) (snd (Reader_Close r))) = Ended"
    by (intro closed_rounds) (simp_all add: Reader_Close_def)
  moreover have "(reader_turn k ^^ m) (snd (Reader_Close r)) = snd (Reader_Close r)" if "place r = Sending x" for m x
    using that by (induction m) (simp_all add: reader_turn_def Reader_Close_def)
  ultimately show ?thesis by blast
qed

lemma reader_delivers_witness:
  "\<exists>r. reader_step\<^sup>*\<^sup>* (opened_reader, []) (r, stream [''null''] ''nu'') \<and> taken r = [zero_notification] \<and>
     (\<exists>later. fst (scan_pipe (stream [''null''] ''nu'')) = zero_notification # later)"
proof -
  have "json_parse ''null'' = Some JNull" using json_parse_text [of JNull] by simp
  then have line: "read_line ''null'' = [zero_notification]" by (simp add: read_line_def Unmarshal_notification_def)
  have bytes: "stream [''null''] ''nu'' = ''null'' @ newline_char # ''nu''" by (simp add: stream_def)
  define r1 where "r1 = opened_reader\<lparr>namedPipe := Some (stream [''null''] ''nu'')\<rparr>"
  define r2 where "r2 = receive (reader_turn 9 (reader_turn 9 r1))"
  let ?w = "stream [''null''] ''nu''"
  have "reader_step (opened_reader, []) (r1, ?w)"
    using reader_step.written [of opened_reader "[]" "[]" ?w] by (simp add: r1_def opened_reader_def)
  then have run: "reader_step\<^sup>*\<^sup>* (opened_reader, []) (r2, ?w)"
    unfolding r2_def by (meson r_into_rtranclp rtranclp.rtrancl_into_rtrancl reader_step.reads reader_step.received)
  have r2: "taken r2 = [zero_notification]" "\<not> closing r2"
    by (simp_all add: r2_def r1_def opened_reader_def reader_turn_def bytes newline_char_def max_scan_token_def
        offer_def receive_def drop_cr_def line)
  from reader_delivers [OF run r2(2), of 1] r2(1) obtain later where "fst (scan_pipe ?w) = zero_notification # later"
    by auto
  with run r2(1) show ?thesis by blast
qed

lemma closed_reader_ends_witness:
  "place (((\<lambda>r. receive (reader_turn 1 r)) ^^ 3) (snd (Reader_Close opened_reader))) = Ended"
  using closed_reader_ends [of opened_reader 3 1] by (simp add: opened_reader_def)

end
