(* ===== verification/Supervisor.thy ===== *)
theory Supervisor
  imports Simulation Prometheus
begin

text \<open>
  The supervisor daemon (tools/bbbsupervisor): watchers turn log lines of the services and
  measurements of Prometheus into events, and the event loop restarts services or switches the
  download state of the Base.

  Redis, the processes and HTTP are those of the middleware's environment; \<open>now\<close> is the wall clock
  in nanoseconds since 1970, read from the outside world.  A command whose output is not read is
  \<open>Exec\<close> in the trace.  \<open>restarts\<close> (trigger, time of the check, time of the record) and
  \<open>config_sets\<close> are history and are read by no operation.  Durations and measured values in error texts are left
  out; of \<open>fmt.Errorf\<close> applied to the bytes of a log, only the bytes are kept.

  Lemma groups: log lines; flooding and restarts; the download state.
\<close>

subsection \<open>Triggers and events\<close>

definition ElectrsFullySynced :: int where "ElectrsFullySynced = 1"
definition ElectrsNoBitcoindConnectivity :: int where "ElectrsNoBitcoindConnectivity = 2"
definition MiddlewareNoBitcoindConnectivity :: int where "MiddlewareNoBitcoindConnectivity = 3"
definition PrometheusBitcoindIBD :: int where "PrometheusBitcoindIBD = 4"

lemmas trigger_defs = ElectrsFullySynced_def ElectrsNoBitcoindConnectivity_def
  MiddlewareNoBitcoindConnectivity_def PrometheusBitcoindIBD_def

definition trigger_String :: "int \<Rightarrow> string" where
  "trigger_String t =
     (if t = ElectrsFullySynced then ''electrsFullySynced''
      else if t = ElectrsNoBitcoindConnectivity then ''electrsNoBitcoindConnectivity''
      else if t = MiddlewareNoBitcoindConnectivity then ''triggerMiddlewareNoBitcoindConnectivity''
      else if t = PrometheusBitcoindIBD then ''prometheusBitcoindIBD''
      else '''')"

text \<open>\<open>Time.Sub\<close> saturates; times and durations are in nanoseconds.\<close>

definition time_Sub :: "int \<Rightarrow> int \<Rightarrow> int" where
  "time_Sub a b = max int_min (min int_max (a - b))"

definition seconds :: "int \<Rightarrow> int" where "seconds n = n * 1000000000"

definition IsFlooding :: "int \<Rightarrow> int \<Rightarrow> int \<Rightarrow> int \<Rightarrow> goerr option" where
  "IsFlooding t minDelay lastTimeTriggered time =
     (if time_Sub time (seconds lastTimeTriggered) < minDelay
      then Some (ErrorString (''trigger '' @ trigger_String t @ '' is flodding.'')) else None)"

record watch_event =
  Unit :: string
  Trigger :: int
  Measure :: string
  Value :: float64

type_synonym message = "goerr + watch_event"

subsection \<open>Watching logs\<close>

definition parseEvent :: "string \<Rightarrow> string \<Rightarrow> watch_event option" where
  "parseEvent line unit =
     (if Contains line ''finished full compaction''
      then Some \<lparr>Unit = unit, Trigger = ElectrsFullySynced, Measure = [], Value = Fin 0\<rparr>
      else if Contains line ''WARN - reconnecting to bitcoind: no reply from daemon''
      then Some \<lparr>Unit = unit, Trigger = ElectrsNoBitcoindConnectivity, Measure = [], Value = Fin 0\<rparr>
      else if Contains line ''GetBlockChainInfo rpc call failed''
      then Some \<lparr>Unit = unit, Trigger = MiddlewareNoBitcoindConnectivity, Measure = [], Value = Fin 0\<rparr>
      else None)"

text \<open>The events a write sends on the channel, and the number of bytes it reports.\<close>

definition EventWriter_Write :: "string \<Rightarrow> string \<Rightarrow> watch_event list \<times> nat" where
  "EventWriter_Write unit p =
     (List.map_filter (\<lambda>line. parseEvent line unit) (Split (TrimSuffix p [newline_char]) newline_char), length p)"

definition ErrorWriter_Write :: "string \<Rightarrow> goerr list \<times> nat" where
  "ErrorWriter_Write p = ([ErrorString p], length p)"

text \<open>A run of \<open>journalctl\<close>: the chunks of its two outputs in order, and the error of \<open>Run\<close>.\<close>

datatype chunk = Stdout string | Stderr string

definition journal_args :: "string \<Rightarrow> string list" where
  "journal_args unit = [''--since=now'', ''--quiet'', ''--follow'', ''--unit'', unit]"

definition LogWatcher_Watch :: "string \<Rightarrow> (string \<Rightarrow> string list \<Rightarrow> chunk list \<times> string option) \<Rightarrow> message list" where
  "LogWatcher_Watch unit run = (case run ''/bin/journalctl'' (journal_args unit) of (chunks, err) \<Rightarrow>
     concat (map (\<lambda>c. case c of Stdout p \<Rightarrow> map Inr (fst (EventWriter_Write unit p))
       | Stderr p \<Rightarrow> map Inl (fst (ErrorWriter_Write p))) chunks) @
     (case err of None \<Rightarrow> [] | Some e \<Rightarrow> map Inl (fst (ErrorWriter_Write (''failed to start cmd: '' @ e)))) @
     map Inl (fst (ErrorWriter_Write
       (''command journalctl '' @ Join (journal_args unit) '' '' @ '' unexpectedly exited''))))"

subsection \<open>Watching Prometheus\<close>

definition queryJSON :: "'w env \<Rightarrow> string \<Rightarrow> string \<Rightarrow> (('w, 'r) sys_scheme, goerr + string) state" where
  "queryJSON E port expression = do {
     resp \<leftarrow> http_Get E (''http://'' @ ''localhost'' @ '':'' @ port @ ''/api/v1/query?query='' @ expression);
     State_Monad.return (case resp of
       Inl e \<Rightarrow> Inl (Errorf ''failed to perform a get GET on the prometheus server: '' e [])
     | Inr (Inl e) \<Rightarrow> Inl (Errorf ''failed to read response body from prometheus request: '' e [])
     | Inr (Inr body) \<Rightarrow> if gjson_valid E body then Inr body
         else Inl (ErrorString (''prometheus request returned invalid JSON: '' @ body)))
   }"

definition parsePrometheusResponseAsFloat :: "'w env \<Rightarrow> string \<Rightarrow> float64 \<times> goerr option" where
  "parsePrometheusResponseAsFloat E json =
     (let status = gj_String E (gjson_get E json ''status'') in
      if status \<noteq> ''success''
      then (Fin (-1), Some (ErrorString (''prometheus request returned non-success ('' @ status @ ''): '' @ json)))
      else let queryResult = gj_Array (gjson_get E json ''data.result'') in
        if length queryResult \<noteq> 1
        then (Fin (-1), Some (ErrorString (''unexpectedly got '' @ Itoa (int (length queryResult)) @
          '' results from prometheus request: '' @ json)))
        else let firstResultValue = gj_Array (gj_Map (Some (queryResult ! 0)) ''value'') in
          if length firstResultValue \<noteq> 2
          then (Fin (-1), Some (ErrorString (''unexpectedly got '' @ Itoa (int (length firstResultValue)) @
            '' values from prometheus request: '' @ json)))
          else (gjson_float E (firstResultValue ! 1), None))"

definition QueryFloat64 ::
  "'w env \<Rightarrow> string \<Rightarrow> string \<Rightarrow> (('w, 'r) sys_scheme, float64 \<times> goerr option) state" where
  "QueryFloat64 E port expression = do {
     json \<leftarrow> queryJSON E port expression;
     State_Monad.return (case json of
       Inl e \<Rightarrow> (Fin 0, Some (Errorf (''Could not query '' @ expression @ '' from prometheus: '') e []))
     | Inr j \<Rightarrow> (case parsePrometheusResponseAsFloat E j of
         (v, Some e) \<Rightarrow> (Fin 0, Some (Errorf (''Could parse response from '' @ sq expression @ '' query: '') e []))
       | (v, None) \<Rightarrow> (v, None)))
   }"

datatype watcher =
    LogWatcher string
  | PrometheusWatcher string string nat int   \<comment> \<open>unit, expression, interval in seconds, trigger\<close>

definition watchHandler ::
  "'w env \<Rightarrow> string \<Rightarrow> string \<Rightarrow> string \<Rightarrow> int \<Rightarrow> (('w, 'r) sys_scheme, message) state" where
  "watchHandler E port unit expression trig = do {
     (measuredValue, err) \<leftarrow> QueryFloat64 E port expression;
     State_Monad.return (case err of
       Some e \<Rightarrow> Inl e
     | None \<Rightarrow> Inr \<lparr>Unit = unit, Trigger = trig, Measure = expression, Value = measuredValue\<rparr>)
   }"

subsection \<open>The supervisor\<close>

record 'w supervisor = "'w sys" +
  TriggerLastExecuted :: "int \<Rightarrow> int option"
  PrometheusLastStateIBD :: float64
  prometheusPort :: string
  restarts :: "(int \<times> int \<times> int) list"
  config_sets :: "(string \<times> string) list"

type_synonym ('w, 'a) sup = "('w supervisor, 'a) state"

definition New :: "string \<Rightarrow> 'w \<Rightarrow> 'w supervisor" where
  "New port w = \<lparr>world = w, trace = [], TriggerLastExecuted = (\<lambda>t. None), PrometheusLastStateIBD = Fin (-1),
     prometheusPort = port, restarts = [], config_sets = []\<rparr>"

definition setupWatchers :: "watcher list" where
  "setupWatchers = [LogWatcher ''bitcoind'', LogWatcher ''lightningd'', LogWatcher ''electrs'', LogWatcher ''bbbmiddleware'',
     PrometheusWatcher ''bitcoind'' ''bitcoin_ibd'' 10 PrometheusBitcoindIBD]"

text \<open>\<open>exec.Command(...).Run()\<close>.\<close>

definition command_Run :: "'w env \<Rightarrow> string \<Rightarrow> string list \<Rightarrow> (('w, 'r) sys_scheme, goerr option) state" where
  "command_Run E cmd args = do {
     (_, err) \<leftarrow> ext (Exec cmd args) (exec_combined E cmd args);
     State_Monad.return (map_option (\<lambda>e. ErrorString (exec_text e)) err)
   }"

definition restartUnit :: "'w env \<Rightarrow> string \<Rightarrow> (('w, 'r) sys_scheme, goerr option) state" where
  "restartUnit E unit = do {
     err \<leftarrow> command_Run E ''/bin/systemctl'' [''restart'', unit];
     State_Monad.return (case err of
       Some e \<Rightarrow> Some (Errorf (''command systemctl '' @ Join [''restart'', unit] '' '' @ '' threw an error '') e [])
     | None \<Rightarrow> None)
   }"

definition setBBBConfigValue :: "'w env \<Rightarrow> string \<Rightarrow> string \<Rightarrow> ('w, goerr option) sup" where
  "setBBBConfigValue E argument v = do {
     err \<leftarrow> command_Run E ''/usr/local/sbin/bbb-config.sh'' [''set'', argument, v];
     (case err of
        Some e \<Rightarrow> State_Monad.return (Some (Errorf
          (''command /usr/local/sbin/bbb-config.sh '' @ Join [''set'', argument, v] '' '' @ '' threw an error '') e []))
      | None \<Rightarrow> do {
          _ \<leftarrow> modify (\<lambda>s. s\<lparr>config_sets := config_sets s @ [(argument, v)]\<rparr>);
          State_Monad.return None })
   }"

definition checkBlockHeight :: "'w env \<Rightarrow> int \<Rightarrow> ('w, goerr option) sup" where
  "checkBlockHeight E minHeight = do {
     port \<leftarrow> gets prometheusPort;
     (blockHeight, _) \<leftarrow> QueryFloat64 E port ''bitcoin_blocks'';
     State_Monad.return (if float_less blockHeight (Fin (of_int minHeight))
       then Some (ErrorString ''current block height is lower than the minimal block height'') else None)
   }"

definition unsetClearnetIDB :: "'w env \<Rightarrow> ('w, goerr option) sup" where
  "unsetClearnetIDB E = do {
     (isIBDClearnet, err) \<leftarrow> Client_GetInt E BitcoindIBDClearnet;
     (case err of
        Some e \<Rightarrow> State_Monad.return
          (Some (Errorf (''getting redis key '' @ key_string BitcoindIBDClearnet @ '' failed: '') e []))
      | None \<Rightarrow>
          if isIBDClearnet = 1 then do {
            err \<leftarrow> setBBBConfigValue E ''bitcoin_ibd_clearnet'' ''false'';
            State_Monad.return (map_option
              (\<lambda>e. Errorf ''disabling bitcoin_ibd_clearnet via BBB config script failed: '' e []) err) }
          else State_Monad.return None)
   }"

definition minBlockHeight :: int where "minBlockHeight = 596000"

definition disableBaseIBDState :: "'w env \<Rightarrow> ('w, goerr option) sup" where
  "disableBaseIBDState E = do {
     err \<leftarrow> checkBlockHeight E minBlockHeight;
     (case err of
        Some e \<Rightarrow> State_Monad.return (Some (Errorf ''could not disable ibd state: '' e []))
      | None \<Rightarrow> do {
          err \<leftarrow> unsetClearnetIDB E;
          (case err of
             Some e \<Rightarrow> State_Monad.return (Some (Errorf ''could not unset ClearnetIDB: '' e []))
           | None \<Rightarrow> do {
               err \<leftarrow> setBBBConfigValue E ''bitcoin_ibd'' ''false'';
               State_Monad.return (map_option
                 (\<lambda>e. Errorf (''could not execute a '' @ sq ''bbb-config.sh set'' @ '': '') e []) err) }) })
   }"

subsection \<open>Handlers\<close>

text \<open>The three handlers that restart a unit differ in its name only.\<close>

definition handle_restart :: "'w env \<Rightarrow> ('w \<Rightarrow> int) \<Rightarrow> string \<Rightarrow> string \<Rightarrow> watch_event \<Rightarrow> ('w, goerr option) sup" where
  "handle_restart E now unit what event = do {
     let t = Trigger event;
     last_executed \<leftarrow> gets (\<lambda>s. case TriggerLastExecuted s t of None \<Rightarrow> 0 | Some x \<Rightarrow> x);
     start \<leftarrow> gets (\<lambda>s. now (world s));
     (case IsFlooding t (seconds 30) last_executed start of
        Some e \<Rightarrow> State_Monad.return (Some e)
      | None \<Rightarrow> do {
          err \<leftarrow> restartUnit E unit;
          (case err of
             Some e \<Rightarrow> State_Monad.return (Some (Errorf
               (''Handling trigger '' @ trigger_String t @ '': Restarting '' @ what @ '' failed: '') e []))
           | None \<Rightarrow> do {
               _ \<leftarrow> modify (\<lambda>s. s\<lparr>TriggerLastExecuted := (TriggerLastExecuted s)(t \<mapsto> now (world s) div seconds 1),
                 restarts := restarts s @ [(t, start, now (world s))]\<rparr>);
               State_Monad.return None }) })
   }"

definition handleElectrsFullySynced :: "'w env \<Rightarrow> ('w \<Rightarrow> int) \<Rightarrow> watch_event \<Rightarrow> ('w, goerr option) sup" where
  "handleElectrsFullySynced E now event = handle_restart E now ''electrs'' ''electrs'' event"

definition handleElectrsNoBitcoindConnectivity :: "'w env \<Rightarrow> ('w \<Rightarrow> int) \<Rightarrow> watch_event \<Rightarrow> ('w, goerr option) sup" where
  "handleElectrsNoBitcoindConnectivity E now event = handle_restart E now ''electrs'' ''electrs'' event"

definition handleMiddlewareNoBitcoindConnectivity :: "'w env \<Rightarrow> ('w \<Rightarrow> int) \<Rightarrow> watch_event \<Rightarrow> ('w, goerr option) sup" where
  "handleMiddlewareNoBitcoindConnectivity E now event = handle_restart E now ''bbbmiddleware'' ''bbbmiddleware'' event"

definition record_ibd :: "float64 \<Rightarrow> (goerr \<Rightarrow> goerr) \<Rightarrow> goerr option \<Rightarrow> ('w, goerr option) sup" where
  "record_ibd isActive wrap err = (case err of
     Some e \<Rightarrow> State_Monad.return (Some (wrap e))
   | None \<Rightarrow> do {
       _ \<leftarrow> modify (\<lambda>s. s\<lparr>PrometheusLastStateIBD := isActive\<rparr>);
       State_Monad.return None })"

definition handleBitcoindIBD :: "'w env \<Rightarrow> watch_event \<Rightarrow> ('w, goerr option) sup" where
  "handleBitcoindIBD E event = do {
     wasActive \<leftarrow> gets PrometheusLastStateIBD;
     let isActive = Value event;
     let handling = ''Handling trigger '' @ trigger_String (Trigger event);
     if \<not> float_eq isActive (Fin 1) \<and> \<not> float_eq isActive (Fin 0)
     then State_Monad.return (Some (ErrorString (handling @
       '': isActive is invalid. Should be either 1 (IBD active) or 0 (IBD inactive)'')))
     else if float_eq wasActive isActive then State_Monad.return None
     else if float_eq wasActive (Fin (-1)) then
       (if float_eq isActive (Fin 1) then do {
          err \<leftarrow> setBBBConfigValue E ''bitcoin_ibd'' ''true'';
          record_ibd isActive (\<lambda>e. Errorf (handling @ '': Initial set. Setting BBB config value to `true` failed: '') e []) err }
        else do {
          err \<leftarrow> disableBaseIBDState E;
          record_ibd isActive (\<lambda>e. Errorf (handling @ '': Initial state set. '') e []) err })
     else if float_eq wasActive (Fin 1) \<and> float_eq isActive (Fin 0) then do {
       err \<leftarrow> disableBaseIBDState E;
       record_ibd isActive (\<lambda>e. Errorf (handling @ '': '') e []) err }
     else if float_eq wasActive (Fin 0) \<and> float_eq isActive (Fin 1) then do {
       err \<leftarrow> setBBBConfigValue E ''bitcoin_ibd'' ''true'';
       record_ibd isActive (\<lambda>e. Errorf (handling @ '': setting BBB config value to `true` failed: '') e []) err }
     else State_Monad.return None
   }"

text \<open>The value recovered from a panic, with which a round of the event loop ends on any error.\<close>

definition eventHandler :: "'w env \<Rightarrow> ('w \<Rightarrow> int) \<Rightarrow> message \<Rightarrow> ('w, goerr option) sup" where
  "eventHandler E now message = (case message of
     Inl err \<Rightarrow> State_Monad.return (Some (Errorf ''watcher error: '' err []))
   | Inr event \<Rightarrow>
       (let handled = (\<lambda>handler. do {
              err \<leftarrow> handler;
              State_Monad.return (map_option
                (\<lambda>e. Errorf (''could not trigger '' @ trigger_String (Trigger event) @ '': '') e []) err) }) in
        if Trigger event = ElectrsFullySynced then handled (handleElectrsFullySynced E now event)
        else if Trigger event = ElectrsNoBitcoindConnectivity
        then handled (handleElectrsNoBitcoindConnectivity E now event)
        else if Trigger event = MiddlewareNoBitcoindConnectivity
        then handled (handleMiddlewareNoBitcoindConnectivity E now event)
        else if Trigger event = PrometheusBitcoindIBD then handled (handleBitcoindIBD E event)
        else State_Monad.return (Some (ErrorString (''trigger '' @ Itoa (Trigger event) @ '' is unhandled'')))))"

text \<open>The event loop; between two messages the outside world moves on and the watchers ask Prometheus.\<close>

inductive supervised :: "'w env \<Rightarrow> ('w \<Rightarrow> int) \<Rightarrow> string \<Rightarrow> 'w supervisor \<Rightarrow> bool"
  for E :: "'w env" and now :: "'w \<Rightarrow> int" and port :: string where
  start: "supervised E now port (New port w)"
| outside: "supervised E now port s \<Longrightarrow> supervised E now port (s\<lparr>world := w\<rparr>)"
| query: "supervised E now port s \<Longrightarrow> run_state (watchHandler E p u x t) s = (m, s') \<Longrightarrow> supervised E now port s'"
| handle: "supervised E now port s \<Longrightarrow> run_state (eventHandler E now m) s = (r, s') \<Longrightarrow> supervised E now port s'"

inductive_simps supervised_start [simp]: "supervised E now port (New port w)"

subsection \<open>Log lines\<close>

lemma Split_stream: "(\<And>l. l \<in> set ls \<Longrightarrow> newline_char \<notin> set l) \<Longrightarrow> ls \<noteq> [] \<Longrightarrow>
  Split (TrimSuffix (stream ls []) [newline_char]) newline_char = ls"
proof (induction ls rule: rev_induct)
  case (snoc l ls)
  have "stream (ls @ [l]) [] = stream ls l @ [newline_char]" by (simp add: stream_def)
  then have "TrimSuffix (stream (ls @ [l]) []) [newline_char] = stream ls l" by simp
  moreover have "Split (stream ls l) newline_char = ls @ [l]"
    using snoc.prems by (induction ls) (auto simp: stream_def Split_no_sep Split_append)
  ultimately show ?case by simp
qed simp

lemma parseEvent_empty [simp]: "parseEvent [] unit = None"
  by (simp add: parseEvent_def Contains_def Index.simps)

lemma Write_lines:
  assumes "\<And>l. l \<in> set ls \<Longrightarrow> newline_char \<notin> set l"
  shows "fst (EventWriter_Write unit (stream ls [])) = List.map_filter (\<lambda>l. parseEvent l unit) ls"
proof (cases "ls = []")
  case True
  then show ?thesis by (simp add: EventWriter_Write_def stream_def TrimSuffix_def HasSuffix_def map_filter_simps)
next
  case False
  with assms show ?thesis by (simp add: EventWriter_Write_def Split_stream)
qed

text \<open>
  C39: However the output of \<open>journalctl\<close> is divided into writes of whole lines, the events sent are
  those of its lines, one by one and in order.
\<close>

theorem log_events_by_line:
  assumes "\<forall>ls \<in> set chunks. \<forall>l \<in> set ls. newline_char \<notin> set l"
  shows "concat (map (\<lambda>ls. fst (EventWriter_Write unit (stream ls []))) chunks) =
    List.map_filter (\<lambda>l. parseEvent l unit) (concat chunks)"
  using assms by (induction chunks) (auto simp: Write_lines map_filter_def)

text \<open>A line that is cut by the end of a write is not recognised.\<close>

lemma cut_line_lost:
  "fst (EventWriter_Write unit (''finished full com'')) = [] \<and>
   fst (EventWriter_Write unit (stream [''paction''] [])) = [] \<and>
   fst (EventWriter_Write unit (stream [''finished full compaction''] [])) \<noteq> []"
  by (simp add: EventWriter_Write_def stream_def newline_char_def TrimSuffix_def HasSuffix_def parseEvent_def
      map_filter_simps Contains_def Index.simps)

subsection \<open>Restarts\<close>

lemma run_QueryFloat64: "\<exists>v e w t. run_state (QueryFloat64 E port x) s = ((v, e), s\<lparr>world := w, trace := t\<rparr>)"
  by (auto simp: QueryFloat64_def queryJSON_def http_Get_def case_prod_beta split: sum.split option.split)

lemma run_watchHandler: "run_state (watchHandler E port u x t) s = (m, s') \<Longrightarrow>
    s' = s\<lparr>world := world s', trace := trace s'\<rparr>"
  using run_QueryFloat64 [of E port x s] by (auto simp: watchHandler_def)

lemma supervised_induct_preserves:
  assumes "supervised E now port s"
    and "\<And>w. P (New port w)" "\<And>s w l. P s \<Longrightarrow> P (s\<lparr>world := w, trace := l\<rparr>)" "\<And>m. preserves P (eventHandler E now m)"
  shows "P s"
  using assms(1)
proof induction
  case (handle s m r s')
  then show ?case using preservesD [OF assms(4) handle.IH, of m] by simp
next
  case (outside s w)
  then show ?case using assms(3) [of s "trace s" w] by simp
next
  case (query s p u x t m s')
  then show ?case using assms(3) [of s "trace s'" "world s'"] run_watchHandler [OF query(2)] by simp
qed (rule assms(2))

lemma preserves_handled [preserves_intros]:
  "preserves P m \<Longrightarrow> preserves P (m \<bind> (\<lambda>err. State_Monad.return (f err)))"
  by (intro preserves_intros)

lemma preserves_eventHandler:
  assumes "\<And>unit what ev. preserves P (handle_restart E now unit what ev)" "\<And>ev. preserves P (handleBitcoindIBD E ev)"
  shows "preserves P (eventHandler E now m)"
  unfolding eventHandler_def Let_def handleElectrsFullySynced_def handleElectrsNoBitcoindConnectivity_def
    handleMiddlewareNoBitcoindConnectivity_def
  by (intro preserves_intros assms)

text \<open>The times of the restarts of a trigger.\<close>

definition restart_times :: "int \<Rightarrow> 'w supervisor \<Rightarrow> (int \<times> int) list" where
  "restart_times t s = map snd (filter (\<lambda>x. fst x = t) (restarts s))"

definition spaced :: "(int \<times> int) list \<Rightarrow> bool" where
  "spaced l \<longleftrightarrow> successively (\<lambda>x y. snd x + seconds 29 < fst y) l"

definition restarts_ok :: "'w supervisor \<Rightarrow> bool" where
  "restarts_ok s \<longleftrightarrow> (\<forall>t. spaced (restart_times t s) \<and> TriggerLastExecuted s t =
     (if restart_times t s = [] then None else Some (snd (last (restart_times t s)) div seconds 1)))"

lemma not_flooding:
  "IsFlooding t (seconds 30) (e div seconds 1) start = None \<Longrightarrow> e + seconds 29 < start"
  by (auto simp: IsFlooding_def time_Sub_def seconds_def int_min_def int_max_def split: if_splits)

lemma restart_keeps:
  assumes "run_state (restartUnit E unit) s = (r, s')"
  shows "restarts s' = restarts s" "TriggerLastExecuted s' = TriggerLastExecuted s"
    "PrometheusLastStateIBD s' = PrometheusLastStateIBD s" "config_sets s' = config_sets s"
  using assms by (auto simp: restartUnit_def command_Run_def case_prod_beta)

lemma restart_times_append:
  "restarts s' = restarts s @ [(t, a, b)] \<Longrightarrow> restart_times t' s' = restart_times t' s @ (if t' = t then [(a, b)] else [])"
  by (simp add: restart_times_def)

lemma handle_restart_ok: "preserves restarts_ok (handle_restart E now unit what ev)"
proof (rule preservesI)
  fix s :: "'a supervisor"
  assume ok: "restarts_ok s"
  define t start where "t = Trigger ev" "start = now (world s)"
  define lst where "lst = (case TriggerLastExecuted s t of None \<Rightarrow> 0 | Some x \<Rightarrow> x)"
  obtain r s1 where r: "run_state (restartUnit E unit) s = (r, s1)" by fastforce
  note keep = restart_keeps [OF r]
  have same: "restart_times t' s1 = restart_times t' s" for t' by (simp add: restart_times_def keep)
  show "restarts_ok (snd (run_state (handle_restart E now unit what ev) s))"
  proof (cases "IsFlooding t (seconds 30) lst start = None \<and> r = None")
    case True
    define s2 where "s2 = s1\<lparr>TriggerLastExecuted := (TriggerLastExecuted s1)(t \<mapsto> now (world s1) div seconds 1),
      restarts := restarts s1 @ [(t, start, now (world s1))]\<rparr>"
    have run: "snd (run_state (handle_restart E now unit what ev) s) = s2"
      using True r by (simp add: handle_restart_def Let_def t_start_def lst_def s2_def)
    have times: "restart_times t' s2 = restart_times t' s @ (if t' = t then [(start, now (world s1))] else [])" for t'
      using restart_times_append [of s2 s1 t start "now (world s1)" t'] same by (simp add: s2_def)
    have tle: "TriggerLastExecuted s2 = (TriggerLastExecuted s)(t \<mapsto> now (world s1) div seconds 1)"
      by (simp add: s2_def keep)
    have "snd (last (restart_times t s)) + seconds 29 < start" if "restart_times t s \<noteq> []"
    proof -
      have "lst = snd (last (restart_times t s)) div seconds 1"
        using ok that by (simp add: restarts_ok_def lst_def)
      with True show ?thesis using not_flooding by blast
    qed
    then have "spaced (restart_times t' s2)" for t'
      using ok by (auto simp: times spaced_def successively_append_iff restarts_ok_def)
    moreover have "TriggerLastExecuted s2 t' = (if restart_times t' s2 = [] then None
        else Some (snd (last (restart_times t' s2)) div seconds 1))" for t'
      using ok by (simp add: times tle restarts_ok_def)
    ultimately show ?thesis unfolding run restarts_ok_def by blast
  next
    case False
    then have "snd (run_state (handle_restart E now unit what ev) s) \<in> {s, s1}"
      using r by (auto simp: handle_restart_def Let_def t_start_def lst_def split: option.splits)
    moreover have "restarts_ok s1" using ok unfolding restarts_ok_def same keep .
    ultimately show ?thesis using ok by auto
  qed
qed

subsection \<open>The download state\<close>

lemma float_eq_Fin [simp]: "float_eq x (Fin y) \<longleftrightarrow> x = Fin y"
  by (cases x) auto

text \<open>What the download state was last set to, if it was set at all.\<close>

definition ibd_set :: "'w supervisor \<Rightarrow> string option" where
  "ibd_set s = map_of (rev (config_sets s)) ''bitcoin_ibd''"

definition ibd_agree :: "string option \<Rightarrow> float64 \<Rightarrow> bool" where
  "ibd_agree v x \<longleftrightarrow> (case v of
     None \<Rightarrow> x = Fin (-1)
   | Some v \<Rightarrow> v = ''true'' \<and> x = Fin 1 \<or> v = ''false'' \<and> x = Fin 0)"

definition ibd_ok :: "'w supervisor \<Rightarrow> bool" where
  "ibd_ok s \<longleftrightarrow> ibd_agree (ibd_set s) (PrometheusLastStateIBD s)"

text \<open>The fields that only the handlers write.\<close>

definition memory :: "'w supervisor \<Rightarrow> (int \<Rightarrow> int option) \<times> float64 \<times> (int \<times> int \<times> int) list" where
  "memory s = (TriggerLastExecuted s, PrometheusLastStateIBD s, restarts s)"

lemma setBBBConfigValue_effect:
  assumes "run_state (setBBBConfigValue E a v) s = (r, s')"
  shows "memory s' = memory s \<and> config_sets s' = config_sets s @ (if r = None then [(a, v)] else [])"
  using assms
  by (auto simp: setBBBConfigValue_def command_Run_def case_prod_beta memory_def split: option.splits if_splits)

lemma checkBlockHeight_effect:
  assumes "run_state (checkBlockHeight E h) s = (r, s')"
  shows "memory s' = memory s \<and> config_sets s' = config_sets s"
  using assms run_QueryFloat64 [of E "prometheusPort s" "''bitcoin_blocks''" s]
  by (auto simp: checkBlockHeight_def memory_def)

lemma Client_GetInt_effect:
  "\<exists>v w t. run_state (Client_GetInt E k) s = (v, (s :: 'w supervisor)\<lparr>world := w, trace := t\<rparr>)"
  by (auto simp: Client_GetInt_def conn_Do_def case_prod_beta split: option.split)

lemma unsetClearnetIDB_effect:
  assumes "run_state (unsetClearnetIDB E) s = (r, s')"
  shows "memory s' = memory s \<and> (\<exists>cs. config_sets s' = config_sets s @ cs \<and> set cs \<subseteq> {(''bitcoin_ibd_clearnet'', ''false'')})"
proof -
  obtain i e w t where g: "run_state (Client_GetInt E BitcoindIBDClearnet) s = ((i, e), s\<lparr>world := w, trace := t\<rparr>)"
    using Client_GetInt_effect [of E BitcoindIBDClearnet s] by fastforce
  define s1 where "s1 = s\<lparr>world := w, trace := t\<rparr>"
  have s1: "memory s1 = memory s" "config_sets s1 = config_sets s" by (simp_all add: s1_def memory_def)
  obtain r2 s2 where r2: "run_state (setBBBConfigValue E ''bitcoin_ibd_clearnet'' ''false'') s1 = (r2, s2)" by fastforce
  have "s' \<in> {s1, s2}"
    using assms g r2 by (auto simp: unsetClearnetIDB_def s1_def split: option.splits if_splits)
  then show ?thesis using setBBBConfigValue_effect [OF r2] s1 by (auto split: if_splits)
qed

lemma disableBaseIBDState_effect:
  assumes "run_state (disableBaseIBDState E) s = (r, s')"
  shows "memory s' = memory s \<and> (\<exists>cs. set cs \<subseteq> {(''bitcoin_ibd_clearnet'', ''false'')} \<and>
    config_sets s' = config_sets s @ cs @ (if r = None then [(''bitcoin_ibd'', ''false'')] else []))"
proof -
  obtain r1 s1 where r1: "run_state (checkBlockHeight E minBlockHeight) s = (r1, s1)" by fastforce
  obtain r2 s2 where r2: "run_state (unsetClearnetIDB E) s1 = (r2, s2)" by fastforce
  obtain r3 s3 where r3: "run_state (setBBBConfigValue E ''bitcoin_ibd'' ''false'') s2 = (r3, s3)" by fastforce
  note eff = checkBlockHeight_effect [OF r1] unsetClearnetIDB_effect [OF r2] setBBBConfigValue_effect [OF r3]
  consider "r \<noteq> None" "s' = s1" | "r \<noteq> None" "s' = s2" | "r = map_option (\<lambda>e. Errorf (''could not execute a '' @ sq ''bbb-config.sh set'' @ '': '') e []) r3" "s' = s3"
    using assms r1 r2 r3 by (auto simp: disableBaseIBDState_def split: option.splits)
  then show ?thesis
  proof cases
    case 1
    then show ?thesis using eff(1) by (auto intro: exI [where x = "[]"])
  next
    case 2
    then show ?thesis using eff(1,2) by auto
  next
    case 3
    then show ?thesis using eff by (auto split: if_splits)
  qed
qed

text \<open>
  The result of switching the state off or on, recorded.
\<close>

lemma ibd_recorded:
  assumes set: "config_sets s1 = config_sets s @ cs @ (if r = None then [(''bitcoin_ibd'', v)] else [])"
    and cs: "set cs \<subseteq> {(''bitcoin_ibd_clearnet'', ''false'')}" and mem: "memory s1 = memory s"
    and v: "ibd_agree (Some v) x" and ok: "ibd_ok s"
  shows "ibd_ok (snd (run_state (record_ibd x w r) s1))"
proof -
  have none: "map_of (rev cs) ''bitcoin_ibd'' = None"
    using cs by (auto simp: map_of_eq_None_iff)
  have last: "PrometheusLastStateIBD s1 = PrometheusLastStateIBD s" using mem by (simp add: memory_def)
  show ?thesis
  proof (cases r)
    case None
    have "ibd_set s1 = Some v" using set None by (simp add: ibd_set_def)
    then show ?thesis using v by (simp add: ibd_ok_def record_ibd_def None ibd_set_def)
  next
    case (Some e)
    have "ibd_set s1 = ibd_set s" using set none Some by (simp add: ibd_set_def map_add_def)
    then show ?thesis using ok by (simp add: ibd_ok_def record_ibd_def Some last)
  qed
qed

lemma handleBitcoindIBD_ok: "preserves ibd_ok (handleBitcoindIBD E ev)"
proof (rule preservesI)
  fix s :: "'a supervisor"
  assume ok: "ibd_ok s"
  obtain r1 s1 where r1: "run_state (setBBBConfigValue E ''bitcoin_ibd'' ''true'') s = (r1, s1)" by fastforce
  obtain r2 s2 where r2: "run_state (disableBaseIBDState E) s = (r2, s2)" by fastforce
  have on: "ibd_ok (snd (run_state (record_ibd (Fin 1) w r1) s1))" for w
    using setBBBConfigValue_effect [OF r1] ok by (intro ibd_recorded [where cs = "[]" and v = "''true''"]) (auto simp: ibd_agree_def)
  have off: "ibd_ok (snd (run_state (record_ibd (Fin 0) w r2) s2))" for w
    using disableBaseIBDState_effect [OF r2] ok by (auto simp: ibd_agree_def intro: ibd_recorded [where v = "''false''"])
  show "ibd_ok (snd (run_state (handleBitcoindIBD E ev) s))"
    using ok by (auto simp: handleBitcoindIBD_def Let_def r1 r2 on off)
qed

lemma restart_handlers_ibd: "preserves ibd_ok (handle_restart E now unit what ev)"
proof (rule keeps_preserves)
  show "keeps (\<lambda>s. (PrometheusLastStateIBD s, config_sets s)) (handle_restart E now unit what ev)"
    unfolding handle_restart_def restartUnit_def command_Run_def Let_def by (intro keeps_intros) simp_all
qed (simp add: ibd_ok_def ibd_set_def)

lemma IBD_handler_restarts: "preserves restarts_ok (handleBitcoindIBD E ev)"
proof (rule keeps_preserves)
  have frame: "keeps (\<lambda>s. (TriggerLastExecuted s, restarts s)) (setBBBConfigValue E a v)"
    "keeps (\<lambda>s. (TriggerLastExecuted s, restarts s)) (disableBaseIBDState E)"
    "keeps (\<lambda>s. (TriggerLastExecuted s, restarts s)) (record_ibd x w r)" for a v x w r
  proof -
    have mem: "keeps (\<lambda>s. (TriggerLastExecuted s, restarts s)) m" if "keeps memory m" for m :: "('a, goerr option) sup"
      using that by (simp add: keeps_def memory_def)
    show "keeps (\<lambda>s. (TriggerLastExecuted s, restarts s)) (setBBBConfigValue E a v)"
      by (rule mem keepsI)+ (simp add: setBBBConfigValue_effect)
    show "keeps (\<lambda>s. (TriggerLastExecuted s, restarts s)) (disableBaseIBDState E)"
      by (rule mem keepsI)+ (simp add: disableBaseIBDState_effect)
    show "keeps (\<lambda>s. (TriggerLastExecuted s, restarts s)) (record_ibd x w r)"
      unfolding record_ibd_def by (intro keeps_intros) simp
  qed
  show "keeps (\<lambda>s. (TriggerLastExecuted s, restarts s)) (handleBitcoindIBD E ev)"
    unfolding handleBitcoindIBD_def Let_def by (intro keeps_intros frame)
qed (simp add: restarts_ok_def restart_times_def)

subsection \<open>Properties\<close>

text \<open>
  C26: Whatever messages arrive and however time passes, two successful restarts for the same
  trigger are more than 29 seconds apart.
\<close>

theorem restarts_spaced:
  assumes "supervised E now port s"
  shows "successively (\<lambda>x y. snd x + seconds 29 < fst y) (restart_times t s)"
proof -
  have "restarts_ok s"
    using assms
  proof (rule supervised_induct_preserves)
    show "restarts_ok (New port w)" for w
      by (simp add: restarts_ok_def New_def restart_times_def spaced_def)
    show "restarts_ok (s\<lparr>world := w, trace := l\<rparr>)" if "restarts_ok s" for s :: "'a supervisor" and w l
      using that by (simp add: restarts_ok_def restart_times_def)
    show "preserves restarts_ok (eventHandler E now m)" for m
      by (rule preserves_eventHandler handle_restart_ok IBD_handler_restarts)+
  qed
  then show ?thesis by (simp add: restarts_ok_def spaced_def)
qed

text \<open>
  C25: The download state the supervisor remembers is always the one it last set successfully:
  none (-1) if it never did, 1 after true, 0 after false.
\<close>

theorem ibd_state_is_last_set:
  assumes "supervised E now port s"
  shows "PrometheusLastStateIBD s = (case map_of (rev (config_sets s)) ''bitcoin_ibd'' of
    None \<Rightarrow> Fin (-1) | Some v \<Rightarrow> if v = ''true'' then Fin 1 else Fin 0)"
proof -
  have "ibd_ok s"
    using assms
  proof (rule supervised_induct_preserves)
    show "ibd_ok (New port w)" for w by (simp add: ibd_ok_def New_def ibd_set_def ibd_agree_def)
    show "ibd_ok (s\<lparr>world := w, trace := l\<rparr>)" if "ibd_ok s" for s :: "'a supervisor" and w l
      using that by (simp add: ibd_ok_def ibd_set_def)
    show "preserves ibd_ok (eventHandler E now m)" for m
      by (rule preserves_eventHandler restart_handlers_ibd handleBitcoindIBD_ok)+
  qed
  then show ?thesis by (auto simp: ibd_ok_def ibd_set_def ibd_agree_def split: option.splits)
qed

lemma QueryFloat64_error:
  "run_state (QueryFloat64 E port x) s = ((v, Some e), s') \<Longrightarrow> v = Fin 0"
  by (auto simp: QueryFloat64_def split: prod.splits sum.splits option.splits)


subsection \<open>Witnesses\<close>

definition demo_sim :: "int \<Rightarrow> sim" where
  "demo_sim t = \<lparr>sim_db = (\<lambda>k. Some ''1''), sim_now = t, sim_scripts = [],
     sim_update = \<lparr>stdout_pipe_err = True, stderr_pipe_err = True, start_err = True, stdout_lines = [],
       stdout_read_err = False, stderr_lines = [], wait_err = None\<rparr>, sim_pages = [], sim_hsm = None\<rparr>"

definition demo_metrics :: "sim env" where
  "demo_metrics = sim_env\<lparr>http_get := (\<lambda>url w. (Inr (Inr ''body''), w)), gjson_valid := (\<lambda>s. True),
     gjson_get := (\<lambda>s p. if p = ''status'' then Some (JString ''success'')
       else Some (JArray [JObject [(''value'', JArray [JNull, JString ''600000''])]])),
     gjson_float := (\<lambda>j. Fin 600000)\<rparr>"

definition demo_now :: "sim \<Rightarrow> int" where "demo_now w = seconds (sim_now w)"

definition no_reply :: watch_event where
  "no_reply = \<lparr>Unit = ''electrs'', Trigger = ElectrsNoBitcoindConnectivity, Measure = [], Value = Fin 0\<rparr>"

definition synced :: watch_event where
  "synced = \<lparr>Unit = ''bitcoind'', Trigger = PrometheusBitcoindIBD, Measure = ''bitcoin_ibd'', Value = Fin 0\<rparr>"

lemma log_events_by_line_witness:
  "fst (EventWriter_Write ''electrs'' (stream [''x'', ''finished full compaction''] [])) =
    [\<lparr>Unit = ''electrs'', Trigger = ElectrsFullySynced, Measure = [], Value = Fin 0\<rparr>]"
  using log_events_by_line [of "[[''x'', ''finished full compaction'']]" "''electrs''"]
  by (simp add: newline_char_def map_filter_simps parseEvent_def Contains_def Index.simps)

lemma restarts_spaced_witness:
  "\<exists>s. supervised demo_metrics demo_now ''9090'' s \<and> length (restart_times ElectrsNoBitcoindConnectivity s) = 2 \<and>
     successively (\<lambda>x y. snd x + seconds 29 < fst y) (restart_times ElectrsNoBitcoindConnectivity s)"
proof -
  obtain s1 where s1: "snd (run_state (eventHandler demo_metrics demo_now (Inr no_reply)) (New ''9090'' (demo_sim 100))) = s1"
    "TriggerLastExecuted s1 = [ElectrsNoBitcoindConnectivity \<mapsto> 100]"
    "restarts s1 = [(ElectrsNoBitcoindConnectivity, seconds 100, seconds 100)]"
    by (simp add: eventHandler_def handleElectrsNoBitcoindConnectivity_def handle_restart_def no_reply_def trigger_defs New_def
        restartUnit_def command_Run_def demo_metrics_def demo_sim_def sim_exec_def demo_now_def IsFlooding_def time_Sub_def
        seconds_def int_min_def int_max_def)
  define s2 where "s2 = s1\<lparr>world := demo_sim 131\<rparr>"
  define s3 where "s3 = snd (run_state (eventHandler demo_metrics demo_now (Inr no_reply)) s2)"
  have "supervised demo_metrics demo_now ''9090'' s1"
    using supervised.handle [OF supervised.start prod.collapse [symmetric]] unfolding s1(1) [symmetric] .
  then have "supervised demo_metrics demo_now ''9090'' s2" unfolding s2_def by (rule supervised.outside)
  then have reach: "supervised demo_metrics demo_now ''9090'' s3"
    unfolding s3_def by (rule supervised.handle) (rule prod.collapse [symmetric])
  have "restarts s3 = [(ElectrsNoBitcoindConnectivity, seconds 100, seconds 100), (ElectrsNoBitcoindConnectivity, seconds 131, seconds 131)]"
    using s1(2,3) unfolding s3_def s2_def
    by (simp add: eventHandler_def handleElectrsNoBitcoindConnectivity_def handle_restart_def no_reply_def trigger_defs
        restartUnit_def command_Run_def demo_metrics_def demo_sim_def sim_exec_def demo_now_def IsFlooding_def time_Sub_def
        seconds_def int_min_def int_max_def)
  then have "length (restart_times ElectrsNoBitcoindConnectivity s3) = 2" by (simp add: restart_times_def)
  with reach restarts_spaced [OF reach] show ?thesis by blast
qed

lemma demo_synced:
  "\<exists>r s'. run_state (handleBitcoindIBD demo_metrics synced) (New ''9090'' (demo_sim 100)) = (r, s') \<and>
     config_sets s' = [(''bitcoin_ibd_clearnet'', ''false''), (''bitcoin_ibd'', ''false'')] \<and> PrometheusLastStateIBD s' = Fin 0"
  by (simp add: handleBitcoindIBD_def Let_def synced_def New_def disableBaseIBDState_def checkBlockHeight_def QueryFloat64_def
      queryJSON_def http_Get_def parsePrometheusResponseAsFloat_def gj_String_def gj_Map_def gj_Array_def demo_metrics_def unsetClearnetIDB_def
      Client_GetInt_def conn_Do_def sim_env_def sim_redis_def redigo_Int_def setBBBConfigValue_def command_Run_def sim_exec_def demo_sim_def
      record_ibd_def minBlockHeight_def ParseInt_def parse_int_def is_digit_def digits_value_def int_min_def int_max_def)


lemma ibd_state_is_last_set_witness:
  "\<exists>s. supervised demo_metrics demo_now ''9090'' s \<and> config_sets s \<noteq> [] \<and> PrometheusLastStateIBD s = Fin 0"
proof -
  obtain r s where run: "run_state (handleBitcoindIBD demo_metrics synced) (New ''9090'' (demo_sim 100)) = (r, s)"
    and cs: "config_sets s = [(''bitcoin_ibd_clearnet'', ''false''), (''bitcoin_ibd'', ''false'')]"
    using demo_synced by blast
  have "snd (run_state (eventHandler demo_metrics demo_now (Inr synced)) (New ''9090'' (demo_sim 100))) = s"
    using run by (simp add: eventHandler_def synced_def trigger_defs)
  then have reach: "supervised demo_metrics demo_now ''9090'' s"
    using supervised.handle [OF supervised.start prod.collapse [symmetric]] by metis
  from ibd_state_is_last_set [OF reach] cs reach show ?thesis by auto
qed

end
