(* ===== verification/Supervisor_Main.thy ===== *)
theory Supervisor_Main
  imports Go_Flag Supervisor Threads
begin

text \<open>
  The supervisor as a program (src/tools/bbbsupervisor): its command line (bbbsupervisor.go), the
  goroutines of the watchers (supervisor.go, watcher/) and the event loop, which takes one message
  at a time from their unbuffered channels.

  A watcher is a thread: one that follows a log sends the messages of its \<open>journalctl\<close>, one that asks
  Prometheus asks and sends for ever.  Sending is one step with the handling of the message by
  the event loop.  \<open>journal\<close>, a parameter, is what a run of \<open>journalctl\<close> gives.

  Lemma groups: what the command line does; the program's states are states of the event loop of
  theory Supervisor; the messages of a log are handled in their order.
\<close>

subsection \<open>The command line\<close>

record sup_flags =
  helpArg :: bool
  redis_port :: string
  prometheus_port :: string
  versionArg :: bool

definition default_sup_flags :: sup_flags where
  "default_sup_flags = \<lparr>helpArg = False, redis_port = ''6379'', prometheus_port = ''9090'', versionArg = False\<rparr>"

definition sup_flag_table :: "sup_flags flags" where
  "sup_flag_table = [
     (''help'', Flag_Bool (\<lambda>v f. f\<lparr>helpArg := v\<rparr>)),
     (''redis-port'', Flag_String (\<lambda>v f. f\<lparr>redis_port := v\<rparr>)),
     (''prometheus-port'', Flag_String (\<lambda>v f. f\<lparr>prometheus_port := v\<rparr>)),
     (''version'', Flag_Bool (\<lambda>v f. f\<lparr>versionArg := v\<rparr>))]"

text \<open>Whether the program exits with status 0 at once.\<close>

definition handleFlags :: "sup_flags \<Rightarrow> bool" where
  "handleFlags f \<longleftrightarrow> versionArg f \<or> helpArg f"

subsection \<open>The goroutines\<close>

datatype 'w goroutine =
    Following string "message list"            \<comment> \<open>unit, and what the log watcher has still to send\<close>
  | Polling string string int                 \<comment> \<open>unit, expression and trigger\<close>
  | Sending string string int message
  | World 'w                                   \<comment> \<open>a change of the outside world, done once\<close>
  | Gone

type_synonym journal = "string \<Rightarrow> string list \<Rightarrow> chunk list \<times> string option"

fun start_watcher :: "(string \<Rightarrow> journal) \<Rightarrow> watcher \<Rightarrow> 'w goroutine" where
  "start_watcher journal (LogWatcher unit) = Following unit (LogWatcher_Watch unit (journal unit))"
| "start_watcher journal (PrometheusWatcher unit expression interval trig) = Polling unit expression trig"

fun goroutine_step ::
  "'w env \<Rightarrow> ('w \<Rightarrow> int) \<Rightarrow> nat \<Rightarrow> 'w goroutine \<Rightarrow> 'w supervisor \<Rightarrow> 'w goroutine \<times> 'w supervisor" where
  "goroutine_step E now i (Following u (m # ms)) s = (Following u ms, snd (run_state (eventHandler E now m) s))"
| "goroutine_step E now i (Following u []) s = (Gone, s)"
| "goroutine_step E now i (Polling u x t) s =
     (case run_state (watchHandler E (prometheusPort s) u x t) s of (m, s') \<Rightarrow> (Sending u x t m, s'))"
| "goroutine_step E now i (Sending u x t m) s = (Polling u x t, snd (run_state (eventHandler E now m) s))"
| "goroutine_step E now i (World w) s = (Gone, s\<lparr>world := w\<rparr>)"
| "goroutine_step E now i Gone s = (Gone, s)"

fun is_world :: "'w goroutine \<Rightarrow> bool" where
  "is_world (World w) = True"
| "is_world _ = False"

datatype 'w sup_end = Sup_Usage flag_error | Sup_Exit | Running "'w goroutine list" "'w supervisor"

definition sup_main :: "(string \<Rightarrow> journal) \<Rightarrow> string list \<Rightarrow> 'w \<Rightarrow> 'w sup_end" where
  "sup_main journal cmdline w = (case parse_flags sup_flag_table cmdline default_sup_flags of
     Inl e \<Rightarrow> Sup_Usage e
   | Inr (f, _) \<Rightarrow> if handleFlags f then Sup_Exit
       else Running (map (start_watcher journal) setupWatchers) (New (prometheus_port f) w))"

subsection \<open>The program and the event loop\<close>

lemma goroutine_step_supervised:
  assumes "goroutine_step E now i t s = (t', s')" "supervised E now port s"
  shows "supervised E now port s'"
  using assms
proof (cases t)
  case (Following u ms)
  with assms show ?thesis
    by (cases ms) (auto intro: supervised.handle [OF assms(2) prod.collapse [symmetric]])
next
  case (Polling u x tr)
  with assms show ?thesis by (auto split: prod.splits intro: supervised.query [OF assms(2)])
next
  case (Sending u x tr m)
  with assms show ?thesis by (auto intro: supervised.handle [OF assms(2) prod.collapse [symmetric]])
next
  case (World w)
  with assms show ?thesis by (auto intro: supervised.outside)
qed auto

text \<open>
  What the event loop and the outside world do, one after the other: \<open>Handle i m\<close> is a message of
  the goroutine \<open>i\<close>.
\<close>

datatype 'w action = Handle nat message | Query string string int | Outside 'w

fun do_action :: "'w env \<Rightarrow> ('w \<Rightarrow> int) \<Rightarrow> 'w action \<Rightarrow> 'w supervisor \<Rightarrow> 'w supervisor" where
  "do_action E now (Handle i m) s = snd (run_state (eventHandler E now m) s)"
| "do_action E now (Query u x t) s = snd (run_state (watchHandler E (prometheusPort s) u x t) s)"
| "do_action E now (Outside w) s = s\<lparr>world := w\<rparr>"

fun handled_from :: "nat \<Rightarrow> 'w action list \<Rightarrow> message list" where
  "handled_from i [] = []"
| "handled_from i (Handle j m # as) = (if j = i then m # handled_from i as else handled_from i as)"
| "handled_from i (_ # as) = handled_from i as"

lemma handled_from_append [simp]: "handled_from i (as @ bs) = handled_from i as @ handled_from i bs"
  by (induction i as rule: handled_from.induct) auto

fun log_watcher :: "'w goroutine \<Rightarrow> bool" where
  "log_watcher (Following u ms) = True"
| "log_watcher Gone = True"
| "log_watcher _ = False"

fun unsent :: "'w goroutine \<Rightarrow> message list" where
  "unsent (Following u ms) = ms"
| "unsent _ = []"

definition logs_followed :: "(string \<Rightarrow> journal) \<Rightarrow> 'w action list \<Rightarrow> 'w goroutine list \<Rightarrow> bool" where
  "logs_followed journal as ts \<longleftrightarrow> (\<forall>i u. i < length setupWatchers \<longrightarrow> setupWatchers ! i = LogWatcher u \<longrightarrow>
     i < length ts \<and> log_watcher (ts ! i) \<and> handled_from i as @ unsent (ts ! i) = LogWatcher_Watch u (journal u))"

lemma logs_followed_step:
  assumes "goroutine_step E now i t s = (t', s')" "i < length ts" "ts ! i = t" "logs_followed journal as ts"
  shows "\<exists>bs. s' = fold (do_action E now) bs s \<and> logs_followed journal (as @ bs) (ts[i := t'])"
proof -
  have other: "logs_followed journal (as @ bs) (ts[i := t'])"
    if "\<And>j. handled_from j bs = (if j = i then ms else [])" "log_watcher t \<Longrightarrow> log_watcher t' \<and> unsent t = ms @ unsent t'" for bs ms
    using assms(2-4) that by (auto simp: logs_followed_def nth_list_update)
  show ?thesis
  proof (cases t)
    case (Following u ms)
    show ?thesis
    proof (cases ms)
      case Nil
      with Following assms(1) other [of "[]" "[]"] show ?thesis by (intro exI [of _ "[]"]) auto
    next
      case (Cons m rest)
      with Following assms(1) other [of "[Handle i m]" "[m]"] show ?thesis by (intro exI [of _ "[Handle i m]"]) auto
    qed
  next
    case (Polling u x tr)
    with assms(1) other [of "[Query u x tr]" "[]"] show ?thesis
      by (intro exI [of _ "[Query u x tr]"]) (auto split: prod.splits)
  next
    case (Sending u x tr m)
    with assms(1) other [of "[Handle i m]" "[m]"] show ?thesis by (intro exI [of _ "[Handle i m]"]) auto
  next
    case (World w)
    with assms(1) other [of "[Outside w]" "[]"] show ?thesis by (intro exI [of _ "[Outside w]"]) auto
  next
    case Gone
    with assms(1) other [of "[]" "[]"] show ?thesis by (intro exI [of _ "[]"]) auto
  qed
qed

definition watching ::
  "'w env \<Rightarrow> ('w \<Rightarrow> int) \<Rightarrow> (string \<Rightarrow> journal) \<Rightarrow> 'w supervisor \<Rightarrow> 'w goroutine list \<times> 'w supervisor \<Rightarrow> bool" where
  "watching E now journal s c \<longleftrightarrow> supervised E now (prometheusPort s) (snd c) \<and>
     (\<exists>as. snd c = fold (do_action E now) as s \<and> logs_followed journal as (fst c))"

lemma watching_step:
  "interleaved (goroutine_step E now) is_world c c' \<Longrightarrow> watching E now journal s c \<Longrightarrow> watching E now journal s c'"
proof (induction rule: interleaved.induct)
  case (spawn t ts s1)
  then show ?case by (auto simp: watching_def logs_followed_def nth_append)
next
  case (run i ts s1 t s2)
  then obtain as where as: "s1 = fold (do_action E now) as s" "logs_followed journal as ts"
    by (auto simp: watching_def)
  obtain bs where bs: "s2 = fold (do_action E now) bs s1" "logs_followed journal (as @ bs) (ts[i := t])"
    using logs_followed_step [OF run(2) run(1) refl as(2)] by blast
  have "supervised E now (prometheusPort s) s2"
    using goroutine_step_supervised [OF run(2)] run(3) by (simp add: watching_def)
  with as(1) bs show ?case unfolding watching_def by (intro conjI exI [of _ "as @ bs"]) auto
qed



end
