(* ===== verification/Systemstate.thy ===== *)
theory Systemstate
  imports Main
begin

text \<open>
  The tables of tools/bbbsupervisor/systemstate/systemstate.go: the priority of a description code
  and the state code it belongs to.  The codes are constants of a generated package; the
  constructors are the ones the tables name.  State codes are ordered by severity.
\<close>

datatype StateCode = IDLE | WORKING | WARNING | ERROR

datatype DescriptionCode =
    EMPTY
  | INITIAL_BLOCK_SYNC
  | DOWNLOAD_UPDATE
  | UPDATE_FAILED
  | NO_NETWORK_CONNECTION
  | REBOOT
  | SHUTDOWN
  | OUT_OF_DISK_SPACE
  | REDIS_ERROR

primrec MapDescriptionCodePriority :: "DescriptionCode \<Rightarrow> int" where
  "MapDescriptionCodePriority EMPTY = 0"
| "MapDescriptionCodePriority INITIAL_BLOCK_SYNC = 1200"
| "MapDescriptionCodePriority DOWNLOAD_UPDATE = 1400"
| "MapDescriptionCodePriority UPDATE_FAILED = 2300"
| "MapDescriptionCodePriority NO_NETWORK_CONNECTION = 2400"
| "MapDescriptionCodePriority REBOOT = 2500"
| "MapDescriptionCodePriority SHUTDOWN = 2510"
| "MapDescriptionCodePriority OUT_OF_DISK_SPACE = 3400"
| "MapDescriptionCodePriority REDIS_ERROR = 3900"

primrec MapDescriptionCodeStateCode :: "DescriptionCode \<Rightarrow> StateCode" where
  "MapDescriptionCodeStateCode EMPTY = IDLE"
| "MapDescriptionCodeStateCode INITIAL_BLOCK_SYNC = WORKING"
| "MapDescriptionCodeStateCode DOWNLOAD_UPDATE = WORKING"
| "MapDescriptionCodeStateCode REBOOT = WARNING"
| "MapDescriptionCodeStateCode SHUTDOWN = WARNING"
| "MapDescriptionCodeStateCode UPDATE_FAILED = WARNING"
| "MapDescriptionCodeStateCode NO_NETWORK_CONNECTION = WARNING"
| "MapDescriptionCodeStateCode OUT_OF_DISK_SPACE = ERROR"
| "MapDescriptionCodeStateCode REDIS_ERROR = ERROR"

primrec severity :: "StateCode \<Rightarrow> nat" where
  "severity IDLE = 0" | "severity WORKING = 1" | "severity WARNING = 2" | "severity ERROR = 3"

lemma severity_inj: "severity x = severity y \<Longrightarrow> x = y"
  by (cases x; cases y) simp_all

instantiation StateCode :: linorder
begin

definition less_eq_StateCode :: "StateCode \<Rightarrow> StateCode \<Rightarrow> bool" where
  "x \<le> y \<longleftrightarrow> severity x \<le> severity y"

definition less_StateCode :: "StateCode \<Rightarrow> StateCode \<Rightarrow> bool" where
  "x < y \<longleftrightarrow> severity x < severity y"

instance
  by standard (auto simp: less_eq_StateCode_def less_StateCode_def intro: severity_inj)

end

text \<open>The priorities agree with the severity, and no two description codes share one.\<close>

lemma priority_by_severity:
  "MapDescriptionCodeStateCode c < MapDescriptionCodeStateCode d \<Longrightarrow>
   MapDescriptionCodePriority c < MapDescriptionCodePriority d"
  by (cases c; cases d) (simp_all add: less_StateCode_def)

lemma priority_inj: "MapDescriptionCodePriority c = MapDescriptionCodePriority d \<Longrightarrow> c = d"
  by (cases c; cases d) simp_all

end
