(* ===== verification/Fancontrol.thy ===== *)
theory Fancontrol
  imports Go_Flag "HOL-Library.Word" "HOL-Library.Signed_Division"
begin

text \<open>
  The fan control daemon (tools/bbbfancontrol/bbbfancontrol.go): a loop that reads the temperature
  and sets the fan, with a hysteresis between a start and a cool-down temperature.

  Go's \<open>int\<close> is a 64-bit word: \<open>+\<close>, \<open>-\<close>, \<open>*\<close> wrap, comparisons are signed, \<open>/\<close> truncates towards
  zero and panics on 0.  The command line is parsed by Go_Flag.  The two files are reached through \<open>fan_env\<close>; the log holds the
  temperatures in degrees, the values written and the sleeps in nanoseconds.  A run of
  \<open>n\<close> rounds is \<open>fan_rounds n\<close>; the code's loop has no end.

  Lemma groups: the command line; the formula over the integers where nothing overflows; one round; the
  hysteresis as a function of the temperatures read.
\<close>

subsection \<open>Integers\<close>

type_synonym gint = "64 word"

definition quotient :: "gint \<Rightarrow> gint \<Rightarrow> gint option" where
  "quotient a b = (if b = 0 then None else Some (word_of_int (sint a sdiv sint b)))"

subsection \<open>The control function\<close>

record fan_args =
  tempFile :: string
  tempMin :: gint
  tempMax :: gint
  tempCooldown :: gint
  fanFile :: string
  fanMin :: gint
  fanMax :: gint
  fanKickstart :: gint
  cycle :: gint

text \<open>The defaults of the flags.\<close>

definition default_fan_args :: fan_args where
  "default_fan_args = \<lparr>tempFile = ''/sys/class/thermal/thermal_zone0/temp'', tempMin = 45, tempMax = 60,
     tempCooldown = 40, fanFile = ''/sys/class/hwmon/hwmon0/pwm1'', fanMin = 120, fanMax = 255,
     fanKickstart = 0, cycle = 10\<rparr>"

definition inconsistent_range :: "fan_args \<Rightarrow> bool" where
  "inconsistent_range a \<longleftrightarrow> tempMin a <s tempCooldown a \<or> tempMax a <s tempMin a"

text \<open>The linear increase, capped; \<open>None\<close> is the panic of a division by zero.\<close>

definition fan_pwm :: "fan_args \<Rightarrow> gint \<Rightarrow> gint option" where
  "fan_pwm a tempCur = (case quotient (fanMax a - fanMin a) (tempMax a - tempMin a) of
     None \<Rightarrow> None
   | Some slope \<Rightarrow> (let fanPWM = fanMin a + slope * (tempCur - tempMin a) in
       Some (if fanMax a <s fanPWM then fanMax a else fanPWM)))"

text \<open>The speed to set, the next value of \<open>cooldown\<close>, and whether the fan was turned on.\<close>

definition fan_decide :: "fan_args \<Rightarrow> bool \<Rightarrow> gint \<Rightarrow> gint \<Rightarrow> gint \<times> bool \<times> bool" where
  "fan_decide a cooldown tempCur fanPWM =
     (if cooldown then
        (if tempCur <s tempCooldown a then (0, False, False)
         else (if fanPWM <s fanMin a then fanMin a else fanPWM, True, False))
      else if tempMin a \<le>s tempCur then (fanPWM, True, True)
      else (0, False, False))"

subsection \<open>The loop\<close>

record 'w fan_env =
  read_file :: "string \<Rightarrow> 'w \<Rightarrow> (goerr + string) \<times> 'w"
  write_file :: "string \<Rightarrow> string \<Rightarrow> 'w \<Rightarrow> goerr option \<times> 'w"

datatype fan_effect = Temperature gint | SetFan string | Pause gint

record 'w fan_state =
  device :: 'w
  cooldown :: bool
  fan_log :: "fan_effect list"

datatype fan_end = ExitOk | ExitUsage | Fatal | Crashed

type_synonym ('w, 'a) fan = "('w fan_state, fan_end + 'a) state"

definition note_fan :: "fan_effect \<Rightarrow> ('w, unit) fan" where
  "note_fan e = do {
     _ \<leftarrow> modify (\<lambda>s. s\<lparr>fan_log := fan_log s @ [e]\<rparr>);
     State_Monad.return (Inr ()) }"

definition readValueFile :: "'w fan_env \<Rightarrow> string \<Rightarrow> ('w, string) fan" where
  "readValueFile E filepath = State (\<lambda>s. case read_file E filepath (device s) of
     (Inl err, w) \<Rightarrow> (Inl Fatal, s\<lparr>device := w\<rparr>)
   | (Inr data, w) \<Rightarrow> (Inr data, s\<lparr>device := w\<rparr>))"

definition writeValueFile :: "'w fan_env \<Rightarrow> string \<Rightarrow> string \<Rightarrow> ('w, unit) fan" where
  "writeValueFile E filepath v = State (\<lambda>s. case write_file E filepath v (device s) of
     (Some err, w) \<Rightarrow> (Inl Fatal, s\<lparr>device := w\<rparr>)
   | (None, w) \<Rightarrow> (Inr (), s\<lparr>device := w, fan_log := fan_log s @ [SetFan v]\<rparr>))"

definition and_then :: "('w, 'a) fan \<Rightarrow> ('a \<Rightarrow> ('w, 'b) fan) \<Rightarrow> ('w, 'b) fan" where
  "and_then m f = do {
     r \<leftarrow> m;
     (case r of Inl x \<Rightarrow> State_Monad.return (Inl x) | Inr v \<Rightarrow> f v) }"

definition pause :: "gint \<Rightarrow> ('w, unit) fan" where
  "pause seconds = note_fan (Pause (seconds * 1000000000))"

definition current_temperature :: "'w fan_env \<Rightarrow> fan_args \<Rightarrow> ('w, gint) fan" where
  "current_temperature E a = and_then (readValueFile E (tempFile a)) (\<lambda>tempStr.
     case Atoi (TrimSpace tempStr) of
       Inl err \<Rightarrow> State_Monad.return (Inl Fatal)
     | Inr i \<Rightarrow> (let tempCur = word_of_int (sint (word_of_int i :: gint) sdiv 1000)
         in and_then (note_fan (Temperature tempCur)) (\<lambda>_. State_Monad.return (Inr tempCur))))"

definition fan_round :: "'w fan_env \<Rightarrow> fan_args \<Rightarrow> ('w, unit) fan" where
  "fan_round E a = and_then (current_temperature E a) (\<lambda>tempCur.
     case fan_pwm a tempCur of
       None \<Rightarrow> State_Monad.return (Inl Crashed)
     | Some fanPWM \<Rightarrow> do {
         old \<leftarrow> gets cooldown;
         (case fan_decide a old tempCur fanPWM of (pwm, new, started) \<Rightarrow> do {
            _ \<leftarrow> modify (\<lambda>s. s\<lparr>cooldown := new\<rparr>);
            and_then (if started \<and> 0 <s fanKickstart a
                then and_then (writeValueFile E (fanFile a) (Itoa (sint (fanMax a)))) (\<lambda>_. pause (fanKickstart a))
                else State_Monad.return (Inr ()))
              (\<lambda>_. and_then (writeValueFile E (fanFile a) (Itoa (sint pwm))) (\<lambda>_. pause (cycle a))) }) })"

primrec fan_rounds :: "'w fan_env \<Rightarrow> fan_args \<Rightarrow> nat \<Rightarrow> ('w, unit) fan" where
  "fan_rounds E a 0 = State_Monad.return (Inr ())"
| "fan_rounds E a (Suc n) = and_then (fan_rounds E a n) (\<lambda>_. fan_round E a)"

definition fan_start :: "'w \<Rightarrow> 'w fan_state" where
  "fan_start w = \<lparr>device = w, cooldown = False, fan_log = []\<rparr>"

text \<open>\<open>main\<close> up to its \<open>n\<close>th round.\<close>

definition fan_main :: "'w fan_env \<Rightarrow> bool \<Rightarrow> fan_args \<Rightarrow> nat \<Rightarrow> 'w \<Rightarrow> (fan_end + unit) \<times> 'w fan_state" where
  "fan_main E version a n w =
     (if version then (Inl ExitOk, fan_start w)
      else if inconsistent_range a then (Inl ExitUsage, fan_start w)
      else run_state (fan_rounds E a n) (fan_start w))"

subsection \<open>The command line\<close>

record fan_flags = fan_args +
  verboseFlag :: bool
  versionFlag :: bool

definition default_fan_flags :: fan_flags where
  "default_fan_flags = fan_args.extend default_fan_args \<lparr>verboseFlag = False, versionFlag = False\<rparr>"

definition fan_flag_table :: "fan_flags flags" where
  "fan_flag_table = [
     (''temp'', Flag_String (\<lambda>v f. f\<lparr>tempFile := v\<rparr>)),
     (''tmin'', Flag_Int (\<lambda>i f. f\<lparr>tempMin := word_of_int i\<rparr>)),
     (''tmax'', Flag_Int (\<lambda>i f. f\<lparr>tempMax := word_of_int i\<rparr>)),
     (''cooldown'', Flag_Int (\<lambda>i f. f\<lparr>tempCooldown := word_of_int i\<rparr>)),
     (''fan'', Flag_String (\<lambda>v f. f\<lparr>fanFile := v\<rparr>)),
     (''fmin'', Flag_Int (\<lambda>i f. f\<lparr>fanMin := word_of_int i\<rparr>)),
     (''fmax'', Flag_Int (\<lambda>i f. f\<lparr>fanMax := word_of_int i\<rparr>)),
     (''kickstart'', Flag_Int (\<lambda>i f. f\<lparr>fanKickstart := word_of_int i\<rparr>)),
     (''cycle'', Flag_Int (\<lambda>i f. f\<lparr>cycle := word_of_int i\<rparr>)),
     (''v'', Flag_Bool (\<lambda>b f. f\<lparr>verboseFlag := b\<rparr>)),
     (''version'', Flag_Bool (\<lambda>b f. f\<lparr>versionFlag := b\<rparr>))]"

definition fan_program ::
  "'w fan_env \<Rightarrow> string list \<Rightarrow> nat \<Rightarrow> 'w \<Rightarrow> flag_error + (fan_end + unit) \<times> 'w fan_state" where
  "fan_program E cmdline n w = (case parse_flags fan_flag_table cmdline default_fan_flags of
     Inl e \<Rightarrow> Inl e
   | Inr (f, _) \<Rightarrow> Inr (fan_main E (versionFlag f) (fan_args.truncate f) n w))"

definition fan_cmdline :: "fan_flags \<Rightarrow> string list" where
  "fan_cmdline f = [
     setting ''temp'' (tempFile f), setting ''tmin'' (Itoa (sint (tempMin f))),
     setting ''tmax'' (Itoa (sint (tempMax f))), setting ''cooldown'' (Itoa (sint (tempCooldown f))),
     setting ''fan'' (fanFile f), setting ''fmin'' (Itoa (sint (fanMin f))),
     setting ''fmax'' (Itoa (sint (fanMax f))), setting ''kickstart'' (Itoa (sint (fanKickstart f))),
     setting ''cycle'' (Itoa (sint (cycle f))), setting ''v'' (bool_text (verboseFlag f)),
     setting ''version'' (bool_text (versionFlag f))]"

lemma int_of_flag [simp]: "int_min \<le> sint (w :: gint)" "sint (w :: gint) \<le> int_max"
  using sint_lt [of w] sint_ge [of w] by (simp_all add: int_min_def int_max_def)

lemma fan_flags_read_back: "parse_flags fan_flag_table (fan_cmdline f) f0 = Inr (f, [])"
proof -
  note [simp] = flag_name_def fan_flag_table_def
  show ?thesis unfolding fan_cmdline_def by (simp add: parse_setting del: parse_flags.simps(2))
qed

lemma fan_program_settings:
  "fan_program E (fan_cmdline f) n w = Inr (fan_main E (versionFlag f) (fan_args.truncate f) n w)"
  by (simp add: fan_program_def fan_flags_read_back)

lemma fan_program_defaults:
  "fan_program E [] n w = Inr (run_state (fan_rounds E default_fan_args n) (fan_start w))"
  by (simp add: fan_program_def default_fan_flags_def fan_args.defs default_fan_args_def fan_main_def
      inconsistent_range_def word_sless_alt)

subsection \<open>The formula over the integers\<close>

lemma sint_of_int: "- (2 ^ 63) \<le> i \<Longrightarrow> i < 2 ^ 63 \<Longrightarrow> sint (word_of_int i :: gint) = i"
  by (simp add: signed_of_int signed_take_bit_int_eq_self)

lemma sint_arith:
  fixes a b :: gint
  shows "- (2 ^ 63) \<le> sint a - sint b \<Longrightarrow> sint a - sint b < 2 ^ 63 \<Longrightarrow> sint (a - b) = sint a - sint b"
    and "- (2 ^ 63) \<le> sint a + sint b \<Longrightarrow> sint a + sint b < 2 ^ 63 \<Longrightarrow> sint (a + b) = sint a + sint b"
    and "- (2 ^ 63) \<le> sint a * sint b \<Longrightarrow> sint a * sint b < 2 ^ 63 \<Longrightarrow> sint (a * b) = sint a * sint b"
proof -
  have a: "a = word_of_int (sint a)" and b: "b = word_of_int (sint b)" by simp_all
  show "- (2 ^ 63) \<le> sint a - sint b \<Longrightarrow> sint a - sint b < 2 ^ 63 \<Longrightarrow> sint (a - b) = sint a - sint b"
    using sint_of_int [of "sint a - sint b"] by simp
  show "- (2 ^ 63) \<le> sint a + sint b \<Longrightarrow> sint a + sint b < 2 ^ 63 \<Longrightarrow> sint (a + b) = sint a + sint b"
    using sint_of_int [of "sint a + sint b"] by simp
  show "- (2 ^ 63) \<le> sint a * sint b \<Longrightarrow> sint a * sint b < 2 ^ 63 \<Longrightarrow> sint (a * b) = sint a * sint b"
    using sint_of_int [of "sint a * sint b"] by simp
qed

definition small :: "gint \<Rightarrow> bool" where
  "small x \<longleftrightarrow> - (2 ^ 30) \<le> sint x \<and> sint x \<le> 2 ^ 30"

text \<open>Arguments for which the formula makes sense.\<close>

definition fan_args_ok :: "fan_args \<Rightarrow> bool" where
  "fan_args_ok a \<longleftrightarrow> small (tempMin a) \<and> small (tempMax a) \<and> small (fanMin a) \<and> small (fanMax a) \<and>
     tempMin a <s tempMax a \<and> fanMin a \<le>s fanMax a"

lemma sdiv_nonneg: "0 \<le> (x :: int) \<Longrightarrow> 0 < y \<Longrightarrow> x sdiv y = x div y"
  by (simp add: signed_divide_int_def sgn_if)

lemma quotient_ok:
  assumes "0 \<le> sint x" "0 < sint y"
  shows "\<exists>q. quotient x y = Some q \<and> sint q = sint x div sint y"
proof -
  have "sint x div sint y \<le> sint x" using assms zdiv_mono2 [of "sint x" 1 "sint y"] by simp
  moreover have "sint x < 2 ^ 63" using sint_lt [of x] by simp
  moreover have "0 \<le> sint x div sint y" using assms by (simp add: pos_imp_zdiv_nonneg_iff)
  ultimately show ?thesis using assms
    by (auto simp: quotient_def sdiv_nonneg sint_of_int)
qed

text \<open>The linear formula, without the limits of the machine.\<close>

definition fan_speed :: "fan_args \<Rightarrow> int \<Rightarrow> int" where
  "fan_speed a t = min (sint (fanMax a)) (sint (fanMin a) +
     (sint (fanMax a) - sint (fanMin a)) div (sint (tempMax a) - sint (tempMin a)) * (t - sint (tempMin a)))"

lemma fan_pwm_exact:
  assumes a: "fan_args_ok a" and t: "small t"
  obtains pwm where "fan_pwm a t = Some pwm" "sint pwm = fan_speed a (sint t)"
proof -
  define lo hi t0 t1 where d: "lo = sint (fanMin a)" "hi = sint (fanMax a)" "t0 = sint (tempMin a)" "t1 = sint (tempMax a)"
  have b: "- (2 ^ 30) \<le> lo" "lo \<le> hi" "hi \<le> 2 ^ 30" "- (2 ^ 30) \<le> t0" "t0 < t1" "t1 \<le> 2 ^ 30"
    "- (2 ^ 30) \<le> sint t" "sint t \<le> 2 ^ 30"
    using a t unfolding fan_args_ok_def small_def d word_sless_alt word_sle_eq by auto
  have df: "sint (fanMax a - fanMin a) = hi - lo" and dt: "sint (tempMax a - tempMin a) = t1 - t0"
    and dc: "sint (t - tempMin a) = sint t - t0"
    using b unfolding d by (intro sint_arith(1); simp)+
  define q where "q = (hi - lo) div (t1 - t0)"
  obtain slope where slope: "quotient (fanMax a - fanMin a) (tempMax a - tempMin a) = Some slope" "sint slope = q"
    using quotient_ok [of "fanMax a - fanMin a" "tempMax a - tempMin a"] b unfolding q_def df dt by auto
  have "q \<le> hi - lo" using b zdiv_mono2 [of "hi - lo" 1 "t1 - t0"] unfolding q_def by simp
  then have q: "0 \<le> q" "q \<le> 2 ^ 31" using b unfolding q_def by (auto simp: pos_imp_zdiv_nonneg_iff)
  have c: "- (2 ^ 31) \<le> sint t - t0" "sint t - t0 \<le> 2 ^ 31" using b by auto
  have "\<bar>q * (sint t - t0)\<bar> \<le> 2 ^ 31 * 2 ^ 31"
    unfolding abs_mult using q c by (intro mult_mono) auto
  then have p: "- (2 ^ 62) \<le> q * (sint t - t0)" "q * (sint t - t0) \<le> 2 ^ 62" by auto
  have m: "sint (slope * (t - tempMin a)) = q * (sint t - t0)"
    unfolding slope(2) [symmetric] dc [symmetric] using p slope(2) dc by (intro sint_arith(3)) auto
  have s: "sint (fanMin a + slope * (t - tempMin a)) = lo + q * (sint t - t0)"
    using sint_arith(2) [of "fanMin a" "slope * (t - tempMin a)"] p b unfolding m d(1) [symmetric] by simp
  show thesis
    by (rule that [of "if fanMax a <s fanMin a + slope * (t - tempMin a) then fanMax a else fanMin a + slope * (t - tempMin a)"])
      (use slope(1) s in \<open>auto simp: fan_pwm_def fan_speed_def word_sless_alt d q_def Let_def\<close>)
qed

lemma fan_speed_above:
  "fan_args_ok a \<Longrightarrow> sint (tempMin a) \<le> t \<Longrightarrow> sint (fanMin a) \<le> fan_speed a t \<and> fan_speed a t \<le> sint (fanMax a)"
  unfolding fan_speed_def fan_args_ok_def word_sless_alt word_sle_eq by (auto simp: pos_imp_zdiv_nonneg_iff)

subsection \<open>Rounds\<close>

lemma run_and_then: "run_state (and_then m f) s = (case run_state m s of
    (Inl x, s') \<Rightarrow> (Inl x, s') | (Inr v, s') \<Rightarrow> run_state (f v) s')"
  by (auto simp: and_then_def split: prod.split sum.split)

lemma run_note_fan [simp]: "run_state (note_fan e) s = (Inr (), s\<lparr>fan_log := fan_log s @ [e]\<rparr>)"
  by (simp add: note_fan_def)

text \<open>
  What a round that ends normally adds to the log, and the next value of \<open>cooldown\<close>.
\<close>

definition round_log :: "fan_args \<Rightarrow> gint \<Rightarrow> gint \<Rightarrow> bool \<Rightarrow> fan_effect list" where
  "round_log a t pwm started = [Temperature t] @
     (if started \<and> 0 <s fanKickstart a
      then [SetFan (Itoa (sint (fanMax a))), Pause (fanKickstart a * 1000000000)] else []) @
     [SetFan (Itoa (sint pwm)), Pause (cycle a * 1000000000)]"

lemma fan_round_ok:
  assumes "run_state (fan_round E a) s = (Inr r, s')"
  obtains t p pwm new started where "fan_pwm a t = Some p"
    "fan_decide a (cooldown s) t p = (pwm, new, started)" "cooldown s' = new"
    "fan_log s' = fan_log s @ round_log a t pwm started"
proof -
  obtain t s1 where t: "run_state (current_temperature E a) s = (Inr t, s1)"
    using assms by (auto simp: fan_round_def run_and_then split: prod.splits sum.splits)
  have s1: "fan_log s1 = fan_log s @ [Temperature t]" "cooldown s1 = cooldown s"
    using t by (auto simp: current_temperature_def run_and_then readValueFile_def Let_def split: prod.splits sum.splits)
  obtain p where p: "fan_pwm a t = Some p"
    using assms t by (cases "fan_pwm a t") (auto simp: fan_round_def run_and_then)
  obtain pwm new started where d: "fan_decide a (cooldown s) t p = (pwm, new, started)"
    by (metis prod_cases3)
  have "cooldown s' = new \<and> fan_log s' = fan_log s @ round_log a t pwm started"
    using assms t p d s1
    by (auto simp: fan_round_def run_and_then writeValueFile_def pause_def round_log_def
        split: prod.splits option.splits if_splits)
  with p d show thesis using that by blast
qed

definition temperatures :: "fan_effect list \<Rightarrow> gint list" where
  "temperatures l = concat (map (\<lambda>e. case e of Temperature t \<Rightarrow> [t] | _ \<Rightarrow> []) l)"

definition speeds :: "fan_effect list \<Rightarrow> string list" where
  "speeds l = concat (map (\<lambda>e. case e of SetFan v \<Rightarrow> [v] | _ \<Rightarrow> []) l)"

lemma round_log_simps [simp]:
  "temperatures (l @ round_log a t pwm started) = temperatures l @ [t]"
  "speeds (l @ round_log a t pwm started) =
    speeds l @ (if started \<and> 0 <s fanKickstart a then [Itoa (sint (fanMax a))] else []) @ [Itoa (sint pwm)]"
  by (auto simp: temperatures_def speeds_def round_log_def)

text \<open>Induction over the rounds of a run from the start.\<close>

lemma fan_rounds_induct [consumes 1, case_names start round]:
  assumes "run_state (fan_rounds E a n) (fan_start w) = (Inr r, s)"
    and "P 0 (fan_start w)"
    and "\<And>n s t p pwm new started s'. run_state (fan_rounds E a n) (fan_start w) = (Inr (), s) \<Longrightarrow> P n s \<Longrightarrow>
      fan_pwm a t = Some p \<Longrightarrow> fan_decide a (cooldown s) t p = (pwm, new, started) \<Longrightarrow>
      cooldown s' = new \<Longrightarrow> fan_log s' = fan_log s @ round_log a t pwm started \<Longrightarrow> P (Suc n) s'"
  shows "P n s"
  using assms(1)
proof (induction n arbitrary: s r)
  case 0
  then show ?case using assms(2) by simp
next
  case (Suc n)
  obtain s1 where s1: "run_state (fan_rounds E a n) (fan_start w) = (Inr (), s1)"
    and s: "run_state (fan_round E a) s1 = (Inr r, s)"
    using Suc.prems by (auto simp: run_and_then split: prod.splits sum.splits)
  from s show ?case by (rule fan_round_ok) (rule assms(3) [OF s1 Suc.IH [OF s1]])
qed

text \<open>
  The hysteresis as a function of the temperatures: on if the last one that is not between the
  two limits is at the start temperature or above.
\<close>

definition schmitt :: "fan_args \<Rightarrow> gint list \<Rightarrow> bool" where
  "schmitt a ts = (case dropWhile (\<lambda>t. \<not> t <s tempCooldown a \<and> \<not> tempMin a \<le>s t) (rev ts) of
     [] \<Rightarrow> False | t # _ \<Rightarrow> tempMin a \<le>s t)"

lemma schmitt_simps [simp]:
  "schmitt a [] = False"
  "schmitt a (ts @ [t]) =
    (if t <s tempCooldown a \<or> tempMin a \<le>s t then tempMin a \<le>s t else schmitt a ts)"
  by (auto simp: schmitt_def)

lemma fan_decide_cases:
  assumes d: "fan_decide a old t p = (pwm, new, started)" and c: "\<not> inconsistent_range a"
    and on: "tempMin a \<le>s t \<Longrightarrow> fanMin a \<le>s p \<and> p \<le>s fanMax a" and m: "fanMin a \<le>s fanMax a" "p \<le>s fanMax a"
  shows "new = (if t <s tempCooldown a \<or> tempMin a \<le>s t then tempMin a \<le>s t else old) \<and>
    (if new then fanMin a \<le>s pwm \<and> pwm \<le>s fanMax a else pwm = 0)"
  using d c on m unfolding fan_decide_def inconsistent_range_def word_sless_alt word_sle_eq
  by (auto split: if_splits)

lemma fan_pwm_range:
  assumes "fan_args_ok a" "small t" "fan_pwm a t = Some p"
  shows "p \<le>s fanMax a" "tempMin a \<le>s t \<Longrightarrow> fanMin a \<le>s p"
proof -
  obtain q where "fan_pwm a t = Some q" "sint q = fan_speed a (sint t)"
    using assms(1,2) by (rule fan_pwm_exact)
  with assms(3) have p: "sint p = fan_speed a (sint t)" by simp
  then show "p \<le>s fanMax a" by (simp add: word_sle_eq fan_speed_def)
  show "fanMin a \<le>s p" if "tempMin a \<le>s t"
    using fan_speed_above [OF assms(1), of "sint t"] that p by (simp add: word_sle_eq)
qed

lemma Itoa_eq_0: "Itoa (sint x) = Itoa 0 \<longleftrightarrow> x = (0 :: gint)"
proof
  assume "Itoa (sint x) = Itoa 0"
  then have "Atoi (Itoa (sint x)) = Atoi (Itoa 0)" by simp
  moreover have "int_min \<le> sint x" "sint x \<le> int_max"
    using sint_ge [of x] sint_lt [of x] by (auto simp: int_min_def int_max_def)
  ultimately have "sint x = 0" by (simp add: Atoi_Itoa int_min_def int_max_def)
  then show "x = 0" by (metis signed_word_eqI sint_0)
qed simp

subsection \<open>Properties\<close>

text \<open>
  C29: Over any number of rounds the fan is off exactly if the last temperature outside the band
  between the cool-down and the start temperature was below it (or there was none), and it is
  switched once per round at the end.
\<close>

theorem fan_hysteresis:
  assumes "fan_args_ok a" "0 <s fanMin a" "\<not> inconsistent_range a"
    and "run_state (fan_rounds E a n) (fan_start w) = (Inr r, s)"
    and "\<forall>t \<in> set (temperatures (fan_log s)). small t"
  shows "length (temperatures (fan_log s)) = n \<and> cooldown s = schmitt a (temperatures (fan_log s)) \<and>
    (0 < n \<longrightarrow> (last (speeds (fan_log s)) = ''0'') = (\<not> schmitt a (temperatures (fan_log s))))"
  using assms(4,5)
proof (induction rule: fan_rounds_induct)
  case start
  then show ?case by (simp add: fan_start_def temperatures_def)
next
  case (round n s t p pwm new started s')
  from round have t: "small t" and IH: "cooldown s = schmitt a (temperatures (fan_log s))"
    "length (temperatures (fan_log s)) = n" by auto
  have m: "fanMin a \<le>s fanMax a" using assms(1) by (simp add: fan_args_ok_def)
  have "new = schmitt a (temperatures (fan_log s')) \<and> (if new then fanMin a \<le>s pwm \<and> pwm \<le>s fanMax a else pwm = 0)"
    using fan_decide_cases [OF round.hyps(3) assms(3) _ m] fan_pwm_range [OF assms(1) t round.hyps(2)] IH round.hyps(5) by auto
  moreover from this assms(2) have "pwm = 0 \<longleftrightarrow> \<not> new"
    by (auto simp: word_sless_alt word_sle_eq split: if_splits)
  moreover have "''0'' = Itoa 0" by (simp add: Itoa_def itoa_nat.simps digit_char_def)
  ultimately show ?case using round.hyps(4,5) IH(2) by (simp add: Itoa_eq_0)
qed

text \<open>
  Whatever the temperatures, every value written to the fan is 0 or between the minimum and
  the maximum.
\<close>

theorem fan_range:
  assumes "fan_args_ok a" "\<not> inconsistent_range a"
    and "run_state (fan_rounds E a n) (fan_start w) = (Inr r, s)"
    and "\<forall>t \<in> set (temperatures (fan_log s)). small t"
  shows "\<forall>v \<in> set (speeds (fan_log s)). v = Itoa 0 \<or> (\<exists>x. fanMin a \<le>s x \<and> x \<le>s fanMax a \<and> v = Itoa (sint x))"
  using assms(3,4)
proof (induction rule: fan_rounds_induct)
  case start
  then show ?case by (simp add: fan_start_def speeds_def)
next
  case (round n s t p pwm new started s')
  from round have t: "small t" by auto
  have m: "fanMin a \<le>s fanMax a" using assms(1) by (simp add: fan_args_ok_def)
  have "if new then fanMin a \<le>s pwm \<and> pwm \<le>s fanMax a else pwm = 0"
    using fan_decide_cases [OF round.hyps(3) assms(2) _ m] fan_pwm_range [OF assms(1) t round.hyps(2)] by blast
  then have "Itoa (sint pwm) = Itoa 0 \<or> (\<exists>x. fanMin a \<le>s x \<and> x \<le>s fanMax a \<and> Itoa (sint pwm) = Itoa (sint x))"
    by (auto split: if_splits)
  with round.IH round.hyps(5) round.prems m show ?case by auto
qed

text \<open>
  The maximum speed is reached at the maximum temperature exactly if the range of the
  temperatures divides that of the speeds; if it is the larger one, the fan never runs faster
  than the minimum.
\<close>

theorem fan_full_speed:
  assumes "fan_args_ok a"
  shows "(fan_pwm a (tempMax a) = Some (fanMax a)) =
      (sint (tempMax a) - sint (tempMin a) dvd sint (fanMax a) - sint (fanMin a)) \<and>
    (sint (fanMax a) - sint (fanMin a) < sint (tempMax a) - sint (tempMin a) \<longrightarrow>
      (\<forall>t. small t \<longrightarrow> fan_pwm a t = Some (fanMin a)))"
proof -
  define f d where fd: "f = sint (fanMax a) - sint (fanMin a)" "d = sint (tempMax a) - sint (tempMin a)"
  have ok: "0 \<le> f" "0 < d" "small (tempMax a)"
    using assms by (auto simp: fd fan_args_ok_def word_sless_alt word_sle_eq)
  obtain p where p: "fan_pwm a (tempMax a) = Some p" "sint p = fan_speed a (sint (tempMax a))"
    using assms ok(3) by (rule fan_pwm_exact)
  have le: "f div d * d \<le> f" using ok by (metis div_mult_mod_eq le_add_same_cancel1 pos_mod_sign)
  have "fan_speed a (sint (tempMax a)) = sint (fanMin a) + f div d * d"
    using le by (simp add: fan_speed_def fd)
  then have "p = fanMax a \<longleftrightarrow> f div d * d = f"
    using p(2) by (auto simp: fd signed_word_eqI)
  then have "fan_pwm a (tempMax a) = Some (fanMax a) \<longleftrightarrow> d dvd f"
    using p(1) by (simp add: dvd_eq_mod_eq_0 minus_mod_eq_div_mult [symmetric])
  moreover have "fan_pwm a t = Some (fanMin a)" if fd_less: "f < d" and t: "small t" for t
  proof -
    obtain q where q: "fan_pwm a t = Some q" "sint q = fan_speed a (sint t)"
      using assms t by (rule fan_pwm_exact)
    have "f div d = 0" using ok fd_less by (simp add: div_pos_pos_trivial)
    then have "sint q = sint (fanMin a)" using q(2) ok(1) by (simp add: fan_speed_def fd)
    then show ?thesis using q(1) by (simp add: signed_word_eqI)
  qed
  ultimately show ?thesis unfolding fd by blast
qed

text \<open>
  Equal minimum and maximum temperatures pass the check of the arguments, and the program
  panics on the first temperature it reads.
\<close>

theorem fan_equal_temps_panic:
  assumes "tempMin a = tempMax a" "tempCooldown a \<le>s tempMin a"
    and "read_file E (tempFile a) w = (Inr str, w')" "Atoi (TrimSpace str) = Inr i"
  shows "\<not> inconsistent_range a \<and> fst (fan_main E False a (Suc n) w) = Inl Crashed"
proof -
  have c: "\<not> inconsistent_range a"
    using assms(1,2) by (simp add: inconsistent_range_def word_sless_alt word_sle_eq)
  have one: "\<exists>s. run_state (fan_round E a) (fan_start w) = (Inl Crashed, s)"
    using assms by (simp add: fan_round_def run_and_then current_temperature_def readValueFile_def fan_start_def
        fan_pwm_def quotient_def Let_def)
  have "\<exists>s. run_state (fan_rounds E a (Suc n)) (fan_start w) = (Inl Crashed, s)"
  proof (induction n)
    case 0
    then show ?case using one by (simp add: run_and_then)
  next
    case (Suc n)
    then show ?case unfolding fan_rounds.simps(2) [of _ _ "Suc n"] by (auto simp: run_and_then simp del: fan_rounds.simps)
  qed
  with c show ?thesis by (auto simp: fan_main_def)
qed

subsection \<open>Witnesses\<close>

text \<open>A sensor with the given readings.\<close>

definition demo_fan :: "string list fan_env" where
  "demo_fan = \<lparr>read_file = (\<lambda>f w. case w of [] \<Rightarrow> (Inl (ErrorString ''gone''), []) | x # xs \<Rightarrow> (Inr x, xs)),
     write_file = (\<lambda>f v w. (None, w))\<rparr>"

definition demo_readings :: "string list" where
  "demo_readings = [''50000'' @ [CHR 0x0A], ''42000'' @ [CHR 0x0A], ''39999'' @ [CHR 0x0A]]"

lemma reading_50: "Atoi (TrimSpace (''50000'' @ [CHR 0x0A])) = Inr 50000"
  and reading_42: "Atoi (TrimSpace (''42000'' @ [CHR 0x0A])) = Inr 42000"
  and reading_39: "Atoi (TrimSpace (''39999'' @ [CHR 0x0A])) = Inr 39999"
  by (simp_all add: TrimSpace_def runes_all_ascii IsSpace_def Atoi_def parse_int_def digits_value_def is_digit_def
      int_min_def int_max_def)

lemma demo_pwm:
  "fan_pwm default_fan_args 50 = Some 165" "fan_decide default_fan_args False 50 165 = (165, True, True)"
  "fan_pwm default_fan_args 42 = Some 93" "fan_decide default_fan_args True 42 93 = (120, True, False)"
  "fan_pwm default_fan_args 39 = Some 66" "fan_decide default_fan_args True 39 66 = (0, False, False)"
  by code_simp+

lemma demo_degrees:
  "word_of_int (sint (word_of_int 50000 :: gint) sdiv 1000) = (50 :: gint)"
  "word_of_int (sint (word_of_int 42000 :: gint) sdiv 1000) = (42 :: gint)"
  "word_of_int (sint (word_of_int 39999 :: gint) sdiv 1000) = (39 :: gint)"
  by code_simp+

lemma demo_texts: "Itoa (sint (165 :: gint)) = ''165''" "Itoa (sint (120 :: gint)) = ''120''" "Itoa (sint (0 :: gint)) = ''0''"
  by (simp_all add: Itoa_def itoa_nat.simps digit_char_def)

lemma demo_round:
  assumes "Atoi (TrimSpace x) = Inr i" "word_of_int (sint (word_of_int i :: gint) sdiv 1000) = t"
    and "fan_pwm default_fan_args t = Some p" "fan_decide default_fan_args c t p = (pwm, new, started)"
  shows "run_state (fan_round demo_fan default_fan_args) \<lparr>device = x # xs, cooldown = c, fan_log = l\<rparr> =
    (Inr (), \<lparr>device = xs, cooldown = new, fan_log = l @ [Temperature t, SetFan (Itoa (sint pwm)), Pause 10000000000]\<rparr>)"
proof -
  have d: "tempFile default_fan_args = ''/sys/class/thermal/thermal_zone0/temp''" "fanKickstart default_fan_args = 0"
    "cycle default_fan_args = 10" by (simp_all add: default_fan_args_def)
  show ?thesis using assms
    by (simp add: fan_round_def run_and_then current_temperature_def readValueFile_def writeValueFile_def pause_def
        demo_fan_def d)
qed

lemma demo_fan_run:
  "run_state (fan_rounds demo_fan default_fan_args 3) (fan_start demo_readings) = (Inr (), \<lparr>device = [], cooldown = False,
     fan_log = [Temperature 50, SetFan ''165'', Pause 10000000000, Temperature 42, SetFan ''120'', Pause 10000000000,
       Temperature 39, SetFan ''0'', Pause 10000000000]\<rparr>)"
proof -
  note rounds = demo_round [OF reading_50 demo_degrees(1) demo_pwm(1,2), unfolded append.simps]
    demo_round [OF reading_42 demo_degrees(2) demo_pwm(3,4), unfolded append.simps] demo_round [OF reading_39 demo_degrees(3) demo_pwm(5,6), unfolded append.simps]
  show ?thesis unfolding fan_start_def demo_readings_def
    by (simp only: numeral_3_eq_3 fan_rounds.simps run_and_then run_state_return rounds demo_texts prod.case sum.case append.simps)
qed

lemma default_fan_args_ok: "fan_args_ok default_fan_args \<and> 0 <s fanMin default_fan_args \<and> \<not> inconsistent_range default_fan_args"
  by (simp add: fan_args_ok_def default_fan_args_def small_def inconsistent_range_def word_sless_alt word_sle_eq)

lemma demo_temperatures: "temperatures [Temperature 50, SetFan v, Pause x, Temperature 42, SetFan v', Pause x',
    Temperature 39, SetFan v'', Pause x''] = [50, 42, 39]"
  by (simp add: temperatures_def)

lemma fan_hysteresis_witness:
  "\<exists>s. run_state (fan_rounds demo_fan default_fan_args 3) (fan_start demo_readings) = (Inr (), s) \<and>
     last (speeds (fan_log s)) = ''0'' \<and> \<not> schmitt default_fan_args (temperatures (fan_log s))"
  using fan_hysteresis [OF _ _ _ demo_fan_run] default_fan_args_ok demo_fan_run
  by (simp add: demo_temperatures small_def schmitt_def default_fan_args_def word_sless_alt word_sle_eq)

lemma fan_range_witness:
  "\<exists>s. run_state (fan_rounds demo_fan default_fan_args 3) (fan_start demo_readings) = (Inr (), s) \<and>
     (\<forall>v \<in> set (speeds (fan_log s)). v = Itoa 0 \<or>
       (\<exists>x. fanMin default_fan_args \<le>s x \<and> x \<le>s fanMax default_fan_args \<and> v = Itoa (sint x)))"
  using fan_range [OF _ _ demo_fan_run] default_fan_args_ok demo_fan_run
  by (auto simp: demo_temperatures small_def)

lemma fan_full_speed_witness: "fan_pwm default_fan_args (tempMax default_fan_args) = Some (fanMax default_fan_args)"
  using fan_full_speed [of default_fan_args] default_fan_args_ok by (simp add: default_fan_args_def)

lemma fan_equal_temps_panic_witness:
  "fst (fan_main demo_fan False (default_fan_args\<lparr>tempMin := 60\<rparr>) 1 demo_readings) = Inl Crashed"
proof -
  show ?thesis
    using reading_50 fan_equal_temps_panic [of "default_fan_args\<lparr>tempMin := 60\<rparr>" demo_fan demo_readings "''50000'' @ [CHR 0x0A]" "tl demo_readings" 50000 0]
    by (simp add: demo_fan_def demo_readings_def default_fan_args_def word_sle_eq)
qed

end
