(* ===== verification/Confgen.thy ===== *)
theory Confgen
  imports Redis Go_Flag
begin

text \<open>
  The configuration generator (tools/bbbconfgen/bbbconfgen.go): the placeholders of a template are
  replaced by values from Redis, line by line.

  The two regular expressions are written as scanners: \<open>lazy_group\<close> is \<open>(.+?)}}\<close>, \<open>find_all\<close> the
  non-overlapping matches of \<open>{{(.+?)}}\<close>.  Redis, the files and the command line are reached
  through \<open>gen_env\<close> and \<open>gen_args\<close> (parsed by Go_Flag); \<open>gen_state\<close> has the counters of \<open>parseTemplate\<close>, the keys
  asked for and the lines handed to \<open>fmt.Fprintln\<close>, whose error the code ignores.  A template is
  read as a whole before its first line is processed.

  Lemma groups: the matches of lines with one placeholder; replacing it; the table of its
  options; whole templates.
\<close>

subsection \<open>Patterns\<close>

text \<open>The shortest group of at least one character in front of two closing braces, and the rest.\<close>

fun lazy_group :: "string \<Rightarrow> (string \<times> string) option" where
  "lazy_group [] = None"
| "lazy_group (c # cs) =
     (if c = newline_char then None
      else if HasPrefix cs ''}}'' then Some ([c], drop 2 cs)
      else map_option (map_prod ((#) c) id) (lazy_group cs))"

lemma lazy_group_append: "lazy_group s = Some (g, rest) \<Longrightarrow> s = g @ ''}}'' @ rest"
proof (induction s arbitrary: g)
  case (Cons c s)
  then show ?case by (auto simp: HasPrefix_append split: if_splits)
qed simp

lemma lazy_group_shorter: "lazy_group s = Some (g, rest) \<Longrightarrow> length rest < length s"
  using lazy_group_append by fastforce

text \<open>\<open>FindAllStringSubmatch\<close>: the groups; the match itself is the group within its braces.\<close>

function find_all :: "string \<Rightarrow> string list" where
  "find_all s = (case s of
     [] \<Rightarrow> []
   | c # cs \<Rightarrow> (case (if HasPrefix s ''{{'' then lazy_group (drop 2 s) else None) of
       None \<Rightarrow> find_all cs
     | Some (g, rest) \<Rightarrow> g # find_all rest))"
  by pat_completeness auto
termination
  by (relation "measure length") (auto split: if_splits dest!: lazy_group_shorter)

declare find_all.simps [simp del]

definition braced :: "string \<Rightarrow> string" where
  "braced g = ''{{'' @ g @ ''}}''"

text \<open>The group of the first match of \<open>{{[ ]{0,}#output: (.+?)}}\<close>.\<close>

fun find_output :: "string \<Rightarrow> string option" where
  "find_output [] = None"
| "find_output (c # cs) =
     (let r = dropWhile ((=) (CHR '' '')) (drop 2 (c # cs)) in
      case (if HasPrefix (c # cs) ''{{'' \<and> HasPrefix r ''#output: ''
            then lazy_group (drop 9 r) else None) of
        None \<Rightarrow> find_output cs
      | Some (g, rest) \<Rightarrow> Some g)"

lemma braced_nonempty [simp]: "braced g \<noteq> []"
  by (simp add: braced_def)

subsection \<open>Environment and state\<close>

record gen_args =
  templateArg :: string
  outputArg :: string
  redisAddrArg :: string
  redisPassArg :: string
  redisDbArg :: int
  versionArg :: bool
  helpArg :: bool

datatype dial_option = DialPassword string | DialDatabase int

record 'w gen_env =
  redis_dial :: "string \<Rightarrow> dial_option list \<Rightarrow> 'w \<Rightarrow> goerr option \<times> 'w"
  redis_ping :: "'w \<Rightarrow> goerr option \<times> 'w"
  redis_get :: "string \<Rightarrow> 'w \<Rightarrow> (goerr + reply) \<times> 'w"
  open_template :: "string \<Rightarrow> 'w \<Rightarrow> goerr option \<times> 'w"
  template_text :: "string \<Rightarrow> 'w \<Rightarrow> string"
  create_output :: "string \<Rightarrow> 'w \<Rightarrow> goerr option \<times> 'w"

record 'w gen_state =
  gen_world :: 'w
  asked :: "string list"
  written :: "string list"
  countLines :: nat
  countReplace :: nat
  countKeep :: nat
  countRm :: nat
  countRmLine :: nat
  countCheckTrue :: nat
  countCheckFalse :: nat
  countDefault :: nat

type_synonym ('w, 'a) gen = "('w gen_state, 'a) state"

definition gen_start :: "'w \<Rightarrow> 'w gen_state" where
  "gen_start w = \<lparr>gen_world = w, asked = [], written = [], countLines = 0, countReplace = 0, countKeep = 0,
     countRm = 0, countRmLine = 0, countCheckTrue = 0, countCheckFalse = 0, countDefault = 0\<rparr>"

definition outside :: "('w \<Rightarrow> 'a \<times> 'w) \<Rightarrow> ('w, 'a) gen" where
  "outside f = State (\<lambda>s. case f (gen_world s) of (r, w) \<Rightarrow> (r, s\<lparr>gen_world := w\<rparr>))"

subsection \<open>One line\<close>

text \<open>The value of a key; any error, a missing key included, gives the empty string.\<close>

definition redis_value :: "'w gen_env \<Rightarrow> string \<Rightarrow> ('w, string) gen" where
  "redis_value G redisKey = do {
     r \<leftarrow> outside (redis_get G redisKey);
     _ \<leftarrow> modify (\<lambda>s. s\<lparr>asked := asked s @ [redisKey]\<rparr>);
     State_Monad.return (fst (redigo_String r))
   }"

definition reads_false :: "string \<Rightarrow> bool" where
  "reads_false v \<longleftrightarrow> v = ''0'' \<or> EqualFold v ''false'' \<or> EqualFold v ''no'' \<or> EqualFold v ''n'' \<or> length v = 0"

definition reads_true :: "string \<Rightarrow> bool" where
  "reads_true v \<longleftrightarrow> v = ''1'' \<or> EqualFold v ''true'' \<or> EqualFold v ''yes'' \<or> EqualFold v ''y''"

record line =
  outputLine :: string
  printLine :: bool

definition drop_line :: "line \<Rightarrow> line" where
  "drop_line l = l\<lparr>printLine := False\<rparr>"

definition put_in :: "string \<Rightarrow> string \<Rightarrow> line \<Rightarrow> line" where
  "put_in g v l = l\<lparr>outputLine := Replace (outputLine l) (braced g) v (-1)\<rparr>"

definition counting :: "('w gen_state \<Rightarrow> 'w gen_state) \<Rightarrow> 'a \<Rightarrow> ('w, 'a) gen" where
  "counting f r = do { _ \<leftarrow> modify f; State_Monad.return r }"

text \<open>\<open>Panic\<close> is the index out of range for a placeholder of blanks; the flag says whether to go on.\<close>

definition placeholder_step :: "'w gen_env \<Rightarrow> string \<Rightarrow> line \<Rightarrow> ('w, (line \<times> bool) go) gen" where
  "placeholder_step G g l = (case Fields g of
     [] \<Rightarrow> State_Monad.return Panic
   | redisKey # opts \<Rightarrow>
       if ToLower_is redisKey ''#output:'' then State_Monad.return (Ret (drop_line l, False))
       else do {
         let option = (case opts of [] \<Rightarrow> [] | opt # _ \<Rightarrow> opt);
         redisVal \<leftarrow> redis_value G redisKey;
         if option = ''#check'' \<or> option = ''#rmLineFalse'' then
           if reads_false redisVal then counting (countCheckFalse_update Suc) (Ret (drop_line l, True))
           else counting (countCheckTrue_update Suc) (Ret (put_in g [] l, True))
         else if option = ''#rmLineTrue'' then
           if reads_true redisVal then counting (countCheckFalse_update Suc) (Ret (drop_line l, True))
           else counting (countCheckTrue_update Suc) (Ret (put_in g [] l, True))
         else if 0 < length redisVal then counting (countReplace_update Suc) (Ret (put_in g redisVal l, True))
         else if ToLower_is option ''#rm'' then counting (countRm_update Suc) (Ret (put_in g [] l, True))
         else if ToLower_is option ''#rmline'' then counting (countRmLine_update Suc) (Ret (drop_line l, True))
         else if ToLower_is option ''#default:'' then
           counting (countDefault_update Suc) (Ret (put_in g (Join (tl opts) '' '') l, True))
         else counting (countKeep_update Suc) (Ret (l, True))
       })"

primrec placeholders_loop :: "'w gen_env \<Rightarrow> string list \<Rightarrow> line \<Rightarrow> ('w, line go) gen" where
  "placeholders_loop G [] l = State_Monad.return (Ret l)"
| "placeholders_loop G (g # gs) l = do {
     r \<leftarrow> placeholder_step G g l;
     (case r of
        Panic \<Rightarrow> State_Monad.return Panic
      | Ret (l', continue) \<Rightarrow> if continue then placeholders_loop G gs l' else State_Monad.return (Ret l'))
   }"

definition template_line :: "'w gen_env \<Rightarrow> string \<Rightarrow> ('w, unit go) gen" where
  "template_line G text = do {
     r \<leftarrow> placeholders_loop G (find_all text) \<lparr>outputLine = text, printLine = True\<rparr>;
     (case r of
        Panic \<Rightarrow> State_Monad.return Panic
      | Ret l \<Rightarrow> if printLine l
          then counting (\<lambda>s. s\<lparr>written := written s @ [outputLine l], countLines := Suc (countLines s)\<rparr>) (Ret ())
          else State_Monad.return (Ret ()))
   }"

subsection \<open>The program\<close>

primrec template_lines :: "'w gen_env \<Rightarrow> string list \<Rightarrow> ('w, unit go) gen" where
  "template_lines G [] = State_Monad.return (Ret ())"
| "template_lines G (l # ls) = do {
     r \<leftarrow> template_line G l;
     (case r of Panic \<Rightarrow> State_Monad.return Panic | Ret u \<Rightarrow> template_lines G ls)
   }"

definition parseTemplate :: "'w gen_env \<Rightarrow> string \<Rightarrow> ('w, goerr option go) gen" where
  "parseTemplate G text = (case scan_lines text of (ls, ok) \<Rightarrow> do {
     r \<leftarrow> template_lines G ls;
     State_Monad.return (case r of
       Panic \<Rightarrow> Panic
     | Ret u \<Rightarrow> Ret (if ok then None else Some (ErrorString ''bufio.Scanner: token too long''))) })"

definition dial_options :: "gen_args \<Rightarrow> dial_option list" where
  "dial_options a = (if 0 < length (redisPassArg a) then [DialDatabase (redisDbArg a)]
     else [DialPassword (redisPassArg a), DialDatabase (redisDbArg a)])"

definition connectRedis :: "'w gen_env \<Rightarrow> gen_args \<Rightarrow> ('w, goerr option) gen" where
  "connectRedis G a = do {
     err \<leftarrow> outside (redis_dial G (redisAddrArg a) (dial_options a));
     (case err of Some e \<Rightarrow> State_Monad.return (Some e) | None \<Rightarrow> outside (redis_ping G))
   }"

definition first_line :: "string \<Rightarrow> string" where
  "first_line text = (case fst (scan_lines text) of [] \<Rightarrow> [] | l # _ \<Rightarrow> l)"

definition openOutputFile :: "'w gen_env \<Rightarrow> gen_args \<Rightarrow> ('w, goerr + string) gen" where
  "openOutputFile G a = do {
     name \<leftarrow> (if 0 < length (outputArg a) then State_Monad.return (Inr (outputArg a))
       else do {
         err \<leftarrow> outside (open_template G (templateArg a));
         (case err of
            Some e \<Rightarrow> State_Monad.return (Inl (ErrorString (''cannot open templateFile '' @ templateArg a)))
          | None \<Rightarrow> do {
              text \<leftarrow> gets (\<lambda>s. template_text G (templateArg a) (gen_world s));
              State_Monad.return (case find_output (first_line text) of
                None \<Rightarrow> Inl (ErrorString
                  ''no output file specified, specify either --output argument or within template'')
              | Some g \<Rightarrow> Inr (Trim g (CHR '' ''))) }) });
     (case name of
        Inl e \<Rightarrow> State_Monad.return (Inl e)
      | Inr filename \<Rightarrow> do {
          err \<leftarrow> outside (create_output G filename);
          State_Monad.return (case err of
            Some e \<Rightarrow> Inl (ErrorString (''cannot create outputFile '' @ filename))
          | None \<Rightarrow> Inr filename) })
   }"

datatype gen_end = Exit nat | Generated | Crash

text \<open>Whether the program goes on after the flags, or how it ends.\<close>

definition initialize :: "gen_args \<Rightarrow> gen_end option" where
  "initialize a =
     (if versionArg a \<or> helpArg a then Some (Exit 0)
      else if length (templateArg a) = 0 then Some (Exit 1)
      else None)"

definition gen_main :: "'w gen_env \<Rightarrow> gen_args \<Rightarrow> ('w, gen_end) gen" where
  "gen_main G a =
     (case initialize a of
        Some e \<Rightarrow> State_Monad.return e
      | None \<Rightarrow> do {
        conn \<leftarrow> connectRedis G a;
        (case conn of
           Some e \<Rightarrow> State_Monad.return (Exit 1)
         | None \<Rightarrow> do {
             templateFile \<leftarrow> outside (open_template G (templateArg a));
             (case templateFile of
                Some e \<Rightarrow> State_Monad.return (Exit 1)
              | None \<Rightarrow> do {
                  outputFile \<leftarrow> openOutputFile G a;
                  (case outputFile of
                     Inl e \<Rightarrow> State_Monad.return (Exit 1)
                   | Inr filename \<Rightarrow> do {
                       text \<leftarrow> gets (\<lambda>s. template_text G (templateArg a) (gen_world s));
                       err \<leftarrow> parseTemplate G text;
                       State_Monad.return (case err of
                         Panic \<Rightarrow> Crash
                       | Ret (Some e) \<Rightarrow> Exit 1
                       | Ret None \<Rightarrow> Generated) }) }) }) })"

text \<open>The command line.\<close>

record gen_flags = gen_args +
  quietArg :: bool

definition default_gen_flags :: gen_flags where
  "default_gen_flags = \<lparr>templateArg = [], outputArg = [], redisAddrArg = ''localhost:6379'', redisPassArg = [],
     redisDbArg = 0, versionArg = False, helpArg = False, quietArg = False\<rparr>"

definition gen_flag_table :: "gen_flags flags" where
  "gen_flag_table = [
     (''template'', Flag_String (\<lambda>v f. f\<lparr>templateArg := v\<rparr>)),
     (''output'', Flag_String (\<lambda>v f. f\<lparr>outputArg := v\<rparr>)),
     (''redis-addr'', Flag_String (\<lambda>v f. f\<lparr>redisAddrArg := v\<rparr>)),
     (''redis-pass'', Flag_String (\<lambda>v f. f\<lparr>redisPassArg := v\<rparr>)),
     (''redis-db'', Flag_Int (\<lambda>i f. f\<lparr>redisDbArg := i\<rparr>)),
     (''version'', Flag_Bool (\<lambda>b f. f\<lparr>versionArg := b\<rparr>)),
     (''quiet'', Flag_Bool (\<lambda>b f. f\<lparr>quietArg := b\<rparr>)),
     (''help'', Flag_Bool (\<lambda>b f. f\<lparr>helpArg := b\<rparr>))]"

definition gen_program :: "'w gen_env \<Rightarrow> string list \<Rightarrow> ('w, flag_error + gen_end) gen" where
  "gen_program G cmdline = (case parse_flags gen_flag_table cmdline default_gen_flags of
     Inl e \<Rightarrow> State_Monad.return (Inl e)
   | Inr (f, _) \<Rightarrow> do {
       e \<leftarrow> gen_main G (gen_args.truncate f);
       State_Monad.return (Inr e) })"

lemma gen_program_help:
  "run_state (gen_program G [''-help'']) s = (Inr (Exit 0), s)"
  "run_state (gen_program G []) s = (Inr (Exit 1), s)"
  by (simp_all add: gen_program_def gen_flag_table_def default_gen_flags_def strip_dashes_def ParseBool_def
      gen_main_def initialize_def gen_args.defs)

subsection \<open>Lines with one placeholder\<close>

lemma Contains_Cons: "Contains (c # cs) sub \<longleftrightarrow> HasPrefix (c # cs) sub \<or> Contains cs sub"
  by (auto simp: Contains_def Index.simps [of "c # cs"])

lemma HasPrefix_Contains: "HasPrefix s sub \<Longrightarrow> Contains s sub"
  by (auto simp: Contains_def Index.simps [of s])

text \<open>No placeholder begins in \<open>pre\<close>, even if two opening braces follow.\<close>

definition no_opening :: "string \<Rightarrow> bool" where
  "no_opening pre \<longleftrightarrow> \<not> Contains (pre @ ''{'') ''{{''"

lemma no_opening_Cons:
  assumes "no_opening (c # cs)"
  shows "no_opening cs" and "\<not> HasPrefix (c # cs @ CHR ''{'' # x) (CHR ''{'' # CHR ''{'' # y)"
  using assms by (auto simp: no_opening_def Contains_Cons Cons_eq_append_conv append_Cons HasPrefix_append
      split: list.splits; cases cs; auto simp: HasPrefix_append)+

lemma find_all_Nil [simp]: "find_all [] = []"
  by (simp add: find_all.simps)

lemma find_all_Cons: "\<not> HasPrefix (c # cs) ''{{'' \<Longrightarrow> find_all (c # cs) = find_all cs"
  by (subst find_all.simps) (auto simp del: HasPrefix_simps)

lemma find_all_match: "lazy_group s = Some (g, rest) \<Longrightarrow> find_all (''{{'' @ s) = g # find_all rest"
  by (subst find_all.simps) (simp add: numeral_2_eq_2)

lemma find_all_none: "\<not> Contains s ''{{'' \<Longrightarrow> find_all s = []"
  by (induction s) (auto simp: find_all_Cons Contains_Cons)

lemma find_all_skip: "no_opening pre \<Longrightarrow> find_all (pre @ ''{{'' @ x) = find_all (''{{'' @ x)"
proof (induction pre)
  case (Cons c cs)
  from no_opening_Cons [OF Cons.prems] have "no_opening cs" "\<not> HasPrefix (c # cs @ ''{{'' @ x) ''{{''" by simp_all
  with Cons.IH show ?case by (simp add: find_all_Cons)
qed simp

text \<open>A group: not empty, on one line, without a closing brace.\<close>

definition group_ok :: "string \<Rightarrow> bool" where
  "group_ok g \<longleftrightarrow> g \<noteq> [] \<and> newline_char \<notin> set g \<and> CHR ''}'' \<notin> set g"

lemma lazy_group_group:
  "g \<noteq> [] \<Longrightarrow> newline_char \<notin> set g \<Longrightarrow> CHR ''}'' \<notin> set g \<Longrightarrow> lazy_group (g @ ''}}'' @ rest) = Some (g, rest)"
proof (induction g rule: induct_list012)
  case (3 c d cs)
  then show ?case by (auto simp: map_prod_def)
qed auto

lemma find_all_one:
  assumes "no_opening pre" "group_ok g" "\<not> Contains post ''{{''"
  shows "find_all (pre @ braced g @ post) = [g]"
proof -
  have "find_all (pre @ braced g @ post) = find_all (''{{'' @ (g @ ''}}'' @ post))"
    using find_all_skip [OF assms(1), of "g @ ''}}'' @ post"] by (simp add: braced_def)
  also have "\<dots> = [g]"
    using lazy_group_group [of g post] assms(2) find_all_none [OF assms(3)]
    by (subst find_all_match) (auto simp: group_ok_def)
  finally show ?thesis .
qed

lemma Index_skip: "no_opening pre \<Longrightarrow> Index (pre @ braced g @ post) (braced g) = Some (length pre)"
proof (induction pre)
  case Nil
  have "HasPrefix (braced g @ post) (braced g)" by simp
  then show ?case by (simp add: Index.simps [of "braced g @ post"])
next
  case (Cons c cs)
  have "\<not> HasPrefix (c # cs @ braced g @ post) (braced g)"
    using no_opening_Cons(2) [OF Cons.prems] by (simp add: braced_def)
  with Cons no_opening_Cons(1) [OF Cons.prems] show ?case by (simp add: Index.simps [of "c # cs @ braced g @ post"])
qed

lemma Replace_one:
  assumes "no_opening pre" "\<not> Contains post ''{{''"
  shows "Replace (pre @ braced g @ post) (braced g) v (-1) = pre @ v @ post"
proof -
  have "Index post (braced g) = None"
    using assms(2) unfolding Index_None_iff Contains_iff braced_def by (metis append.assoc)
  then show ?thesis using Index_skip [OF assms(1), of g post]
    by (simp add: Replace_step Replace_absent)
qed

subsection \<open>Running a line\<close>

definition value_of :: "'w gen_env \<Rightarrow> string \<Rightarrow> 'w gen_state \<Rightarrow> string" where
  "value_of G key s = fst (redigo_String (fst (redis_get G key (gen_world s))))"

lemma run_redis_value: "run_state (redis_value G key) s =
    (value_of G key s, s\<lparr>gen_world := snd (redis_get G key (gen_world s)), asked := asked s @ [key]\<rparr>)"
  by (simp add: redis_value_def outside_def value_of_def case_prod_beta)

lemma run_counting [simp]: "run_state (counting f r) s = (r, f s)"
  by (simp add: counting_def)

lemma option_names:
  "ToLower_is ''#rm'' ''#rm''" "\<not> ToLower_is ''#rmLine'' ''#rm''" "ToLower_is ''#rmLine'' ''#rmline''"
  "\<not> ToLower_is ''#default:'' ''#rm''" "\<not> ToLower_is ''#default:'' ''#rmline''" "ToLower_is ''#default:'' ''#default:''"
  "\<not> ToLower_is [] ''#rm''" "\<not> ToLower_is [] ''#rmline''" "\<not> ToLower_is [] ''#default:''"
  by (simp_all add: ToLower_is_def lower_rune_def)

lemma reads_exclusive: "\<not> (reads_true v \<and> reads_false v)"
  by (auto simp: reads_true_def reads_false_def EqualFold_def fold_rune_def)

lemma run_template_line_one:
  assumes "no_opening pre" "group_ok g" "\<not> Contains post ''{{''"
  shows "run_state (template_line G (pre @ braced g @ post)) s =
    (case run_state (placeholder_step G g \<lparr>outputLine = pre @ braced g @ post, printLine = True\<rparr>) s of
       (Panic, s1) \<Rightarrow> (Panic, s1)
     | (Ret (l, _), s1) \<Rightarrow> (Ret (), if printLine l
         then s1\<lparr>written := written s1 @ [outputLine l], countLines := Suc (countLines s1)\<rparr> else s1))"
  by (simp add: template_line_def find_all_one [OF assms] case_prod_beta split: go.split)

lemma put_in_one:
  "no_opening pre \<Longrightarrow> \<not> Contains post ''{{'' \<Longrightarrow>
   put_in g v \<lparr>outputLine = pre @ braced g @ post, printLine = b\<rparr> = \<lparr>outputLine = pre @ v @ post, printLine = b\<rparr>"
  by (simp add: put_in_def Replace_one)

lemma drop_line_printLine [simp]: "printLine (drop_line l) = False"
  by (simp add: drop_line_def)


subsection \<open>Whole templates\<close>

lemma find_all_plain_line: "\<not> Contains l ''{{'' \<Longrightarrow> find_all (drop_cr l) = []"
proof (rule find_all_none)
  assume "\<not> Contains l ''{{''"
  moreover have "l = drop_cr l @ (if l \<noteq> [] \<and> last l = CHR 0x0D then [CHR 0x0D] else [])"
    by (auto simp: drop_cr_def) (metis append_butlast_last_id)
  ultimately show "\<not> Contains (drop_cr l) ''{{''" unfolding Contains_iff by (metis append.assoc)
qed

text \<open>
  A template without placeholders is copied line by line (a carriage return at the end of a
  line is dropped), and Redis is not asked for anything.
\<close>

theorem plain_template_copied:
  assumes "\<forall>l \<in> set ls. newline_char \<notin> set l \<and> length l < max_scan_token \<and> \<not> Contains l ''{{''"
    and "run_state (parseTemplate G (stream ls [])) s = (r, s')"
  shows "r = Ret None \<and> written s' = written s @ map drop_cr ls \<and> asked s' = asked s \<and> gen_world s' = gen_world s"
proof -
  have one: "run_state (template_line G (drop_cr l)) s =
      (Ret (), s\<lparr>written := written s @ [drop_cr l], countLines := Suc (countLines s)\<rparr>)" if "\<not> Contains l ''{{''" for l s
    using find_all_plain_line [OF that] by (simp add: template_line_def)
  have "\<exists>s'. run_state (template_lines G (map drop_cr ls)) s = (Ret (), s') \<and> written s' = written s @ map drop_cr ls \<and>
      asked s' = asked s \<and> gen_world s' = gen_world s"
    using assms(1)
  proof (induction ls arbitrary: s)
    case (Cons l ls)
    define s1 where "s1 = s\<lparr>written := written s @ [drop_cr l], countLines := Suc (countLines s)\<rparr>"
    obtain s' where "run_state (template_lines G (map drop_cr ls)) s1 = (Ret (), s') \<and> written s' = written s1 @ map drop_cr ls \<and>
        asked s' = asked s1 \<and> gen_world s' = gen_world s1"
      using Cons by fastforce
    then show ?case using one [of l s] Cons.prems by (auto simp: s1_def)
  qed simp
  moreover have "scan_lines (stream ls []) = (map drop_cr ls, True)" using assms(1) by (intro scan_lines_stream) auto
  ultimately show ?thesis using assms(2) by (auto simp: parseTemplate_def)
qed

text \<open>The counters account for the lines written and the keys asked for.\<close>

definition counts_ok :: "'w gen_state \<Rightarrow> bool" where
  "counts_ok s \<longleftrightarrow> countLines s = length (written s) \<and>
     countReplace s + countKeep s + countRm s + countRmLine s + countCheckTrue s + countCheckFalse s +
       countDefault s = length (asked s)"

lemma counts_asked:
  assumes "counts_ok s"
  shows "counts_ok (countReplace_update Suc (s\<lparr>gen_world := w, asked := asked s @ [k]\<rparr>))"
    "counts_ok (countKeep_update Suc (s\<lparr>gen_world := w, asked := asked s @ [k]\<rparr>))"
    "counts_ok (countRm_update Suc (s\<lparr>gen_world := w, asked := asked s @ [k]\<rparr>))"
    "counts_ok (countRmLine_update Suc (s\<lparr>gen_world := w, asked := asked s @ [k]\<rparr>))"
    "counts_ok (countCheckTrue_update Suc (s\<lparr>gen_world := w, asked := asked s @ [k]\<rparr>))"
    "counts_ok (countCheckFalse_update Suc (s\<lparr>gen_world := w, asked := asked s @ [k]\<rparr>))"
    "counts_ok (countDefault_update Suc (s\<lparr>gen_world := w, asked := asked s @ [k]\<rparr>))"
  using assms unfolding counts_ok_def by simp_all

lemma counts_redis:
  "(\<And>v w s. counts_ok s \<Longrightarrow> counts_ok (snd (run_state (h v) (s\<lparr>gen_world := w, asked := asked s @ [key]\<rparr>)))) \<Longrightarrow>
   preserves counts_ok (redis_value G key \<bind> h)"
  by (rule preservesI) (simp add: run_redis_value)

lemma counts_if:
  "counts_ok (snd (run_state m s)) \<Longrightarrow> counts_ok (snd (run_state n s)) \<Longrightarrow>
   counts_ok (snd (run_state (if b then m else n) s))"
  by simp

lemma counts_step: "preserves counts_ok (placeholder_step G g l)"
proof (cases "Fields g")
  case (Cons key opts)
  show ?thesis unfolding placeholder_step_def Cons Let_def list.case
    by (intro preserves_if preserves_return counts_redis counts_if; simp add: counts_asked)
qed (simp add: placeholder_step_def preserves_return)

lemma counts_loop: "preserves counts_ok (placeholders_loop G gs l)"
  by (induction gs arbitrary: l) (auto intro!: preserves_intros counts_step split: go.split)

lemma counts_line: "preserves counts_ok (template_line G text)"
  unfolding template_line_def
  by (rule preserves_bind [OF counts_loop]) (auto intro!: preservesI simp: counts_ok_def split: go.split)

lemma counts_lines: "preserves counts_ok (template_lines G ls)"
  by (induction ls) (auto intro!: preserves_intros counts_line split: go.split)

text \<open>
  However the run ends, the counters that are reported add up: the line counter is the
  number of lines written, and every key asked for is counted once, as replaced, kept,
  deleted, set to its default or as a check.
\<close>

theorem confgen_counts:
  "counts_ok (snd (run_state (parseTemplate G text) (gen_start w)))"
proof -
  have "preserves counts_ok (parseTemplate G text)"
    unfolding parseTemplate_def by (simp add: case_prod_beta preserves_intros counts_lines)
  then show ?thesis by (rule preservesD) (simp add: counts_ok_def gen_start_def)
qed

text \<open>A placeholder of white space only, and one that ends the line's placeholders.\<close>

lemma fields_of_empty: "fields_of rs w = [] \<longleftrightarrow> w = [] \<and> (\<forall>(r, bs) \<in> set rs. IsSpace r \<or> bs = [])"
  by (induction rs w rule: fields_of.induct) auto

definition is_output :: "string \<Rightarrow> bool" where
  "is_output g \<longleftrightarrow> Fields g \<noteq> [] \<and> ToLower_is (hd (Fields g)) ''#output:''"

lemma placeholder_step_result:
  "fst (run_state (placeholder_step G g l) s) = Panic \<longleftrightarrow> Fields g = []"
  "fst (run_state (placeholder_step G g l) s) = Ret (l', c) \<Longrightarrow> c = (\<not> is_output g)"
  by (auto simp: placeholder_step_def is_output_def run_redis_value Let_def split: list.splits if_splits)

lemma placeholders_loop_panic:
  "fst (run_state (placeholders_loop G gs l) s) = Panic \<longleftrightarrow>
   (\<exists>i < length gs. Fields (gs ! i) = [] \<and> (\<forall>j < i. \<not> is_output (gs ! j)))"
proof (induction gs arbitrary: l s)
  case (Cons g gs)
  obtain r s1 where r: "run_state (placeholder_step G g l) s = (r, s1)" by fastforce
  show ?case
  proof (cases r)
    case (Ret x)
    obtain l' c where x: "x = (l', c)" by fastforce
    have "Fields g \<noteq> []" "c = (\<not> is_output g)"
      using placeholder_step_result [of G g l s] r Ret x by auto
    moreover have "(\<exists>i < length (g # gs). Fields ((g # gs) ! i) = [] \<and> (\<forall>j < i. \<not> is_output ((g # gs) ! j))) \<longleftrightarrow>
        Fields g = [] \<or> (\<not> is_output g \<and> (\<exists>i < length gs. Fields (gs ! i) = [] \<and> (\<forall>j < i. \<not> is_output (gs ! j))))"
      by (auto simp: Ex_less_Suc2 All_less_Suc2)
    ultimately show ?thesis using r Ret x Cons.IH [of l' s1] by simp
  next
    case Panic
    then have "Fields g = []" using placeholder_step_result(1) [of G g l s] r by simp
    then show ?thesis using r Panic by auto
  qed
qed simp

text \<open>
  C40: A line makes the program panic exactly if it has a placeholder of white space only that no
  output specification comes before.
\<close>

theorem confgen_panics_iff:
  "fst (run_state (template_line G text) s) = Panic \<longleftrightarrow>
   (\<exists>i < length (find_all text). (\<forall>(r, bs) \<in> set (runes (find_all text ! i)). IsSpace r) \<and>
      (\<forall>j < i. \<not> is_output (find_all text ! j)))"
proof -
  have blank: "Fields g = [] \<longleftrightarrow> (\<forall>(r, bs) \<in> set (runes g). IsSpace r)" for g
    using runes_nonempty by (fastforce simp: Fields_def fields_of_empty)
  obtain r s1 where r: "run_state (placeholders_loop G (find_all text) \<lparr>outputLine = text, printLine = True\<rparr>) s = (r, s1)"
    by fastforce
  then have "fst (run_state (template_line G text) s) = Panic \<longleftrightarrow> r = Panic"
    by (cases r) (auto simp: template_line_def)
  also have "\<dots> \<longleftrightarrow> (\<exists>i < length (find_all text). Fields (find_all text ! i) = [] \<and> (\<forall>j < i. \<not> is_output (find_all text ! j)))"
    using placeholders_loop_panic r by (metis fst_conv)
  finally show ?thesis unfolding blank .
qed

text \<open>A password given on the command line is not sent; without one, the empty password is.\<close>

lemma password_not_sent: "DialPassword p \<in> set (dial_options a) \<longleftrightarrow> redisPassArg a = [] \<and> p = []"
  by (auto simp: dial_options_def)

subsection \<open>Witnesses\<close>

definition demo_gen :: "unit gen_env" where
  "demo_gen = \<lparr>redis_dial = (\<lambda>a os w. (None, w)), redis_ping = (\<lambda>w. (None, w)),
     redis_get = (\<lambda>k w. (Inr (if k = ''net'' then RBulk ''testnet'' else RNil), w)),
     open_template = (\<lambda>f w. (None, w)), template_text = (\<lambda>f w. []), create_output = (\<lambda>f w. (None, w))\<rparr>"


lemma plain_template_copied_witness:
  "fst (run_state (parseTemplate demo_gen (stream [''x = 1'', ''y = 2''] [])) (gen_start ())) = Ret None"
proof -
  have "\<forall>l \<in> set [''x = 1'', ''y = 2'']. newline_char \<notin> set l \<and> length l < max_scan_token \<and> \<not> Contains l ''{{''"
    by (simp add: newline_char_def max_scan_token_def Contains_Cons) (simp add: Contains_def Index.simps)
  from plain_template_copied [OF this prod.collapse [symmetric]] show ?thesis by blast
qed

lemma confgen_panics_iff_witness:
  "fst (run_state (template_line demo_gen (''a'' @ braced '' '' @ ''b'')) (gen_start ())) = Panic"
proof -
  have "find_all (''a'' @ braced '' '' @ ''b'') = ['' '']"
    by (rule find_all_one) (auto simp: no_opening_def group_ok_def newline_char_def Contains_Cons Contains_def Index.simps)
  then show ?thesis unfolding confgen_panics_iff by (simp add: IsSpace_def)
qed

end
