(* ===== verification/Spec2Isabelle.thy ===== *)
theory Spec2Isabelle
  imports Update_Threads Password_Threads Pairing Wire Pipe_Reader Supervisor_Main Systemstate Fancontrol Confgen
begin

text \<open>
  A verification development for BitBoxBase, the node software of a Bitcoin appliance.  The
  program has four parts, all in Go.

  \<^item> The middleware (src/middleware) serves the wallet app.  A client connects over a websocket
    (handlers), runs a Noise handshake and is paired once by comparing a code on the HSM
    (noise, hsm); its RPCs pass a token check (rpcserver) and reach the operations of the
    middleware (middleware.go, util.go), which run system scripts, keep users and settings in
    Redis, read measurements from Prometheus, install updates and tell the clients about
    changes.  Other processes notify it through a named pipe (ipcnotification).
  \<^item> The supervisor (src/tools/bbbsupervisor) watches the logs and the measurements of the
    services, restarts services and switches the Base out of its initial download state.
  \<^item> The fan control (src/tools/bbbfancontrol) sets the fan by the temperature.
  \<^item> The configuration generator (src/tools/bbbconfgen) fills templates with values from Redis.

  \<^bold>\<open>How the program is modelled.\<close>  A Go function that reads or changes state is a value of the
  state monad over a record of that state; an early return, an error and a panic are branches of
  its result (\<^verbatim>\<open>option\<close>, a sum with the errors, or \<^verbatim>\<open>'a go\<close> with \<^verbatim>\<open>Panic\<close>).  What is outside the
  repository's own code (processes, servers, the file system, bcrypt, tokens, gjson, the Noise library, the
  device API) is a record of functions over an abstract outside world, which every operation takes
  as an argument; what a property needs of it is a named hypothesis (\<^verbatim>\<open>bcrypt_library\<close>,
  \<^verbatim>\<open>jwt_library\<close>, \<^verbatim>\<open>redis_server\<close>, \<^verbatim>\<open>file_system\<close>, \<^verbatim>\<open>noise_library\<close>), satisfied together by the
  concrete world of the theory Simulation.  Every effect is recorded in a trace that no
  operation reads.  Strings are byte strings; Go's handling of UTF-8, its JSON and base64 are
  modelled.  Log output is left out.

  \<^bold>\<open>Theories.\<close>

  \<^item> Prelude: triples, frames (\<^verbatim>\<open>keeps\<close>), preserved predicates and growing logs for the state
    monad, as rule collections.  Threads: interleavings of threads over a shared state, with the
    locale \<^verbatim>\<open>cut_operation\<close> (an operation cut into steps) and the locale \<^verbatim>\<open>thread_proof\<close> (invariants and
    what a thread may rely on).  Go_Strings, Go_JSON, Go_Flag: the standard library.  World: numbers,
    effects, the environment.
  \<^item> Rpcmessages, Configuration, Redis, Prometheus, Authentication: the packages of these names, with
    the mock of Redis; Simulation is the outside world of the witnesses.
  \<^item> Middleware_State: the struct and the helpers of util.go.  Middleware_Scripts: the RPCs that run
    scripts, with the flash drive (\<^verbatim>\<open>with_flashdrive\<close>) and the host name.  Middleware_Auth: users,
    passwords, start-up.  Middleware_Update: the update state machine and the search for updates.
    Middleware_Info: service and base information, the background loops, \<^verbatim>\<open>Start\<close>.
  \<^item> Ipcnotification: the reader of the pipe; Pipe_Reader has it in steps.  Rpcserver: the interface \<^verbatim>\<open>Middleware\<close> and every RPC; the
    locale \<^verbatim>\<open>rpc_backend\<close> proves the token gate for any backend and is interpreted on the
    middleware.
  \<^item> System: the running middleware as a step relation; Update_Threads: concurrent calls of
    \<^verbatim>\<open>UpdateBase\<close>, cut into atomic steps, and Password_Threads: concurrent logins and password
    changes (\<^verbatim>\<open>password_step\<close>).  Middleware_Main: the program from its command line to
    the listening server (cmd/middleware/main.go).  Pairing: the connections of a Base so started,
    with the HSM behind them.
  \<^item> Noise_Config, Noise: the stored keys and the handshake.  Handlers: events, clients, the loops of a
    connection and the mutex.  Connections: the handshakes and loops of several clients as threads
    that share one \<^verbatim>\<open>NoiseConfig\<close>.  Hsm: connecting to the HSM.  Session: a client's messages through the
    channel, the RPC server and the middleware.  Net_Rpc: what the code uses of \<^verbatim>\<open>net/rpc\<close>, with the
    service table that all connections share.  Wire: the bytes from the app to \<^verbatim>\<open>net/rpc\<close> and back.
  \<^item> Supervisor, Supervisor_Main, Systemstate, Fancontrol, Confgen: the tools.

  \<^bold>\<open>What is shown.\<close>

  \<^item> Access: what a client's messages can do through all layers, the token gate of every RPC, sound logins, the life of a token, what an
    unauthenticated request can do, password changes and their round trip through the stored
    JSON, the default user at start-up.  Calls at the same time: no password logs in that was not
    stored or set by someone who knew one, but a change answered with success can be lost.
  \<^item> Pairing: nothing is encrypted for or decrypted from an unpaired client, a client is paired
    only by consent on the HSM or by its stored key, stored configurations are read back.  For
    concurrent connections: a handshake that runs alone is \<^verbatim>\<open>InitializeNoise\<close> (refinement); without
    consent and without a stored key no interleaving opens the middleware; but consent given to one
    client can pair another, whose handshake ends while the HSM waits for the answer.  From the
    command line on: what is let in was confirmed on the HSM, if one was found at the start.
    Since the ciphers are shared too, the handshake of one client cuts off the one before.
  \<^item> RPCs: a paired client's requests are answered, byte by byte, with notifications in between
    (round trip); a response fits its request and has the declared type; \<^verbatim>\<open>Serve\<close> can be called as an RPC.
  \<^item> Start-up: what \<^verbatim>\<open>main\<close> hands to the middleware, and the state in which it listens.
  \<^item> Updates: the outcome of \<^verbatim>\<open>UpdateBase\<close> on every branch; between calls no update is recorded as
    running; a call cut into steps that runs alone is \<^verbatim>\<open>UpdateBase\<close> (refinement), and what holds and
    what goes wrong when calls interleave.
  \<^item> Scripts: a mounted drive is unmounted on every path, the error codes of scripts, the host
    names that reach a script; the lines of the installer and of the pipe, whose
    reader implements the scan of its lines (refinement) and ends when it is closed.
  \<^item> Clients: their numbers, and the deadlock of a client that leaves while an event is sent.
  \<^item> Tools: the goroutines of the supervisor reach only states of its event loop; its memory of the download state, its precondition, the spacing of
    restarts; the hysteresis of the fan and its formula in 64-bit arithmetic; the placeholders
    of a template and when the generator panics.

  \<^bold>\<open>Bounds.\<close>  The JSON parser recurses on fuel, twice the length of the text plus 2, which is
  enough for every text the encoder gives (\<^verbatim>\<open>json_parse_text\<close>).  A call of \<^verbatim>\<open>UpdateBase\<close> that runs alone
  takes at most three steps more than the installer prints lines, a handshake at most 27, a password change six.  The waits for the HSM are the
  30 rounds of the code.  Endless loops are modelled by one round and repeated by a step relation
  (\<^verbatim>\<open>base_step\<close>, \<^verbatim>\<open>supervised\<close>) or a number of rounds (\<^verbatim>\<open>fan_rounds\<close>).

  \<^bold>\<open>Not modelled.\<close>  The encoding gob (the parameter \<^verbatim>\<open>decode\<close> of Net_Rpc and the streams of Wire); the HTTP listener, the
  router and the upgrade to a websocket; goroutines and channels other than in \<^verbatim>\<open>thread_step\<close>, \<^verbatim>\<open>password_step\<close>,
  \<^verbatim>\<open>connect_step\<close>, \<^verbatim>\<open>goroutine_step\<close>, \<^verbatim>\<open>reader_step\<close> and \<^verbatim>\<open>lock_step\<close>; usage texts and all other
  output that is only logged, with the constants of logtags and the logger of hsm/glue.go;
  connection pools; the generated mocks and the vendored packages, except the reply conversions
  of redigo.
\<close>

end
